(* ===== verification/Prelude.thy ===== *)
theory Prelude
  imports Main "HOL-Library.Word" "HOL-Library.Char_ord" "HOL-Library.List_Lexorder"
begin

text \<open>
  Shared vocabulary of the development: the machine types of the Go program, the theorem
  collections the components feed, and generic facts on lists, maps, options and sums that
  several components use.

  A Go string and a Go byte slice are both sequences of bytes, and the program converts
  freely between them (\<open>[]byte(s)\<close>, \<open>string(b)\<close>), so both are \<^typ>\<open>char list\<close> here: a
  \<^typ>\<open>char\<close> is one byte. The order on strings is the bytewise lexicographic one that
  Go's \<open>sort.Strings\<close> and string comparison use.
\<close>

section \<open>Machine types\<close>

type_synonym bytes = string
type_synonym u64 = "64 word"
type_synonym u32 = "32 word"
type_synonym i32 = "32 word"  \<comment> \<open>Go \<open>int32\<close>, read by \<^const>\<open>sint\<close>\<close>
type_synonym byte = "8 word"

text \<open>
  Go's \<open>int\<close>, \<open>int64\<close> and \<open>time.Duration\<close> are two's-complement 64-bit integers. They are
  modelled as \<^typ>\<open>int\<close>; where the program adds or multiplies such values, the result is
  brought back into range by \<open>wrap64\<close>.
\<close>

definition wrap64 :: "int \<Rightarrow> int" where
  "wrap64 x = (x + 2 ^ 63) mod 2 ^ 64 - 2 ^ 63"

definition in_int64 :: "int \<Rightarrow> bool" where
  "in_int64 x \<longleftrightarrow> - (2 ^ 63) \<le> x \<and> x < 2 ^ 63"

lemma wrap64_id: "in_int64 x \<Longrightarrow> wrap64 x = x"
  by (simp add: wrap64_def in_int64_def)

lemma in_int64_wrap64 [simp, intro]: "in_int64 (wrap64 x)"
proof -
  have "0 \<le> (x + 2 ^ 63) mod 2 ^ 64" "(x + 2 ^ 63) mod 2 ^ 64 < (2 ^ 64 :: int)"
    by simp_all
  then show ?thesis by (simp add: wrap64_def in_int64_def)
qed

section \<open>Theorem collections\<close>

named_theorems bytes_simps \<open>lengths and character sets of the strings the program builds\<close>
named_theorems guard_laws \<open>the contract of a replay guard, proved for each implementation\<close>
named_theorems frame_simps \<open>what an operation leaves unchanged\<close>

section \<open>Lists with separators\<close>

text \<open>
  A text that consists of a part free of separators, a separator and a rest can be taken
  apart in one way only. The canonical signed bytes, the timestamps and the line structure
  of the storage file all rest on this fact.
\<close>

lemma append_sep_inj:
  assumes "a @ c # x = b @ d # y"
    and "\<forall>z\<in>set a. P z" and "\<forall>z\<in>set b. P z" and "\<not> P c" and "\<not> P d"
  shows "a = b \<and> c = d \<and> x = y"
proof -
  have split: "takeWhile P (u @ z # v) = u \<and> dropWhile P (u @ z # v) = z # v"
    if "\<forall>w\<in>set u. P w" "\<not> P z" for u z v
    using that by (simp add: takeWhile_append dropWhile_append)
  have "a = b"
    using split [OF assms(2,4), of x] split [OF assms(3,5), of y] unfolding assms(1) by blast
  with assms(1) show ?thesis by simp
qed

lemma append_nl_inj:
  assumes "a @ c # x = b @ c # y" and "c \<notin> set a" and "c \<notin> set b"
  shows "a = b \<and> x = y"
  using append_sep_inj [where P = "\<lambda>z. z \<noteq> c", OF assms(1)] assms(2,3) by auto

lemma append_eq_same_length:
  "length a = length b \<Longrightarrow> a @ x = b @ y \<longleftrightarrow> a = b \<and> x = y"
  by (rule append_eq_append_conv) simp

lemma replicate_append_inj:
  assumes "replicate m z @ xs = replicate n z @ ys" and "xs = [] \<or> hd xs \<noteq> z" and "ys = [] \<or> hd ys \<noteq> z"
  shows "xs = ys"
  using assms
proof (induction m arbitrary: n)
  case 0
  then show ?case by (cases n) auto
next
  case (Suc m)
  then show ?case by (cases n) auto
qed

section \<open>Sums as results\<close>

text \<open>A fallible Go function returns \<open>Inl\<close> of its error or \<open>Inr\<close> of its value.\<close>

definition is_ok :: "'e + 'a \<Rightarrow> bool" where
  "is_ok r \<longleftrightarrow> (case r of Inl _ \<Rightarrow> False | Inr _ \<Rightarrow> True)"

lemma is_ok_simps [simp]: "is_ok (Inr x)" "\<not> is_ok (Inl e)"
  by (simp_all add: is_ok_def)

lemma is_ok_iff: "is_ok r \<longleftrightarrow> (\<exists>x. r = Inr x)"
  by (cases r) auto

end
