(* ===== verification/Go_Strings.thy ===== *)
theory Go_Strings
  imports Prelude
begin

text \<open>
  What the program uses of Go's \<open>strconv\<close>, \<open>encoding/hex\<close>, \<open>strings\<close> and \<open>sort\<close>
  packages: decimal and hexadecimal output, \<open>strings.TrimSpace\<close> on UTF-8 bytes, and
  sorting without duplicates. The lemmas give the length, the alphabet and the
  injectivity of the two number formats, which the canonical signed bytes rely on.
\<close>

section \<open>Decimal and hexadecimal digits\<close>

definition digit_char :: "nat \<Rightarrow> char" where
  "digit_char d = char_of (48 + d)"

lemma digit_char_simps:
  "digit_char 0 = CHR ''0''" "digit_char (Suc 0) = CHR ''1''" "digit_char 1 = CHR ''1''"
  "digit_char 2 = CHR ''2''" "digit_char 3 = CHR ''3''" "digit_char 4 = CHR ''4''"
  "digit_char 5 = CHR ''5''" "digit_char 6 = CHR ''6''" "digit_char 7 = CHR ''7''"
  "digit_char 8 = CHR ''8''" "digit_char 9 = CHR ''9''"
  by (simp_all add: digit_char_def char_of_def bit_simps bit_iff_odd)

definition is_digit :: "char \<Rightarrow> bool" where
  "is_digit c \<longleftrightarrow> 48 \<le> (of_char c :: nat) \<and> (of_char c :: nat) \<le> 57"

definition digit_val :: "char \<Rightarrow> nat" where
  "digit_val c = of_char c - 48"

lemma of_char_digit_char: "d < 10 \<Longrightarrow> (of_char (digit_char d) :: nat) = 48 + d"
  by (simp add: digit_char_def)

lemma digit_val_digit_char [simp]: "d < 10 \<Longrightarrow> digit_val (digit_char d) = d"
  by (simp add: digit_val_def of_char_digit_char)

lemma is_digit_digit_char [simp]: "d < 10 \<Longrightarrow> is_digit (digit_char d)"
  by (simp add: is_digit_def of_char_digit_char)

text \<open>\<open>strconv.FormatUint(_, 10)\<close> and the \<open>%d\<close> verb on a non-negative value.\<close>

fun format_dec :: "nat \<Rightarrow> string" where
  "format_dec n = (if n < 10 then [digit_char n] else format_dec (n div 10) @ [digit_char (n mod 10)])"

declare format_dec.simps [simp del]

definition FormatUint :: "u64 \<Rightarrow> string" where
  "FormatUint w = format_dec (unat w)"

definition dec_val :: "string \<Rightarrow> nat" where
  "dec_val s = foldl (\<lambda>n c. 10 * n + digit_val c) 0 s"

lemma dec_val_snoc: "dec_val (s @ [c]) = 10 * dec_val s + digit_val c"
  by (simp add: dec_val_def)

lemma dec_val_format_dec [simp]: "dec_val (format_dec n) = n"
proof (induction n rule: format_dec.induct)
  case (1 n)
  show ?case
  proof (cases "n < 10")
    case True
    then show ?thesis by (simp add: format_dec.simps [of n] dec_val_def)
  next
    case False
    with "1.IH" show ?thesis
      by (simp add: format_dec.simps [of n] dec_val_snoc)
  qed
qed

lemma format_dec_inj [simp]: "format_dec m = format_dec n \<longleftrightarrow> m = n"
  by (metis dec_val_format_dec)

lemma format_dec_digits: "c \<in> set (format_dec n) \<Longrightarrow> is_digit c"
proof (induction n rule: format_dec.induct)
  case (1 n)
  then show ?case
    by (cases "n < 10") (auto simp: format_dec.simps [of n])
qed

lemma format_dec_ne [simp]: "format_dec n \<noteq> []"
  by (simp add: format_dec.simps [of n])

lemma length_format_dec_le: "n < 10 ^ k \<Longrightarrow> 0 < k \<Longrightarrow> length (format_dec n) \<le> k"
proof (induction k arbitrary: n)
  case 0
  then show ?case by simp
next
  case (Suc k)
  show ?case
  proof (cases "n < 10")
    case True
    then show ?thesis by (simp add: format_dec.simps [of n])
  next
    case False
    then have "k \<noteq> 0" using Suc.prems by (cases k) auto
    moreover have "n div 10 < 10 ^ k"
      using Suc.prems by (simp add: less_mult_imp_div_less mult.commute)
    ultimately have "length (format_dec (n div 10)) \<le> k" using Suc.IH by simp
    with False show ?thesis by (simp add: format_dec.simps [of n])
  qed
qed

lemma FormatUint_inj [simp]: "FormatUint v = FormatUint w \<longleftrightarrow> v = w"
  by (simp add: FormatUint_def word_eq_iff_unsigned [where 'a = nat])

lemma FormatUint_digits: "c \<in> set (FormatUint w) \<Longrightarrow> is_digit c"
  by (auto simp: FormatUint_def dest: format_dec_digits)

text \<open>\<open>strconv.FormatInt(_, 10)\<close> and the \<open>%d\<close> verb on a signed value.\<close>

definition format_int :: "int \<Rightarrow> string" where
  "format_int n = (if n < 0 then ''-'' @ format_dec (nat (- n)) else format_dec (nat n))"

lemma format_dec_lead: "format_dec n = CHR ''0'' # t \<Longrightarrow> n = 0 \<and> t = []"
proof (induction n arbitrary: t rule: format_dec.induct)
  case (1 n)
  show ?case
  proof (cases "n < 10")
    case True
    with "1.prems" have "digit_val (digit_char n) = digit_val (CHR ''0'')" "t = []"
      by (simp_all add: format_dec.simps [of n])
    with True show ?thesis by (simp add: digit_val_def [of "CHR ''0''"])
  next
    case False
    with "1.prems" obtain t' where "format_dec (n div 10) = CHR ''0'' # t'"
      by (cases "format_dec (n div 10)") (auto simp: format_dec.simps [of n])
    with "1.IH" False show ?thesis by fastforce
  qed
qed

text \<open>\<open>strconv.ParseUint\<close> and \<open>strconv.ParseInt\<close> in base 10, on a text the scanner took as a number.\<close>

definition parse_dec :: "string \<Rightarrow> nat option" where
  "parse_dec s = (if s \<noteq> [] \<and> list_all is_digit s then Some (dec_val s) else None)"

definition ParseUint :: "nat \<Rightarrow> string \<Rightarrow> int option" where
  "ParseUint bits s =
     (case parse_dec s of
        None \<Rightarrow> None
      | Some n \<Rightarrow> if int n < 2 ^ bits then Some (int n) else None)"

definition ParseInt :: "nat \<Rightarrow> string \<Rightarrow> int option" where
  "ParseInt bits s =
     (let (neg, t) = (case s of c # cs \<Rightarrow> if c = CHR ''-'' then (True, cs) else if c = CHR ''+'' then (False, cs) else (False, s) | [] \<Rightarrow> (False, s))
      in case parse_dec t of
           None \<Rightarrow> None
         | Some n \<Rightarrow>
             let v = (if neg then - int n else int n)
             in if - (2 ^ (bits - 1)) \<le> v \<and> v < 2 ^ (bits - 1) then Some v else None)"

lemma parse_dec_format [simp]: "parse_dec (format_dec n) = Some n"
  by (auto simp: parse_dec_def list_all_iff dest: format_dec_digits)

lemma ParseUint_format: "0 \<le> n \<Longrightarrow> n < 2 ^ bits \<Longrightarrow> ParseUint bits (format_int n) = Some n"
  by (simp add: ParseUint_def format_int_def)

lemma ParseInt_format:
  assumes "- (2 ^ (bits - 1)) \<le> n" and "n < 2 ^ (bits - 1)"
  shows "ParseInt bits (format_int n) = Some n"
proof (cases "n < 0")
  case True
  with assms show ?thesis by (simp add: ParseInt_def format_int_def)
next
  case False
  obtain c t where ct: "format_dec (nat n) = c # t" by (cases "format_dec (nat n)") auto
  have "is_digit c" using format_dec_digits [of c "nat n"] ct by simp
  then have "c \<noteq> CHR ''-''" "c \<noteq> CHR ''+''" by (auto simp: is_digit_def)
  with False assms ct show ?thesis
    by (simp add: ParseInt_def format_int_def parse_dec_format [of "nat n", unfolded ct])
qed

section \<open>Zero-padded decimals\<close>

definition pad_dec :: "nat \<Rightarrow> nat \<Rightarrow> string" where
  "pad_dec k n = replicate (k - length (format_dec n)) (CHR ''0'') @ format_dec n"

lemma dec_val_zeros: "dec_val (replicate k (CHR ''0'') @ s) = dec_val s"
  by (induction k) (simp_all add: dec_val_def digit_val_def)

lemma dec_val_pad_dec [simp]: "dec_val (pad_dec k n) = n"
  by (simp add: pad_dec_def dec_val_zeros)

lemma pad_dec_inj [simp]: "pad_dec k m = pad_dec k n \<longleftrightarrow> m = n"
  by (metis dec_val_pad_dec)

lemma length_pad_dec: "n < 10 ^ k \<Longrightarrow> 0 < k \<Longrightarrow> length (pad_dec k n) = k"
  using length_format_dec_le [of n k] by (simp add: pad_dec_def)

lemma pad_dec_digits: "c \<in> set (pad_dec k n) \<Longrightarrow> is_digit c"
  by (auto simp: pad_dec_def is_digit_def dest: format_dec_digits split: if_splits)

section \<open>Hexadecimal output\<close>

definition hex_digit :: "nat \<Rightarrow> char" where
  "hex_digit d = (if d < 10 then char_of (48 + d) else char_of (87 + d))"

definition hex_byte :: "char \<Rightarrow> string" where
  "hex_byte c = [hex_digit (of_char c div 16), hex_digit (of_char c mod 16)]"

text \<open>\<open>hex.EncodeToString\<close>\<close>

definition EncodeToString :: "bytes \<Rightarrow> string" where
  "EncodeToString bs = concat (map hex_byte bs)"

lemma length_EncodeToString [simp, bytes_simps]: "length (EncodeToString bs) = 2 * length bs"
  by (induction bs) (simp_all add: EncodeToString_def hex_byte_def)

lemma EncodeToString_simps [simp]:
  "EncodeToString [] = []" "EncodeToString (b # bs) = hex_byte b @ EncodeToString bs"
  by (simp_all add: EncodeToString_def)

definition is_hex_digit :: "char \<Rightarrow> bool" where
  "is_hex_digit c \<longleftrightarrow> is_digit c \<or> 97 \<le> (of_char c :: nat) \<and> (of_char c :: nat) \<le> 102"

lemma of_char_hex_digit:
  "d < 16 \<Longrightarrow> (of_char (hex_digit d) :: nat) = (if d < 10 then 48 + d else 87 + d)"
  by (simp add: hex_digit_def)

lemma hex_digit_inj:
  assumes "m < 16" and "n < 16" and "hex_digit m = hex_digit n"
  shows "m = n"
proof -
  from assms(3) have "(of_char (hex_digit m) :: nat) = of_char (hex_digit n)" by simp
  with assms(1,2) show ?thesis by (simp add: of_char_hex_digit split: if_splits)
qed

lemma is_hex_digit_hex_digit: "d < 16 \<Longrightarrow> is_hex_digit (hex_digit d)"
  by (cases "d < 10") (simp_all add: is_hex_digit_def is_digit_def of_char_hex_digit)

lemma of_char_nibbles: "(of_char c :: nat) div 16 < 16" "(of_char c :: nat) mod 16 < 16"
proof -
  have "(of_char c :: nat) = of_char c mod 256" by (rule of_char_mod_256 [symmetric])
  also have "\<dots> < 256" by simp
  finally show "(of_char c :: nat) div 16 < 16" by (simp add: less_mult_imp_div_less)
qed simp

lemma hex_byte_inj:
  assumes "hex_byte a = hex_byte b"
  shows "a = b"
proof -
  from assms have "(of_char a :: nat) div 16 = of_char b div 16" "(of_char a :: nat) mod 16 = of_char b mod 16"
    by (auto simp: hex_byte_def intro: hex_digit_inj of_char_nibbles)
  then have "(of_char a :: nat) = of_char b" by (metis div_mult_mod_eq)
  then show ?thesis by simp
qed

lemma length_hex_byte [simp]: "length (hex_byte c) = 2"
  by (simp add: hex_byte_def)

lemma EncodeToString_inj: "EncodeToString a = EncodeToString b \<Longrightarrow> a = b"
proof (induction a arbitrary: b)
  case Nil
  then show ?case by (cases b) (auto simp: hex_byte_def)
next
  case (Cons x a)
  from Cons.prems obtain y b' where b: "b = y # b'"
    by (cases b) (auto simp: hex_byte_def)
  with Cons.prems have "hex_byte x = hex_byte y" "EncodeToString a = EncodeToString b'"
    by (simp_all add: append_eq_same_length)
  with b Cons.IH show ?case by (auto dest: hex_byte_inj)
qed

lemma EncodeToString_set: "c \<in> set (EncodeToString bs) \<Longrightarrow> is_hex_digit c"
  by (induction bs) (auto simp: hex_byte_def intro: is_hex_digit_hex_digit of_char_nibbles)

section \<open>Trimming white space\<close>

text \<open>
  \<open>strings.TrimSpace\<close> removes Unicode white space from both ends. A string begins or ends
  with a white-space rune exactly when it begins or ends with the UTF-8 encoding of one, so
  trimming works on the encodings.
\<close>

definition space_encodings :: "string list" where
  "space_encodings =
     [[CHR 0x09], [CHR 0x0A], [CHR 0x0B], [CHR 0x0C], [CHR 0x0D], [CHR 0x20],
      [CHR 0xC2, CHR 0x85], [CHR 0xC2, CHR 0xA0], [CHR 0xE1, CHR 0x9A, CHR 0x80],
      [CHR 0xE2, CHR 0x80, CHR 0x80], [CHR 0xE2, CHR 0x80, CHR 0x81], [CHR 0xE2, CHR 0x80, CHR 0x82],
      [CHR 0xE2, CHR 0x80, CHR 0x83], [CHR 0xE2, CHR 0x80, CHR 0x84], [CHR 0xE2, CHR 0x80, CHR 0x85],
      [CHR 0xE2, CHR 0x80, CHR 0x86], [CHR 0xE2, CHR 0x80, CHR 0x87], [CHR 0xE2, CHR 0x80, CHR 0x88],
      [CHR 0xE2, CHR 0x80, CHR 0x89], [CHR 0xE2, CHR 0x80, CHR 0x8A], [CHR 0xE2, CHR 0x80, CHR 0xA8],
      [CHR 0xE2, CHR 0x80, CHR 0xA9], [CHR 0xE2, CHR 0x80, CHR 0xAF], [CHR 0xE2, CHR 0x81, CHR 0x9F],
      [CHR 0xE3, CHR 0x80, CHR 0x80]]"

definition starts_with :: "string \<Rightarrow> string \<Rightarrow> bool" where
  "starts_with s e \<longleftrightarrow> take (length e) s = e"

function strip_all :: "string list \<Rightarrow> string \<Rightarrow> string" where
  "strip_all encs s =
     (case find (\<lambda>e. e \<noteq> [] \<and> starts_with s e) encs of
        None \<Rightarrow> s
      | Some e \<Rightarrow> strip_all encs (drop (length e) s))"
  by pat_completeness auto
termination
proof (relation "measure (\<lambda>(encs, s). length s)", goal_cases)
  case (2 encs s e)
  then have "e \<noteq> []" and "take (length e) s = e" by (auto simp: find_Some_iff starts_with_def)
  then have "s \<noteq> []" and "0 < length e" by auto
  then show ?case by simp
qed simp

declare strip_all.simps [simp del]

definition TrimSpace :: "string \<Rightarrow> string" where
  "TrimSpace s = rev (strip_all (map rev space_encodings) (rev (strip_all space_encodings s)))"

lemma strip_all_none:
  "\<forall>e \<in> set encs. e \<noteq> [] \<longrightarrow> \<not> starts_with s e \<Longrightarrow> strip_all encs s = s"
proof -
  assume "\<forall>e \<in> set encs. e \<noteq> [] \<longrightarrow> \<not> starts_with s e"
  then have "find (\<lambda>e. e \<noteq> [] \<and> starts_with s e) encs = None" by (auto simp: find_None_iff)
  then show ?thesis by (subst strip_all.simps) simp
qed

text \<open>A string whose first and last characters are printable ASCII is unchanged.\<close>

definition solid :: "char \<Rightarrow> bool" where
  "solid c \<longleftrightarrow> CHR ''!'' \<le> c \<and> c \<le> CHR ''~''"

lemma TrimSpace_solid:
  assumes "s \<noteq> []" and "solid (hd s)" and "solid (last s)"
  shows "TrimSpace s = s"
proof -
  have ends: "strip_all encs t = t" if "t \<noteq> []" "solid (hd t)" "\<forall>e \<in> set encs. e \<noteq> [] \<and> \<not> solid (hd e)" for encs t
  proof (rule strip_all_none, intro ballI impI notI)
    fix e assume e: "e \<in> set encs" "e \<noteq> []" "starts_with t e"
    then have "hd e = hd t" using that(1) unfolding starts_with_def by (metis hd_take length_greater_0_conv)
    with that e show False by auto
  qed
  have a: "\<forall>e \<in> set space_encodings. e \<noteq> [] \<and> \<not> solid (hd e)"
    and b: "\<forall>e \<in> set (map rev space_encodings). e \<noteq> [] \<and> \<not> solid (hd e)"
    by (simp_all add: space_encodings_def solid_def less_eq_char_def)
  from ends [OF _ _ a, of s] ends [OF _ _ b, of "rev s"] assms show ?thesis
    by (simp add: TrimSpace_def hd_rev)
qed

end
