(* ===== verification/Go_Regexp.thy ===== *)
theory Go_Regexp
  imports Go_Strings
begin

text \<open>
  What the program uses of Go's \<open>regexp\<close> and \<open>unicode/utf8\<close> packages: decoding a string into
  runes, regular expressions, and the question whether some part of a string matches. The
  relation \<open>re_match\<close> is the meaning of an expression; \<open>re_ends\<close> computes it, and
  \<open>MatchString\<close> is decided by it. Which of several matches is preferred (greedy or not)
  plays no role for that question, so \<open>*?\<close> is \<open>*\<close>.
\<close>

section \<open>Runes\<close>

type_synonym rune = int

primrec bit_val :: "bool \<Rightarrow> int" where
  "bit_val False = 0"
| "bit_val True = 1"

primrec byte_val :: "char \<Rightarrow> int" where
  "byte_val (Char b0 b1 b2 b3 b4 b5 b6 b7) =
     bit_val b0 + 2 * (bit_val b1 + 2 * (bit_val b2 + 2 * (bit_val b3 +
       2 * (bit_val b4 + 2 * (bit_val b5 + 2 * (bit_val b6 + 2 * bit_val b7))))))"

definition RuneError :: rune where "RuneError = 65533"

definition cont :: "int \<Rightarrow> bool" where
  "cont b \<longleftrightarrow> 128 \<le> b \<and> b \<le> 191"

text \<open>The range of the second byte of a sequence of three or four bytes.\<close>

definition second_ok :: "int \<Rightarrow> int \<Rightarrow> bool" where
  "second_ok b0 b1 \<longleftrightarrow>
     (if b0 = 224 then 160 \<le> b1 \<and> b1 \<le> 191
      else if b0 = 237 then 128 \<le> b1 \<and> b1 \<le> 159
      else if b0 = 240 then 144 \<le> b1 \<and> b1 \<le> 191
      else if b0 = 244 then 128 \<le> b1 \<and> b1 \<le> 143
      else cont b1)"

text \<open>
  \<open>utf8.DecodeRune\<close> on a non-empty input: the rune and the number of bytes after the first
  that belong to it. Anything that is not well-formed is \<open>RuneError\<close> of width one.
\<close>

definition decode_rune :: "int \<Rightarrow> int list \<Rightarrow> rune \<times> nat" where
  "decode_rune b0 bs =
     (if b0 < 128 then (b0, 0)
      else if 194 \<le> b0 \<and> b0 \<le> 223 then
        (case bs of b1 # _ \<Rightarrow> if cont b1 then ((b0 - 192) * 64 + (b1 - 128), 1) else (RuneError, 0)
         | _ \<Rightarrow> (RuneError, 0))
      else if 224 \<le> b0 \<and> b0 \<le> 239 then
        (case bs of b1 # b2 # _ \<Rightarrow>
            if second_ok b0 b1 \<and> cont b2
            then ((b0 - 224) * 4096 + (b1 - 128) * 64 + (b2 - 128), 2) else (RuneError, 0)
         | _ \<Rightarrow> (RuneError, 0))
      else if 240 \<le> b0 \<and> b0 \<le> 244 then
        (case bs of b1 # b2 # b3 # _ \<Rightarrow>
            if second_ok b0 b1 \<and> cont b2 \<and> cont b3
            then ((b0 - 240) * 262144 + (b1 - 128) * 4096 + (b2 - 128) * 64 + (b3 - 128), 3)
            else (RuneError, 0)
         | _ \<Rightarrow> (RuneError, 0))
      else (RuneError, 0))"

fun decode_runes :: "int list \<Rightarrow> rune list" where
  "decode_runes [] = []"
| "decode_runes (b # bs) = fst (decode_rune b bs) # decode_runes (drop (snd (decode_rune b bs)) bs)"

definition runes :: "string \<Rightarrow> rune list" where
  "runes s = decode_runes (map byte_val s)"

text \<open>On ASCII text the runes are the bytes.\<close>

lemma runes_ascii: "\<forall>c \<in> set s. byte_val c < 128 \<Longrightarrow> runes s = map byte_val s"
  unfolding runes_def by (induction s) (simp_all add: decode_rune_def)

section \<open>Regular expressions\<close>

datatype re = Eps | Cls "(rune \<times> rune) list" | Seq re re | Alt re re | Star re | WordB

definition in_class :: "(rune \<times> rune) list \<Rightarrow> rune \<Rightarrow> bool" where
  "in_class rs c = list_ex (\<lambda>(lo, hi). lo \<le> c \<and> c \<le> hi) rs"

definition is_word :: "rune \<Rightarrow> bool" where
  "is_word c = in_class [(48, 57), (65, 90), (95, 95), (97, 122)] c"

text \<open>A place in a text: the rune before it, if any, and the runes after it.\<close>

type_synonym place = "rune option \<times> rune list"

definition word_before :: "place \<Rightarrow> bool" where
  "word_before st = (case fst st of None \<Rightarrow> False | Some c \<Rightarrow> is_word c)"

definition word_after :: "place \<Rightarrow> bool" where
  "word_after st = (case snd st of [] \<Rightarrow> False | c # _ \<Rightarrow> is_word c)"

definition boundary :: "place \<Rightarrow> bool" where
  "boundary st \<longleftrightarrow> word_before st \<noteq> word_after st"

inductive re_match :: "re \<Rightarrow> place \<Rightarrow> place \<Rightarrow> bool" where
  m_Eps: "re_match Eps st st"
| m_Cls: "in_class rs c \<Longrightarrow> re_match (Cls rs) (p, c # cs) (Some c, cs)"
| m_Seq: "re_match a st st1 \<Longrightarrow> re_match b st1 st2 \<Longrightarrow> re_match (Seq a b) st st2"
| m_AltL: "re_match a st st1 \<Longrightarrow> re_match (Alt a b) st st1"
| m_AltR: "re_match b st st1 \<Longrightarrow> re_match (Alt a b) st st1"
| m_StarNil: "re_match (Star a) st st"
| m_StarStep: "re_match a st st1 \<Longrightarrow> re_match (Star a) st1 st2 \<Longrightarrow> re_match (Star a) st st2"
| m_WordB: "boundary st \<Longrightarrow> re_match WordB st st"

inductive_simps match_Eps [simp]: "re_match Eps st st'"
inductive_simps match_Cls: "re_match (Cls rs) st st'"
inductive_simps match_Seq: "re_match (Seq a b) st st'"
inductive_simps match_Alt: "re_match (Alt a b) st st'"
inductive_simps match_WordB: "re_match WordB st st'"
inductive_simps match_Star: "re_match (Star a) st st'"

text \<open>Repetition of steps that consume something.\<close>

function star_ends :: "(place \<Rightarrow> place list) \<Rightarrow> place \<Rightarrow> place list" where
  "star_ends f st =
     remdups (st # concat (map (star_ends f) (filter (\<lambda>st'. length (snd st') < length (snd st)) (f st))))"
  by pat_completeness auto
termination by (relation "measure (\<lambda>(f, st). length (snd st))") auto

declare star_ends.simps [simp del]

primrec re_ends :: "re \<Rightarrow> place \<Rightarrow> place list" where
  "re_ends Eps st = [st]"
| "re_ends (Cls rs) st = (case snd st of [] \<Rightarrow> [] | c # cs \<Rightarrow> if in_class rs c then [(Some c, cs)] else [])"
| "re_ends (Seq a b) st = remdups (concat (map (re_ends b) (re_ends a st)))"
| "re_ends (Alt a b) st = remdups (re_ends a st @ re_ends b st)"
| "re_ends (Star a) st = star_ends (re_ends a) st"
| "re_ends WordB st = (if boundary st then [st] else [])"

text \<open>The places at which a match may start.\<close>

fun places :: "rune option \<Rightarrow> rune list \<Rightarrow> place list" where
  "places p [] = [(p, [])]"
| "places p (c # cs) = (p, c # cs) # places (Some c) cs"

definition MatchString :: "re \<Rightarrow> string \<Rightarrow> bool" where
  "MatchString r s = list_ex (\<lambda>st. re_ends r st \<noteq> []) (places None (runes s))"

section \<open>The computation agrees with the meaning\<close>

text \<open>A match moves forward, and a match that consumes nothing stays where it is.\<close>

lemma re_match_forward:
  "re_match r st st' \<Longrightarrow> st' = st \<or> length (snd st') < length (snd st)"
  by (induction rule: re_match.induct) auto

lemma set_star_ends:
  "set (star_ends f st) = insert st
     (\<Union>st1 \<in> {st1 \<in> set (f st). length (snd st1) < length (snd st)}. set (star_ends f st1))"
  by (subst star_ends.simps) (simp only: set_remdups list.set set_concat set_map set_filter image_image)

lemma star_ends_sound:
  assumes "\<And>st st'. st' \<in> set (f st) \<Longrightarrow> re_match a st st'"
  shows "st' \<in> set (star_ends f st) \<Longrightarrow> re_match (Star a) st st'"
proof (induction "length (snd st)" arbitrary: st rule: less_induct)
  case less
  from less.prems consider "st' = st"
    | st1 where "st1 \<in> set (f st)" "length (snd st1) < length (snd st)" "st' \<in> set (star_ends f st1)"
    unfolding set_star_ends [of f st] by blast
  then show ?case
  proof cases
    case 1
    then show ?thesis by (simp add: m_StarNil)
  next
    case 2
    with less.hyps assms show ?thesis by (blast intro: m_StarStep)
  qed
qed

lemma star_ends_complete:
  assumes "re_match r st st'" and "r = Star a" and "\<And>st st'. re_match a st st' \<Longrightarrow> st' \<in> set (f st)"
  shows "st' \<in> set (star_ends f st)"
  using assms(1,2)
proof (induction rule: re_match.induct)
  case (m_StarNil b st)
  show ?case unfolding set_star_ends [of f st] by blast
next
  case (m_StarStep b st st1 st2)
  from m_StarStep have in1: "st1 \<in> set (f st)" and in2: "st2 \<in> set (star_ends f st1)"
    using assms(3) by simp_all
  from re_match_forward [OF m_StarStep.hyps(1)] show ?case
  proof
    assume "st1 = st"
    with in2 show ?case by simp
  next
    assume "length (snd st1) < length (snd st)"
    with in1 in2 show ?case unfolding set_star_ends [of f st] by blast
  qed
qed simp_all

theorem re_ends_iff: "st' \<in> set (re_ends r st) \<longleftrightarrow> re_match r st st'"
proof (induction r arbitrary: st st')
  case (Cls rs)
  show ?case
    by (cases st; cases "snd st") (auto simp: match_Cls)
next
  case (Seq a b)
  have "re_match (Seq a b) st st' \<longleftrightarrow> (\<exists>st1. re_match a st st1 \<and> re_match b st1 st')"
    by (simp add: match_Seq)
  moreover have "st' \<in> set (re_ends (Seq a b) st) \<longleftrightarrow> (\<exists>st1. st1 \<in> set (re_ends a st) \<and> st' \<in> set (re_ends b st1))"
    unfolding re_ends.simps set_remdups set_concat set_map by blast
  ultimately show ?case unfolding Seq.IH by blast
next
  case (Star r)
  show ?case
    using star_ends_sound [of "re_ends r" r st' st] star_ends_complete [of "Star r" st st' r "re_ends r"] Star
    by auto
qed (auto simp: match_Alt match_WordB)

lemma re_ends_ne: "re_ends r st \<noteq> [] \<longleftrightarrow> (\<exists>st'. re_match r st st')"
  unfolding re_ends_iff [symmetric] by (cases "re_ends r st") auto

text \<open>The place after a prefix of the text.\<close>

definition place_after :: "rune option \<Rightarrow> rune list \<Rightarrow> rune option" where
  "place_after p xs = (if xs = [] then p else Some (last xs))"

lemma places_iff: "st \<in> set (places p cs) \<longleftrightarrow> (\<exists>pre. cs = pre @ snd st \<and> fst st = place_after p pre)"
proof (induction p cs rule: places.induct)
  case (1 p)
  then show ?case by (cases st) (auto simp: place_after_def)
next
  case (2 p c cs)
  have "(\<exists>pre. c # cs = pre @ snd st \<and> fst st = place_after p pre) \<longleftrightarrow>
      st = (p, c # cs) \<or> (\<exists>pre. cs = pre @ snd st \<and> fst st = place_after (Some c) pre)"
  proof (intro iffI; elim disjE exE conjE)
    fix pre assume "c # cs = pre @ snd st" "fst st = place_after p pre"
    then show "st = (p, c # cs) \<or> (\<exists>pre. cs = pre @ snd st \<and> fst st = place_after (Some c) pre)"
      by (cases pre; cases st) (auto simp: place_after_def)
  next
    assume "st = (p, c # cs)"
    then show "\<exists>pre. c # cs = pre @ snd st \<and> fst st = place_after p pre"
      by (intro exI [of _ "[]"]) (simp add: place_after_def)
  next
    fix pre assume "cs = pre @ snd st" "fst st = place_after (Some c) pre"
    then show "\<exists>pre. c # cs = pre @ snd st \<and> fst st = place_after p pre"
      by (intro exI [of _ "c # pre"]) (auto simp: place_after_def)
  qed
  with 2 show ?case by simp
qed

lemma ex_places_iff:
  "(\<exists>st \<in> set (places p cs). Q st) \<longleftrightarrow> (\<exists>pre suf. cs = pre @ suf \<and> Q (place_after p pre, suf))"
proof
  assume "\<exists>st \<in> set (places p cs). Q st"
  then obtain a b where "(a, b) \<in> set (places p cs)" "Q (a, b)" by auto
  then show "\<exists>pre suf. cs = pre @ suf \<and> Q (place_after p pre, suf)"
    unfolding places_iff by auto
next
  assume "\<exists>pre suf. cs = pre @ suf \<and> Q (place_after p pre, suf)"
  then obtain pre suf where "cs = pre @ suf" "Q (place_after p pre, suf)" by blast
  then show "\<exists>st \<in> set (places p cs). Q st"
    by (intro bexI [of _ "(place_after p pre, suf)"]) (auto simp: places_iff)
qed

lemma MatchString_iff:
  "MatchString r s \<longleftrightarrow>
     (\<exists>pre suf. runes s = pre @ suf \<and> (\<exists>st. re_match r (place_after None pre, suf) st))"
proof -
  have "MatchString r s \<longleftrightarrow> (\<exists>st \<in> set (places None (runes s)). \<exists>st'. re_match r st st')"
    unfolding MatchString_def list_ex_iff by (simp add: re_ends_ne)
  also have "\<dots> \<longleftrightarrow> (\<exists>pre suf. runes s = pre @ suf \<and> (\<exists>st. re_match r (place_after None pre, suf) st))"
    unfolding ex_places_iff ..
  finally show ?thesis .
qed

section \<open>Derived forms\<close>

text \<open>\<open>r?\<close>, \<open>r{n}\<close>, \<open>r{0,n}\<close>, \<open>r{n,}\<close>, \<open>r+\<close>, sequences and alternatives.\<close>

definition opt :: "re \<Rightarrow> re" where "opt r = Alt r Eps"

primrec rep :: "nat \<Rightarrow> re \<Rightarrow> re" where
  "rep 0 r = Eps"
| "rep (Suc n) r = Seq r (rep n r)"

primrec rep_upto :: "nat \<Rightarrow> re \<Rightarrow> re" where
  "rep_upto 0 r = Eps"
| "rep_upto (Suc n) r = opt (Seq r (rep_upto n r))"

definition at_least :: "nat \<Rightarrow> re \<Rightarrow> re" where "at_least n r = Seq (rep n r) (Star r)"

definition between :: "nat \<Rightarrow> nat \<Rightarrow> re \<Rightarrow> re" where "between m n r = Seq (rep m r) (rep_upto (n - m) r)"

primrec seqs :: "re list \<Rightarrow> re" where
  "seqs [] = Eps"
| "seqs (r # rs) = Seq r (seqs rs)"

fun alts :: "re list \<Rightarrow> re" where
  "alts [] = Cls []"
| "alts [r] = r"
| "alts (r # rs) = Alt r (alts rs)"

text \<open>Character classes: \<open>\d\<close>, \<open>\s\<close>, a single character, and the letters under \<open>(?i)\<close>, where
  simple case folding adds U+017F to \<open>s\<close> and U+212A to \<open>k\<close>.\<close>

definition c_digit :: "(rune \<times> rune) list" where "c_digit = [(48, 57)]"
definition c_space :: "(rune \<times> rune) list" where "c_space = [(9, 10), (12, 13), (32, 32)]"
definition c_chars :: "string \<Rightarrow> (rune \<times> rune) list" where "c_chars s = map (\<lambda>c. (byte_val c, byte_val c)) s"
definition c_letter_i :: "(rune \<times> rune) list" where
  "c_letter_i = [(65, 90), (97, 122), (383, 383), (8490, 8490)]"

definition ch :: "char \<Rightarrow> re" where "ch c = Cls (c_chars [c])"

definition fold_letter :: "char \<Rightarrow> (rune \<times> rune) list" where
  "fold_letter c = (byte_val c, byte_val c) # (byte_val c - 32, byte_val c - 32) #
     (if c = CHR ''s'' then [(383, 383)] else if c = CHR ''k'' then [(8490, 8490)] else [])"

text \<open>A literal of lower-case letters under \<open>(?i)\<close>.\<close>

definition word_i :: "string \<Rightarrow> re" where "word_i s = seqs (map (\<lambda>c. Cls (fold_letter c)) s)"

section \<open>Runs of one character class\<close>

lemma place_after_Nil [simp]: "place_after p [] = p"
  by (simp add: place_after_def)

lemma place_after_Cons [simp]: "place_after p (c # cs) = place_after (Some c) cs"
  by (simp add: place_after_def)

lemma place_after_append [simp]: "place_after p (xs @ ys) = place_after (place_after p xs) ys"
  by (simp add: place_after_def)

lemma match_Cls_iff:
  "re_match (Cls rs) (p, xs) st \<longleftrightarrow> (\<exists>c cs. xs = c # cs \<and> in_class rs c \<and> st = (Some c, cs))"
  by (cases st) (auto simp: match_Cls)

lemma match_Seq_iff: "re_match (Seq a b) st st' \<longleftrightarrow> (\<exists>st1. re_match a st st1 \<and> re_match b st1 st')"
  by (simp add: match_Seq)

lemma match_WordB_iff: "re_match WordB st st' \<longleftrightarrow> boundary st \<and> st' = st"
  by (auto simp: match_WordB)

lemma match_rep_Cls:
  "re_match (rep n (Cls rs)) (p, xs) st \<longleftrightarrow>
     (\<exists>ys zs. xs = ys @ zs \<and> length ys = n \<and> list_all (in_class rs) ys \<and> st = (place_after p ys, zs))"
proof (induction n arbitrary: p xs)
  case 0
  then show ?case by auto
next
  case (Suc n)
  show ?case
  proof
    assume "re_match (rep (Suc n) (Cls rs)) (p, xs) st"
    then obtain c cs where "xs = c # cs" "in_class rs c" "re_match (rep n (Cls rs)) (Some c, cs) st"
      unfolding rep.simps match_Seq_iff by (auto simp: match_Cls_iff)
    moreover from this(3) obtain ys zs where "cs = ys @ zs" "length ys = n" "list_all (in_class rs) ys"
      "st = (place_after (Some c) ys, zs)" unfolding Suc.IH by blast
    ultimately show "\<exists>ys zs. xs = ys @ zs \<and> length ys = Suc n \<and> list_all (in_class rs) ys \<and> st = (place_after p ys, zs)"
      by (intro exI [of _ "c # ys"] exI [of _ zs]) simp
  next
    assume "\<exists>ys zs. xs = ys @ zs \<and> length ys = Suc n \<and> list_all (in_class rs) ys \<and> st = (place_after p ys, zs)"
    then obtain c ys zs where "xs = c # ys @ zs" "length ys = n" "in_class rs c" "list_all (in_class rs) ys"
      "st = (place_after (Some c) ys, zs)" by (auto simp: length_Suc_conv)
    moreover from this have "re_match (rep n (Cls rs)) (Some c, ys @ zs) st" unfolding Suc.IH by blast
    ultimately show "re_match (rep (Suc n) (Cls rs)) (p, xs) st"
      unfolding rep.simps match_Seq_iff
      by (intro exI [of _ "(Some c, ys @ zs)"]) (simp add: match_Cls_iff)
  qed
qed

lemma match_Star_rep: "re_match (Star r) st st' \<longleftrightarrow> (\<exists>n. re_match (rep n r) st st')"
proof
  show "\<exists>n. re_match (rep n r) st st'" if "re_match (Star r) st st'"
    using that
  proof (induction "Star r" st st' rule: re_match.induct)
    case (m_StarNil st)
    show ?case by (rule exI [of _ 0]) simp
  next
    case (m_StarStep st st1 st2)
    then obtain n where "re_match (rep n r) st1 st2" by blast
    with m_StarStep.hyps(1) show ?case by (intro exI [of _ "Suc n"]) (auto intro: m_Seq)
  qed
  show "re_match (Star r) st st'" if "\<exists>n. re_match (rep n r) st st'"
  proof -
    from that obtain n where "re_match (rep n r) st st'" ..
    then show ?thesis
      by (induction n arbitrary: st) (auto simp: match_Seq_iff intro: m_StarNil m_StarStep)
  qed
qed

lemma match_at_least_Cls:
  "re_match (at_least n (Cls rs)) (p, xs) st \<longleftrightarrow>
     (\<exists>ys zs. xs = ys @ zs \<and> n \<le> length ys \<and> list_all (in_class rs) ys \<and> st = (place_after p ys, zs))"
    (is "?L \<longleftrightarrow> ?R")
proof
  assume ?L
  then obtain st1 m where "re_match (rep n (Cls rs)) (p, xs) st1" and m: "re_match (rep m (Cls rs)) st1 st"
    unfolding at_least_def match_Seq_iff match_Star_rep by blast
  then obtain ys zs where 1: "xs = ys @ zs" "length ys = n" "list_all (in_class rs) ys"
    "re_match (rep m (Cls rs)) (place_after p ys, zs) st"
    unfolding match_rep_Cls [of n] by blast
  from 1(4) obtain us vs where "zs = us @ vs" "list_all (in_class rs) us" "st = (place_after p (ys @ us), vs)"
    unfolding match_rep_Cls by auto
  with 1 show ?R by (intro exI [of _ "ys @ us"] exI [of _ vs]) auto
next
  assume ?R
  then obtain ys zs where 1: "xs = ys @ zs" "n \<le> length ys" "list_all (in_class rs) ys" "st = (place_after p ys, zs)"
    by blast
  have "re_match (rep n (Cls rs)) (p, xs) (place_after p (take n ys), drop n ys @ zs)"
    unfolding match_rep_Cls using 1
    by (intro exI [of _ "take n ys"] exI [of _ "drop n ys @ zs"]) (auto simp: list_all_iff dest: in_set_takeD)
  moreover have "re_match (Star (Cls rs)) (place_after p (take n ys), drop n ys @ zs) st"
    unfolding match_Star_rep match_rep_Cls using 1
    by (intro exI [of _ "length ys - n"] exI [of _ "drop n ys"] exI [of _ zs])
      (auto simp: list_all_iff dest: in_set_dropD simp flip: place_after_append)
  ultimately show ?L unfolding at_least_def match_Seq_iff by blast
qed

text \<open>A boundary before and after a run of word characters.\<close>

lemma boundary_before_word:
  "is_word c \<Longrightarrow> boundary (place_after None pre, c # cs) \<longleftrightarrow> pre = [] \<or> \<not> is_word (last pre)"
  by (auto simp: boundary_def word_before_def word_after_def place_after_def)

lemma boundary_after_word:
  "is_word (last ys) \<Longrightarrow> ys \<noteq> [] \<Longrightarrow> boundary (place_after p ys, zs) \<longleftrightarrow> zs = [] \<or> \<not> is_word (hd zs)"
  by (cases zs) (auto simp: boundary_def word_before_def word_after_def place_after_def)

lemma is_word_digit: "in_class c_digit c \<Longrightarrow> is_word c"
  by (simp add: in_class_def c_digit_def is_word_def)

end
