(* ===== verification/Go_Json.thy ===== *)
theory Go_Json
  imports Go_Regexp
begin

text \<open>
  The syntax half of Go's \<open>encoding/json\<close>: string literals with their escapes and the treatment
  of invalid UTF-8, the scanner's grammar with its limit on nesting, and compact output. A
  document is parsed into \<open>json\<close>, in which string and number literals keep their text: the
  package decides only at the target field how to read a literal (a time, for one, is read
  from the text of the literal without undoing escapes).
\<close>

section \<open>UTF-8 output\<close>

text \<open>\<open>utf8.AppendRune\<close>, on byte values.\<close>

definition encode_rune :: "rune \<Rightarrow> int list" where
  "encode_rune r =
     (if 0 \<le> r \<and> r < 128 then [r]
      else if 0 \<le> r \<and> r < 2048 then [192 + r div 64, 128 + r mod 64]
      else if r < 0 \<or> 1114111 < r \<or> 55296 \<le> r \<and> r \<le> 57343 then [239, 191, 189]
      else if r < 65536 then [224 + r div 4096, 128 + r div 64 mod 64, 128 + r mod 64]
      else [240 + r div 262144, 128 + r div 4096 mod 64, 128 + r div 64 mod 64, 128 + r mod 64])"

definition append_rune :: "rune \<Rightarrow> string" where
  "append_rune r = map char_of (encode_rune r)"

text \<open>The rune at the head of a string, and the number of further bytes it takes.\<close>

definition rune_at :: "char \<Rightarrow> string \<Rightarrow> rune \<times> nat" where
  "rune_at c cs = decode_rune (byte_val c) (map byte_val (take 3 cs))"

definition bad_rune :: "rune \<times> nat \<Rightarrow> bool" where
  "bad_rune rn \<longleftrightarrow> rn = (RuneError, 0)"

fun valid_utf8 :: "string \<Rightarrow> bool" where
  "valid_utf8 [] = True"
| "valid_utf8 (c # cs) = (\<not> bad_rune (rune_at c cs) \<and> valid_utf8 (drop (snd (rune_at c cs)) cs))"

section \<open>String literals\<close>

abbreviation dquote :: char where "dquote \<equiv> CHR 0x22"
abbreviation backslash :: char where "backslash \<equiv> CHR 0x5C"

text \<open>The escape of an ASCII byte; \<open><\<close>, \<open>>\<close> and \<open>&\<close> are escaped because \<open>Marshal\<close> escapes for HTML.\<close>

definition escape_ascii :: "char \<Rightarrow> string" where
  "escape_ascii c =
     (if c = dquote \<or> c = backslash then [backslash, c]
      else if c = CHR 0x08 then [backslash, CHR ''b'']
      else if c = CHR 0x0C then [backslash, CHR ''f'']
      else if c = CHR 0x0A then [backslash, CHR ''n'']
      else if c = CHR 0x0D then [backslash, CHR ''r'']
      else if c = CHR 0x09 then [backslash, CHR ''t'']
      else if byte_val c < 32 \<or> c = CHR ''<'' \<or> c = CHR ''>'' \<or> c = CHR ''&''
      then [backslash, CHR ''u'', CHR ''0'', CHR ''0''] @ EncodeToString [c]
      else [c])"

fun json_quote :: "string \<Rightarrow> string" where
  "json_quote [] = []"
| "json_quote (c # cs) =
     (if byte_val c < 128 then escape_ascii c @ json_quote cs
      else
        let rn = rune_at c cs
        in if bad_rune rn then [backslash, CHR ''u''] @ ''fffd'' @ json_quote cs
           else if fst rn = 8232 then [backslash, CHR ''u''] @ ''2028'' @ json_quote (drop (snd rn) cs)
           else if fst rn = 8233 then [backslash, CHR ''u''] @ ''2029'' @ json_quote (drop (snd rn) cs)
           else c # take (snd rn) cs @ json_quote (drop (snd rn) cs))"

text \<open>The value of four hexadecimal digits.\<close>

definition hex_value :: "char \<Rightarrow> int option" where
  "hex_value c =
     (let b = byte_val c
      in if 48 \<le> b \<and> b \<le> 57 then Some (b - 48)
         else if 97 \<le> b \<and> b \<le> 102 then Some (b - 87)
         else if 65 \<le> b \<and> b \<le> 70 then Some (b - 55)
         else None)"

fun getu4 :: "string \<Rightarrow> rune option" where
  "getu4 (h1 # h2 # h3 # h4 # rest) =
     (case (hex_value h1, hex_value h2, hex_value h3, hex_value h4) of
        (Some a, Some b, Some c, Some d) \<Rightarrow> Some (((a * 16 + b) * 16 + c) * 16 + d)
      | _ \<Rightarrow> None)"
| "getu4 _ = None"

definition is_surrogate :: "rune \<Rightarrow> bool" where
  "is_surrogate r \<longleftrightarrow> 55296 \<le> r \<and> r < 57344"

text \<open>\<open>utf16.DecodeRune\<close>: a high surrogate followed by a low one.\<close>

definition utf16_pair :: "rune \<Rightarrow> rune \<Rightarrow> rune option" where
  "utf16_pair r1 r2 =
     (if 55296 \<le> r1 \<and> r1 < 56320 \<and> 56320 \<le> r2 \<and> r2 < 57344
      then Some ((r1 - 55296) * 1024 + (r2 - 56320) + 65536) else None)"

definition simple_escape :: "char \<Rightarrow> char option" where
  "simple_escape e =
     (if e = dquote \<or> e = backslash \<or> e = CHR ''/'' then Some e
      else if e = CHR ''b'' then Some (CHR 0x08)
      else if e = CHR ''f'' then Some (CHR 0x0C)
      else if e = CHR ''n'' then Some (CHR 0x0A)
      else if e = CHR ''r'' then Some (CHR 0x0D)
      else if e = CHR ''t'' then Some (CHR 0x09)
      else None)"

text \<open>The low surrogate that follows a high one, with the text after it.\<close>

definition low_surrogate :: "rune \<Rightarrow> string \<Rightarrow> (rune \<times> string) option" where
  "low_surrogate r1 rest =
     (case rest of
        c # u # rest' \<Rightarrow>
          if c = backslash \<and> u = CHR ''u''
          then (case getu4 rest' of
                  None \<Rightarrow> None
                | Some r2 \<Rightarrow> map_option (\<lambda>r. (r, drop 4 rest')) (utf16_pair r1 r2))
          else None
      | _ \<Rightarrow> None)"

lemma low_surrogate_length: "low_surrogate r1 rest = Some (r, rest') \<Longrightarrow> length rest' < length rest"
  by (auto simp: low_surrogate_def split: list.splits if_splits option.splits)

function json_unquote :: "string \<Rightarrow> string option" where
  "json_unquote s =
     (case s of
        [] \<Rightarrow> Some []
      | c # cs \<Rightarrow>
          if c = backslash
          then
            (case cs of
               [] \<Rightarrow> None
             | e # rest \<Rightarrow>
                 if e = CHR ''u''
                 then
                   (case getu4 rest of
                      None \<Rightarrow> None
                    | Some r \<Rightarrow>
                        if is_surrogate r
                        then (case low_surrogate r (drop 4 rest) of
                                Some (r', rest') \<Rightarrow> map_option ((@) (append_rune r')) (json_unquote rest')
                              | None \<Rightarrow> map_option ((@) (append_rune RuneError)) (json_unquote (drop 4 rest)))
                        else map_option ((@) (append_rune r)) (json_unquote (drop 4 rest)))
                 else
                   (case simple_escape e of
                      None \<Rightarrow> None
                    | Some x \<Rightarrow> map_option ((#) x) (json_unquote rest)))
          else if c = dquote \<or> byte_val c < 32 then None
          else if byte_val c < 128 then map_option ((#) c) (json_unquote cs)
          else map_option ((@) (append_rune (fst (rune_at c cs)))) (json_unquote (drop (snd (rune_at c cs)) cs)))"
  by pat_completeness auto
termination
  by (relation "measure length") (auto dest!: low_surrogate_length)

declare json_unquote.simps [simp del]

section \<open>Tokens\<close>

datatype tok = TLBrace | TRBrace | TLBrack | TRBrack | TColon | TComma | TStr string | TNum string | TTrue | TFalse | TNull

text \<open>A string literal up to its closing quote: its text and the rest of the input.\<close>

fun scan_string :: "string \<Rightarrow> (string \<times> string) option" where
  "scan_string [] = None"
| "scan_string (c # cs) =
     (if c = dquote then Some ([], cs)
      else if byte_val c < 32 then None
      else if c = backslash
      then
        (case cs of
           [] \<Rightarrow> None
         | e # rest \<Rightarrow>
             if simple_escape e \<noteq> None then map_option (\<lambda>(t, r). (c # e # t, r)) (scan_string rest)
             else if e = CHR ''u''
             then
               (case rest of
                  h1 # h2 # h3 # h4 # rest' \<Rightarrow>
                    if getu4 [h1, h2, h3, h4] \<noteq> None
                    then map_option (\<lambda>(t, r). (c # e # h1 # h2 # h3 # h4 # t, r)) (scan_string rest')
                    else None
                | _ \<Rightarrow> None)
             else None)
      else map_option (\<lambda>(t, r). (c # t, r)) (scan_string cs))"

text \<open>The parts of a number literal.\<close>

definition scan_int :: "string \<Rightarrow> (string \<times> string) option" where
  "scan_int s =
     (case s of
        [] \<Rightarrow> None
      | c # cs \<Rightarrow>
          if c = CHR ''0'' then Some ([c], cs)
          else if is_digit c then Some (takeWhile is_digit s, dropWhile is_digit s)
          else None)"

definition scan_digits :: "string \<Rightarrow> (string \<times> string) option" where
  "scan_digits s = (if takeWhile is_digit s = [] then None else Some (takeWhile is_digit s, dropWhile is_digit s))"

definition scan_frac :: "string \<Rightarrow> (string \<times> string) option" where
  "scan_frac s =
     (case s of
        c # cs \<Rightarrow> if c = CHR ''.'' then map_option (\<lambda>(t, r). (c # t, r)) (scan_digits cs) else Some ([], s)
      | [] \<Rightarrow> Some ([], s))"

definition scan_exp :: "string \<Rightarrow> (string \<times> string) option" where
  "scan_exp s =
     (case s of
        c # cs \<Rightarrow>
          if c = CHR ''e'' \<or> c = CHR ''E''
          then
            (case cs of
               d # ds \<Rightarrow>
                 if d = CHR ''+'' \<or> d = CHR ''-'' then map_option (\<lambda>(t, r). (c # d # t, r)) (scan_digits ds)
                 else map_option (\<lambda>(t, r). (c # t, r)) (scan_digits cs)
             | [] \<Rightarrow> None)
          else Some ([], s)
      | [] \<Rightarrow> Some ([], s))"

definition scan_number :: "string \<Rightarrow> (string \<times> string) option" where
  "scan_number s =
     (let (sign, s) = (case s of c # cs \<Rightarrow> if c = CHR ''-'' then ([c], cs) else ([], s) | [] \<Rightarrow> ([], s))
      in case scan_int s of
           None \<Rightarrow> None
         | Some (i, s) \<Rightarrow>
             (case scan_frac s of
                None \<Rightarrow> None
              | Some (f, s) \<Rightarrow>
                  (case scan_exp s of
                     None \<Rightarrow> None
                   | Some (e, s) \<Rightarrow> Some (sign @ i @ f @ e, s))))"

definition json_space :: "char \<Rightarrow> bool" where
  "json_space c \<longleftrightarrow> c = CHR 0x20 \<or> c = CHR 0x09 \<or> c = CHR 0x0A \<or> c = CHR 0x0D"

lemma scan_string_length: "scan_string s = Some (t, r) \<Longrightarrow> length r < length s"
proof (induction s arbitrary: t rule: length_induct)
  case (1 s)
  obtain c cs where s: "s = c # cs" using "1.prems" by (cases s) auto
  have IH: "length r < length s'" if "scan_string s' = Some (t', r)" "length s' < length s" for s' t'
    using "1.IH" that by blast
  consider "c = dquote" | "c = backslash" | "c \<noteq> dquote" "c \<noteq> backslash" by blast
  then show ?case
  proof cases
    case 1
    with "1.prems" s show ?thesis by simp
  next
    case 2
    with "1.prems" s obtain e rest where cs: "cs = e # rest" by (cases cs) (auto split: if_splits)
    show ?thesis
    proof (cases "simple_escape e = None")
      case False
      with "1.prems" s cs 2 obtain t' where "scan_string rest = Some (t', r)" by auto
      from IH [OF this] s cs show ?thesis by simp
    next
      case True
      with "1.prems" s cs 2 obtain h1 h2 h3 h4 rest' where rest: "rest = h1 # h2 # h3 # h4 # rest'"
        by (auto split: if_splits list.splits)
      with True "1.prems" s cs 2 obtain t' where "scan_string rest' = Some (t', r)" by (auto split: if_splits)
      from IH [OF this] s cs rest show ?thesis by simp
    qed
  next
    case 3
    with "1.prems" s obtain t' where "scan_string cs = Some (t', r)" by (auto split: if_splits)
    from IH [OF this] s show ?thesis by simp
  qed
qed

lemma scan_digits_length: "scan_digits s = Some (t, r) \<Longrightarrow> length r < length s"
  by (auto simp: scan_digits_def split: if_splits)
    (metis length_append length_greater_0_conv less_add_same_cancel2 takeWhile_dropWhile_id)

lemma scan_number_length: "scan_number s = Some (t, r) \<Longrightarrow> length r < length s"
proof -
  have i: "length s2 < length s1" if "scan_int s1 = Some (t1, s2)" for s1 t1 s2
    using that by (auto simp: scan_int_def length_dropWhile_le le_imp_less_Suc split: list.splits if_splits)
  have f: "length s2 \<le> length s1" if "scan_frac s1 = Some (t1, s2)" for s1 t1 s2
    using that by (auto simp: scan_frac_def dest: scan_digits_length split: list.splits if_splits)
  have e: "length s2 \<le> length s1" if "scan_exp s1 = Some (t1, s2)" for s1 t1 s2
    using that by (auto simp: scan_exp_def dest: scan_digits_length split: list.splits if_splits)
  assume "scan_number s = Some (t, r)"
  then obtain sign s0 i1 s1 f1 s2 e1 where parts: "(sign, s0) = (case s of c # cs \<Rightarrow> if c = CHR ''-'' then ([c], cs) else ([], s) | [] \<Rightarrow> ([], s))"
    "scan_int s0 = Some (i1, s1)" "scan_frac s1 = Some (f1, s2)" "scan_exp s2 = Some (e1, r)"
    by (auto simp: scan_number_def Let_def split: prod.splits option.splits)
  have "length s0 \<le> length s" using parts(1) by (auto split: list.splits if_splits)
  with i [OF parts(2)] f [OF parts(3)] e [OF parts(4)] show ?thesis by simp
qed

function json_lex :: "string \<Rightarrow> tok list option" where
  "json_lex s =
     (case s of
        [] \<Rightarrow> Some []
      | c # cs \<Rightarrow>
          if json_space c then json_lex cs
          else if c = CHR ''{'' then map_option ((#) TLBrace) (json_lex cs)
          else if c = CHR ''}'' then map_option ((#) TRBrace) (json_lex cs)
          else if c = CHR ''['' then map_option ((#) TLBrack) (json_lex cs)
          else if c = CHR '']'' then map_option ((#) TRBrack) (json_lex cs)
          else if c = CHR '':'' then map_option ((#) TColon) (json_lex cs)
          else if c = CHR '','' then map_option ((#) TComma) (json_lex cs)
          else if c = dquote
          then (case scan_string cs of None \<Rightarrow> None | Some (t, r) \<Rightarrow> map_option ((#) (TStr t)) (json_lex r))
          else if c = CHR ''t'' then (if take 3 cs = ''rue'' then map_option ((#) TTrue) (json_lex (drop 3 cs)) else None)
          else if c = CHR ''f'' then (if take 4 cs = ''alse'' then map_option ((#) TFalse) (json_lex (drop 4 cs)) else None)
          else if c = CHR ''n'' then (if take 3 cs = ''ull'' then map_option ((#) TNull) (json_lex (drop 3 cs)) else None)
          else (case scan_number s of None \<Rightarrow> None | Some (t, r) \<Rightarrow> map_option ((#) (TNum t)) (json_lex r)))"
  by pat_completeness auto
termination
  by (relation "measure length") (auto dest!: scan_string_length scan_number_length)

declare json_lex.simps [simp del]

section \<open>Values\<close>

datatype json =
    JNull
  | JBool bool
  | JNum string
  | JStr string
  | JArr "json list"
  | JObj "(string \<times> json) list"

text \<open>
  The parser is a machine on the stack of open arrays and objects, as the scanner is in the
  package. An opening bracket is refused at the nesting limit.
\<close>

definition maxNestingDepth :: nat where "maxNestingDepth = 10000"

datatype jframe = ArrF "json list" | ObjF "(string \<times> json) list" string

datatype pstate =
    NeedValue "jframe list"
  | ArrStart "jframe list"
  | ObjStart "jframe list"
  | ObjKey "(string \<times> json) list" "jframe list"
  | Colon "(string \<times> json) list" string "jframe list"
  | Parsed json "jframe list"

definition value_start :: "jframe list \<Rightarrow> tok \<Rightarrow> pstate option" where
  "value_start st t =
     (case t of
        TLBrace \<Rightarrow> if length st < maxNestingDepth then Some (ObjStart st) else None
      | TLBrack \<Rightarrow> if length st < maxNestingDepth then Some (ArrStart st) else None
      | TStr r \<Rightarrow> Some (Parsed (JStr r) st)
      | TNum r \<Rightarrow> Some (Parsed (JNum r) st)
      | TTrue \<Rightarrow> Some (Parsed (JBool True) st)
      | TFalse \<Rightarrow> Some (Parsed (JBool False) st)
      | TNull \<Rightarrow> Some (Parsed JNull st)
      | _ \<Rightarrow> None)"

fun pstep :: "pstate \<Rightarrow> tok \<Rightarrow> pstate option" where
  "pstep (NeedValue st) t = value_start st t"
| "pstep (ArrStart st) t = (if t = TRBrack then Some (Parsed (JArr []) st) else value_start (ArrF [] # st) t)"
| "pstep (ObjStart st) t =
     (case t of TRBrace \<Rightarrow> Some (Parsed (JObj []) st) | TStr k \<Rightarrow> Some (Colon [] k st) | _ \<Rightarrow> None)"
| "pstep (ObjKey ms st) t = (case t of TStr k \<Rightarrow> Some (Colon ms k st) | _ \<Rightarrow> None)"
| "pstep (Colon ms k st) t = (if t = TColon then Some (NeedValue (ObjF ms k # st)) else None)"
| "pstep (Parsed j (ArrF es # st)) t =
     (case t of
        TComma \<Rightarrow> Some (NeedValue (ArrF (j # es) # st))
      | TRBrack \<Rightarrow> Some (Parsed (JArr (rev (j # es))) st)
      | _ \<Rightarrow> None)"
| "pstep (Parsed j (ObjF ms k # st)) t =
     (case t of
        TComma \<Rightarrow> Some (ObjKey ((k, j) # ms) st)
      | TRBrace \<Rightarrow> Some (Parsed (JObj (rev ((k, j) # ms))) st)
      | _ \<Rightarrow> None)"
| "pstep (Parsed j []) t = None"

fun prun :: "pstate \<Rightarrow> tok list \<Rightarrow> pstate option" where
  "prun s [] = Some s"
| "prun s (t # ts) = (case pstep s t of None \<Rightarrow> None | Some s' \<Rightarrow> prun s' ts)"

definition json_parse :: "string \<Rightarrow> json option" where
  "json_parse s =
     (case json_lex s of
        None \<Rightarrow> None
      | Some ts \<Rightarrow> (case prun (NeedValue []) ts of Some (Parsed j []) \<Rightarrow> Some j | _ \<Rightarrow> None))"

text \<open>Compact output.\<close>

fun json_print :: "json \<Rightarrow> string" and print_elems :: "json list \<Rightarrow> string" and print_members :: "(string \<times> json) list \<Rightarrow> string" where
  "json_print JNull = ''null''"
| "json_print (JBool b) = (if b then ''true'' else ''false'')"
| "json_print (JNum t) = t"
| "json_print (JStr t) = [dquote] @ t @ [dquote]"
| "json_print (JArr js) = ''['' @ print_elems js @ '']''"
| "json_print (JObj ms) = ''{'' @ print_members ms @ ''}''"
| "print_elems [] = []"
| "print_elems [j] = json_print j"
| "print_elems (j # j' # js) = json_print j @ '','' @ print_elems (j' # js)"
| "print_members [] = []"
| "print_members [(k, j)] = [dquote] @ k @ [dquote] @ '':'' @ json_print j"
| "print_members ((k, j) # m # ms) = [dquote] @ k @ [dquote] @ '':'' @ json_print j @ '','' @ print_members (m # ms)"

section \<open>Printing and parsing\<close>

fun toks :: "json \<Rightarrow> tok list" and toks_elems :: "json list \<Rightarrow> tok list" and toks_members :: "(string \<times> json) list \<Rightarrow> tok list" where
  "toks JNull = [TNull]"
| "toks (JBool b) = [if b then TTrue else TFalse]"
| "toks (JNum t) = [TNum t]"
| "toks (JStr t) = [TStr t]"
| "toks (JArr js) = TLBrack # toks_elems js @ [TRBrack]"
| "toks (JObj ms) = TLBrace # toks_members ms @ [TRBrace]"
| "toks_elems [] = []"
| "toks_elems [j] = toks j"
| "toks_elems (j # j' # js) = toks j @ TComma # toks_elems (j' # js)"
| "toks_members [] = []"
| "toks_members [(k, j)] = TStr k # TColon # toks j"
| "toks_members ((k, j) # m # ms) = TStr k # TColon # toks j @ TComma # toks_members (m # ms)"

text \<open>Literals that the scanner takes as a whole, and values made of such literals without control characters.\<close>

definition str_ok :: "string \<Rightarrow> bool" where
  "str_ok t \<longleftrightarrow> (\<forall>rest. scan_string (t @ dquote # rest) = Some (t, rest))"

definition ends_number :: "string \<Rightarrow> bool" where
  "ends_number rest \<longleftrightarrow> rest = [] \<or> hd rest \<in> {CHR '','', CHR '']'', CHR ''}''}"

definition num_ok :: "string \<Rightarrow> bool" where
  "num_ok t \<longleftrightarrow> t \<noteq> [] \<and> (hd t = CHR ''-'' \<or> is_digit (hd t)) \<and>
     (\<forall>rest. ends_number rest \<longrightarrow> scan_number (t @ rest) = Some (t, rest))"

text \<open>Bytes that are not control characters.\<close>

definition printable :: "char \<Rightarrow> bool" where
  "printable c \<longleftrightarrow> 32 \<le> byte_val c"

fun json_wf :: "json \<Rightarrow> bool" and wf_elems :: "json list \<Rightarrow> bool" and wf_members :: "(string \<times> json) list \<Rightarrow> bool" where
  "json_wf JNull = True"
| "json_wf (JBool b) = True"
| "json_wf (JNum t) = (num_ok t \<and> list_all printable t)"
| "json_wf (JStr t) = (str_ok t \<and> list_all printable t)"
| "json_wf (JArr js) = wf_elems js"
| "json_wf (JObj ms) = wf_members ms"
| "wf_elems [] = True"
| "wf_elems (j # js) = (json_wf j \<and> wf_elems js)"
| "wf_members [] = True"
| "wf_members ((k, j) # ms) = (str_ok k \<and> list_all printable k \<and> json_wf j \<and> wf_members ms)"

fun json_depth :: "json \<Rightarrow> nat" and depth_elems :: "json list \<Rightarrow> nat" and depth_members :: "(string \<times> json) list \<Rightarrow> nat" where
  "json_depth (JArr js) = Suc (depth_elems js)"
| "json_depth (JObj ms) = Suc (depth_members ms)"
| "json_depth _ = 0"
| "depth_elems [] = 0"
| "depth_elems (j # js) = max (json_depth j) (depth_elems js)"
| "depth_members [] = 0"
| "depth_members ((k, j) # ms) = max (json_depth j) (depth_members ms)"

lemma lex_punct:
  "json_lex (CHR ''{'' # cs) = map_option ((#) TLBrace) (json_lex cs)"
  "json_lex (CHR ''}'' # cs) = map_option ((#) TRBrace) (json_lex cs)"
  "json_lex (CHR ''['' # cs) = map_option ((#) TLBrack) (json_lex cs)"
  "json_lex (CHR '']'' # cs) = map_option ((#) TRBrack) (json_lex cs)"
  "json_lex (CHR '':'' # cs) = map_option ((#) TColon) (json_lex cs)"
  "json_lex (CHR '','' # cs) = map_option ((#) TComma) (json_lex cs)"
  "json_lex [] = Some []"
  by (simp_all add: json_lex.simps json_space_def)

lemma lex_word:
  "json_lex (''null'' @ cs) = map_option ((#) TNull) (json_lex cs)"
  "json_lex (''true'' @ cs) = map_option ((#) TTrue) (json_lex cs)"
  "json_lex (''false'' @ cs) = map_option ((#) TFalse) (json_lex cs)"
  by (simp_all add: json_lex.simps json_space_def)

lemma lex_str: "str_ok t \<Longrightarrow> json_lex (dquote # t @ dquote # cs) = map_option ((#) (TStr t)) (json_lex cs)"
  by (subst json_lex.simps) (simp add: json_space_def str_ok_def)

lemma lex_num:
  assumes "num_ok t" and "ends_number cs"
  shows "json_lex (t @ cs) = map_option ((#) (TNum t)) (json_lex cs)"
proof -
  obtain c t' where t: "t = c # t'" and c: "c = CHR ''-'' \<or> is_digit c"
    using assms(1) by (cases t) (auto simp: num_ok_def)
  have neq: "\<not> json_space c" "c \<noteq> CHR ''{''" "c \<noteq> CHR ''}''" "c \<noteq> CHR ''[''" "c \<noteq> CHR '']''" "c \<noteq> CHR '':''"
    "c \<noteq> CHR '',''" "c \<noteq> dquote" "c \<noteq> CHR ''t''" "c \<noteq> CHR ''f''" "c \<noteq> CHR ''n''"
    using c by (auto simp: json_space_def is_digit_def)
  have "scan_number (c # t' @ cs) = Some (t, cs)" using assms by (simp add: num_ok_def t)
  with neq show ?thesis unfolding t by (subst json_lex.simps) (simp add: t)
qed

lemma lex_print:
  shows "json_wf j \<Longrightarrow> ends_number rest \<Longrightarrow> json_lex (json_print j @ rest) = map_option ((@) (toks j)) (json_lex rest)"
    and "wf_elems js \<Longrightarrow> ends_number rest \<Longrightarrow> json_lex (print_elems js @ rest) = map_option ((@) (toks_elems js)) (json_lex rest)"
    and "wf_members ms \<Longrightarrow> ends_number rest \<Longrightarrow> json_lex (print_members ms @ rest) = map_option ((@) (toks_members ms)) (json_lex rest)"
proof (induction j and js and ms arbitrary: rest and rest and rest rule: json_print_print_elems_print_members.induct)
  case 1
  show ?case using lex_word(1) [of rest] by (simp add: option.map_comp comp_def)
next
  case (2 b)
  show ?case using lex_word(2,3) [of rest] by (cases b) (simp_all add: option.map_comp comp_def)
next
  case (3 t)
  then show ?case by (simp add: lex_num)
next
  case (4 t)
  then show ?case by (simp add: lex_str)
next
  case (5 js)
  have "ends_number (CHR '']'' # rest)" by (simp add: ends_number_def)
  with 5 show ?case by (simp add: lex_punct option.map_comp comp_def)
next
  case (6 ms)
  have "ends_number (CHR ''}'' # rest)" by (simp add: ends_number_def)
  with 6 show ?case by (simp add: lex_punct option.map_comp comp_def)
next
  case 7
  show ?case by (simp add: option.map_ident)
next
  case (8 j)
  then show ?case by simp
next
  case (9 j j' js)
  have "ends_number (CHR '','' # print_elems (j' # js) @ rest)" by (simp add: ends_number_def)
  with 9 show ?case by (simp add: lex_punct option.map_comp comp_def)
next
  case 10
  show ?case by (simp add: option.map_ident)
next
  case (11 k j)
  then show ?case by (simp add: lex_punct lex_str option.map_comp comp_def)
next
  case (12 k j m ms)
  obtain k' j' where m: "m = (k', j')" by (cases m)
  have "ends_number (CHR '','' # print_members (m # ms) @ rest)" by (simp add: ends_number_def)
  with 12 show ?case
    by (simp add: lex_punct lex_str option.map_comp comp_def m)
qed

text \<open>The machine on the tokens of a value.\<close>

lemma toks_Cons: "\<exists>t ts. toks j = t # ts \<and> t \<noteq> TRBrack"
  by (cases j) auto

lemma prun_ArrStart: "prun (ArrStart st) (toks j @ ts) = prun (NeedValue (ArrF [] # st)) (toks j @ ts)"
proof -
  obtain t ts' where "toks j = t # ts'" "t \<noteq> TRBrack" using toks_Cons by blast
  then show ?thesis by simp
qed

lemma prun_toks:
  shows "json_depth j + length st \<le> maxNestingDepth \<Longrightarrow> prun (NeedValue st) (toks j @ ts) = prun (Parsed j st) ts"
    and "Suc (depth_elems js) + length st \<le> maxNestingDepth \<Longrightarrow> js \<noteq> [] \<Longrightarrow>
      prun (NeedValue (ArrF es # st)) (toks_elems js @ TRBrack # ts) = prun (Parsed (JArr (rev es @ js)) st) ts"
    and "Suc (depth_members ms) + length st \<le> maxNestingDepth \<Longrightarrow> ms \<noteq> [] \<Longrightarrow>
      prun (ObjKey ms0 st) (toks_members ms @ TRBrace # ts) = prun (Parsed (JObj (rev ms0 @ ms)) st) ts"
proof (induction j and js and ms arbitrary: st ts and st ts es and st ts ms0 rule: toks_toks_elems_toks_members.induct)
  case (2 b)
  show ?case by (simp add: value_start_def)
next
  case (5 js)
  show ?case
  proof (cases js)
    case Nil
    with 5 show ?thesis by (simp add: value_start_def)
  next
    case (Cons j js')
    have "prun (NeedValue st) (toks (JArr js) @ ts) = prun (ArrStart st) (toks_elems js @ TRBrack # ts)"
      using 5 by (simp add: value_start_def)
    also have "\<dots> = prun (NeedValue (ArrF [] # st)) (toks_elems js @ TRBrack # ts)"
      using prun_ArrStart [of st j] Cons by (cases js') simp_all
    also have "\<dots> = prun (Parsed (JArr js) st) ts" using 5 Cons by simp
    finally show ?thesis .
  qed
next
  case (6 ms)
  show ?case
  proof (cases ms)
    case Nil
    with 6 show ?thesis by (simp add: value_start_def)
  next
    case (Cons m ms')
    obtain k j where m: "m = (k, j)" by (cases m)
    have "prun (NeedValue st) (toks (JObj ms) @ ts) = prun (ObjStart st) (toks_members ms @ TRBrace # ts)"
      using 6 by (simp add: value_start_def)
    also have "\<dots> = prun (ObjKey [] st) (toks_members ms @ TRBrace # ts)"
      using Cons m by (cases ms') simp_all
    also have "\<dots> = prun (Parsed (JObj ms) st) ts" using 6 Cons by simp
    finally show ?thesis .
  qed
qed (simp_all add: value_start_def)

lemma json_parse_print:
  assumes "json_wf j" and "json_depth j \<le> maxNestingDepth"
  shows "json_parse (json_print j) = Some j"
proof -
  have "json_lex (json_print j) = Some (toks j)"
    using lex_print(1) [OF assms(1), of "[]"] by (simp add: ends_number_def lex_punct)
  moreover have "prun (NeedValue []) (toks j) = Some (Parsed j [])"
    using prun_toks(1) [of j "[]" "[]"] assms(2) by simp
  ultimately show ?thesis by (simp add: json_parse_def)
qed

text \<open>Such a value is printed without control characters, on one line in particular.\<close>

lemma printable_ascii:
  "printable dquote" "list_all printable ''{}[]:,null''" "list_all printable ''truefalse''"
  by (simp_all add: printable_def)

lemma print_printable:
  shows "json_wf j \<Longrightarrow> list_all printable (json_print j)"
    and "wf_elems js \<Longrightarrow> list_all printable (print_elems js)"
    and "wf_members ms \<Longrightarrow> list_all printable (print_members ms)"
proof (induction j and js and ms rule: json_print_print_elems_print_members.induct)
  case (12 k j m ms)
  then show ?case using printable_ascii by (cases m) simp
qed (use printable_ascii in simp_all)

section \<open>Bytes and runes\<close>

lemma byte_val_of_char: "byte_val c = of_char c"
proof -
  have "bit_val b = of_bool b" for b by (cases b) simp_all
  then show ?thesis by (cases c) (simp add: of_char_def)
qed

lemma byte_val_bounds: "0 \<le> byte_val c" "byte_val c < 256"
  unfolding byte_val_of_char
  by (metis of_char_mod_256 pos_mod_sign zero_less_numeral) (metis of_char_mod_256 pos_mod_bound zero_less_numeral)

lemma char_of_byte_val [simp]: "char_of (byte_val c) = c"
  by (simp add: byte_val_of_char)

lemma map_char_of_byte_val [simp]: "map char_of (map byte_val s) = s"
  by (induction s) simp_all

lemma digit64: "0 \<le> z \<Longrightarrow> z \<le> 63 \<Longrightarrow> (q * 64 + z) div 64 = (q :: int)" "0 \<le> z \<Longrightarrow> z \<le> 63 \<Longrightarrow> (q * 64 + z) mod 64 = (z :: int)"
  by auto

lemma decode_rune_encode:
  assumes "decode_rune b0 bs = (r, n)" and "(r, n) \<noteq> (RuneError, 0)" and "0 \<le> b0" "\<forall>b\<in>set bs. 0 \<le> b"
  shows "n \<le> length bs \<and> encode_rune r = b0 # take n bs"
proof -
  consider "b0 < 128" | "194 \<le> b0" "b0 \<le> 223" | "224 \<le> b0" "b0 \<le> 239" | "240 \<le> b0" "b0 \<le> 244"
    using assms(1,2) by (fastforce simp: decode_rune_def split: if_splits)
  then show ?thesis
  proof cases
    case 1
    with assms show ?thesis by (simp add: decode_rune_def encode_rune_def)
  next
    case 2
    with assms(1,2) obtain b1 bs' where bs: "bs = b1 # bs'" "cont b1" "r = (b0 - 192) * 64 + (b1 - 128)" "n = 1"
      by (auto simp: decode_rune_def split: list.splits if_splits)
    obtain x y where xy: "x = b0 - 192" "y = b1 - 128" by simp
    have b: "2 \<le> x" "x \<le> 31" "0 \<le> y" "y \<le> 63" using 2 bs(2) xy by (auto simp: cont_def)
    have r: "r = x * 64 + y" using bs(3) xy by simp
    have "r div 64 = x" "r mod 64 = y" using b r by auto
    moreover have "128 \<le> r" "r < 2048" using b r by linarith+
    ultimately show ?thesis using bs xy by (simp add: encode_rune_def)
  next
    case 3
    with assms(1,2) obtain b1 b2 bs' where bs: "bs = b1 # b2 # bs'" "second_ok b0 b1" "cont b2"
      "r = (b0 - 224) * 4096 + (b1 - 128) * 64 + (b2 - 128)" "n = 2"
      by (auto simp: decode_rune_def split: list.splits if_splits)
    obtain x y z where xyz: "x = b0 - 224" "y = b1 - 128" "z = b2 - 128" by simp
    have b: "0 \<le> x" "x \<le> 15" "0 \<le> y" "y \<le> 63" "0 \<le> z" "z \<le> 63" "x = 0 \<longrightarrow> 32 \<le> y" "x = 13 \<longrightarrow> y \<le> 31"
      using 3 bs(2,3) xyz by (auto simp: cont_def second_ok_def split: if_splits)
    have r: "r = (x * 64 + y) * 64 + z" using bs(4) xyz by simp
    have q: "r div 64 = x * 64 + y" "r mod 64 = z" unfolding r using b by (simp_all only: digit64)
    have "r div 4096 = r div 64 div 64" by (simp flip: zdiv_zmult2_eq)
    then have d: "r div 4096 = x" "r div 64 mod 64 = y" unfolding q using b by (simp_all only: digit64)
    consider "x = 0" | "1 \<le> x" "x \<le> 12" | "x = 13" | "14 \<le> x" using b by linarith
    then have "2048 \<le> r \<and> r < 65536 \<and> \<not> (55296 \<le> r \<and> r \<le> 57343)"
      using b r by cases simp_all
    then have enc: "encode_rune r = [224 + r div 4096, 128 + r div 64 mod 64, 128 + r mod 64]"
      unfolding encode_rune_def by auto
    show ?thesis unfolding enc d q(2) using bs(1,5) xyz by simp
  next
    case 4
    with assms(1,2) obtain b1 b2 b3 bs' where bs: "bs = b1 # b2 # b3 # bs'" "second_ok b0 b1" "cont b2" "cont b3"
      "r = (b0 - 240) * 262144 + (b1 - 128) * 4096 + (b2 - 128) * 64 + (b3 - 128)" "n = 3"
      by (auto simp: decode_rune_def split: list.splits if_splits)
    obtain w x y z where wxyz: "w = b0 - 240" "x = b1 - 128" "y = b2 - 128" "z = b3 - 128" by simp
    have b: "0 \<le> w" "w \<le> 4" "0 \<le> x" "x \<le> 63" "0 \<le> y" "y \<le> 63" "0 \<le> z" "z \<le> 63" "w = 0 \<longrightarrow> 16 \<le> x" "w = 4 \<longrightarrow> x \<le> 15"
      using 4 bs(2-4) wxyz by (auto simp: cont_def second_ok_def split: if_splits)
    have r: "r = ((w * 64 + x) * 64 + y) * 64 + z" using bs(5) wxyz by simp
    have q: "r div 64 = (w * 64 + x) * 64 + y" "r mod 64 = z" unfolding r using b by (simp_all only: digit64)
    have h: "r div 4096 = r div 64 div 64" "r div 262144 = r div 64 div 64 div 64" by (simp_all flip: zdiv_zmult2_eq)
    have d: "r div 4096 = w * 64 + x" "r div 64 mod 64 = y" unfolding h q using b by (simp_all only: digit64)
    have e: "r div 4096 mod 64 = x" "r div 262144 = w" unfolding h q using b by (simp_all only: digit64)
    consider "w = 0" | "1 \<le> w" "w \<le> 3" | "w = 4" using b by linarith
    then have "65536 \<le> r \<and> r \<le> 1114111" using b r by cases simp_all
    then have enc: "encode_rune r = [240 + r div 262144, 128 + r div 4096 mod 64, 128 + r div 64 mod 64, 128 + r mod 64]"
      unfolding encode_rune_def by auto
    show ?thesis unfolding enc d(2) e q(2) using bs(1,6) wxyz by simp
  qed
qed

end
