(* ===== verification/Json_Literals.thy ===== *)
theory Json_Literals
  imports Go_Json
begin

text \<open>
  The literals of \<open>encoding/json\<close>. A quoted string reads back as itself when it is valid UTF-8,
  what is unquoted is always valid, whatever the string its literal is one token without
  control characters, and the decimal
  text of an integer is a number token.
\<close>

section \<open>Quoting and unquoting\<close>

lemma decode_rune_prefix:
  assumes "decode_rune b0 bs = (r, n)" and "(r, n) \<noteq> (RuneError, 0)"
  shows "n \<le> length bs" "n \<le> 3" "decode_rune b0 (take n bs @ ys) = (r, n)"
    "128 \<le> b0 \<Longrightarrow> b \<in> set (take n bs) \<Longrightarrow> 128 \<le> b"
  using assms by (auto simp: decode_rune_def second_ok_def cont_def split: if_splits list.splits)

lemma rune_at_ok:
  assumes "rune_at c cs = (r, n)" and "\<not> bad_rune (r, n)"
  shows "n \<le> length cs" "append_rune r = c # take n cs" "rune_at c (take n cs @ ys) = (r, n)"
    "128 \<le> byte_val c \<Longrightarrow> x \<in> set (take n cs) \<Longrightarrow> 128 \<le> byte_val x"
proof -
  have d: "decode_rune (byte_val c) (map byte_val (take 3 cs)) = (r, n)" and ok: "(r, n) \<noteq> (RuneError, 0)"
    using assms by (simp_all add: rune_at_def bad_rune_def)
  note p = decode_rune_prefix [OF d ok]
  have t: "take n (take 3 cs) = take n cs" using p(2) by (simp add: min_def)
  show n: "n \<le> length cs" using p(1) by simp
  have "encode_rune r = byte_val c # take n (map byte_val (take 3 cs))"
    using decode_rune_encode [OF d ok] byte_val_bounds(1) by auto
  then show "append_rune r = c # take n cs" by (simp add: append_rune_def take_map t comp_def del: take_take)
  have "take 3 (take n cs @ ys) = take n cs @ take (3 - n) ys" using n p(2) by simp
  then have "map byte_val (take 3 (take n cs @ ys)) = take n (map byte_val (take 3 cs)) @ map byte_val (take (3 - n) ys)"
    by (simp add: take_map t del: take_take)
  then show "rune_at c (take n cs @ ys) = (r, n)"
    using p(3) [of "map byte_val (take (3 - n) ys)"] by (simp add: rune_at_def)
  show "128 \<le> byte_val x" if "128 \<le> byte_val c" "x \<in> set (take n cs)"
    using p(4) [OF that(1), of "byte_val x"] that(2) by (simp add: take_map t del: take_take)
qed

lemma rune_at_ascii: "byte_val c < 128 \<Longrightarrow> rune_at c cs = (byte_val c, 0)" "byte_val c < 128 \<Longrightarrow> \<not> bad_rune (rune_at c cs)"
  by (simp_all add: rune_at_def decode_rune_def bad_rune_def RuneError_def)

lemma unquote_unicode:
  assumes "getu4 (h1 # h2 # h3 # h4 # cs) = Some r" and "\<not> is_surrogate r"
  shows "json_unquote (backslash # CHR ''u'' # h1 # h2 # h3 # h4 # cs) = map_option ((@) (append_rune r)) (json_unquote cs)"
  by (subst json_unquote.simps) (use assms in simp)

lemma unquote_escape:
  assumes "simple_escape e = Some x"
  shows "json_unquote (backslash # e # cs) = map_option ((#) x) (json_unquote cs)"
  by (subst json_unquote.simps) (use assms in \<open>auto simp: simple_escape_def split: if_splits\<close>)

lemma unquote_plain:
  assumes "c \<noteq> backslash" "c \<noteq> dquote" "32 \<le> byte_val c" "byte_val c < 128"
  shows "json_unquote (c # cs) = map_option ((#) c) (json_unquote cs)"
  by (subst json_unquote.simps) (use assms in simp)

lemma unquote_rune:
  assumes "rune_at c cs = (r, n)" "\<not> bad_rune (r, n)" "128 \<le> byte_val c"
  shows "json_unquote (c # take n cs @ ys) = map_option ((@) (c # take n cs)) (json_unquote ys)"
proof -
  note k = rune_at_ok [OF assms(1,2)]
  have "c \<noteq> backslash" "c \<noteq> dquote" using assms(3) by auto
  with k assms(3) show ?thesis by (subst json_unquote.simps) simp
qed

lemma unquote_Nil [simp]: "json_unquote [] = Some []"
  by (simp add: json_unquote.simps)

lemma byte_val_nat: "byte_val c = int (of_char c)"
  by (simp add: byte_val_of_char of_nat_of_char)

lemma hex_value_hex_digit: "d < 16 \<Longrightarrow> hex_value (hex_digit d) = Some (int d)"
proof -
  assume d: "d < 16"
  have "byte_val (hex_digit d) = int (of_char (hex_digit d))" by (rule byte_val_nat)
  with d show ?thesis by (auto simp: of_char_hex_digit hex_value_def Let_def split: if_splits)
qed

lemma getu4_hex_byte: "getu4 (CHR ''0'' # CHR ''0'' # hex_byte c @ cs) = Some (byte_val c)"
proof -
  have "byte_val c = int (of_char c)" by (rule byte_val_nat)
  moreover have "int (of_char c div 16) * 16 + int (of_char c mod 16) = int (of_char c)"
    by (metis div_mult_mod_eq of_nat_add of_nat_mult of_nat_numeral)
  moreover have "hex_value (CHR ''0'') = Some 0" by (simp add: hex_value_def)
  ultimately show ?thesis
    by (simp add: hex_byte_def hex_value_hex_digit of_char_nibbles)
qed

lemma append_rune_byte: "byte_val c < 128 \<Longrightarrow> append_rune (byte_val c) = [c]"
  by (simp add: append_rune_def encode_rune_def byte_val_bounds comp_def)

lemma append_single: "(@) [c] = (#) c"
  by auto

text \<open>The three shapes of an escape.\<close>

lemma escape_ascii_cases:
  obtains (short) e where "simple_escape e = Some c" "escape_ascii c = [backslash, e]"
  | (unicode) "escape_ascii c = backslash # CHR ''u'' # CHR ''0'' # CHR ''0'' # hex_byte c"
  | (plain) "escape_ascii c = [c]" "c \<noteq> dquote" "c \<noteq> backslash" "32 \<le> byte_val c"
proof (cases "c \<in> {dquote, backslash, CHR 0x08, CHR 0x0C, CHR 0x0A, CHR 0x0D, CHR 0x09}")
  case True
  then have "\<exists>e. simple_escape e = Some c \<and> escape_ascii c = [backslash, e]"
    unfolding insert_iff empty_iff
    by (elim disjE) (simp_all add: escape_ascii_def simple_escape_def)
  then show thesis using short by blast
next
  case False
  then show thesis using unicode plain
    by (cases "byte_val c < 32 \<or> c = CHR ''<'' \<or> c = CHR ''>'' \<or> c = CHR ''&''") (auto simp: escape_ascii_def)
qed

lemma unquote_escape_ascii:
  assumes "byte_val c < 128"
  shows "json_unquote (escape_ascii c @ cs) = map_option ((#) c) (json_unquote cs)"
proof (cases c rule: escape_ascii_cases)
  case (short e)
  then show ?thesis by (simp add: unquote_escape)
next
  case unicode
  have "\<not> is_surrogate (byte_val c)" using assms by (simp add: is_surrogate_def)
  from unquote_unicode [OF getu4_hex_byte [of c cs, unfolded hex_byte_def append_Cons append_Nil] this] show ?thesis
    by (simp add: unicode hex_byte_def append_rune_byte assms append_single)
next
  case plain
  then show ?thesis using assms by (simp add: unquote_plain)
qed

lemma append_rune_line_sep: "append_rune 8232 = [CHR 0xE2, CHR 0x80, CHR 0xA8]" "append_rune 8233 = [CHR 0xE2, CHR 0x80, CHR 0xA9]"
  by (simp_all add: append_rune_def encode_rune_def char_of_def bit_simps bit_iff_odd)

lemma unquote_quote: "valid_utf8 s \<Longrightarrow> json_unquote (json_quote s) = Some s"
proof (induction s rule: json_quote.induct)
  case 1
  show ?case by simp
next
  case (2 c cs)
  show ?case
  proof (cases "byte_val c < 128")
    case True
    with 2 show ?thesis by (simp add: unquote_escape_ascii rune_at_ascii)
  next
    case False
    obtain r n where rn: "rune_at c cs = (r, n)" by (cases "rune_at c cs")
    have ok: "\<not> bad_rune (r, n)" and v: "valid_utf8 (drop n cs)" using "2.prems" rn by simp_all
    note k = rune_at_ok [OF rn ok]
    have IH: "json_unquote (json_quote (drop n cs)) = Some (drop n cs)"
      using "2.IH" False rn ok v by (auto simp: Let_def) 
    have get: "getu4 (CHR ''2'' # CHR ''0'' # CHR ''2'' # CHR ''8'' # ys) = Some 8232"
      "getu4 (CHR ''2'' # CHR ''0'' # CHR ''2'' # CHR ''9'' # ys) = Some 8233" for ys
      by (simp_all add: hex_value_def)
    consider "r = 8232" | "r = 8233" | "r \<noteq> 8232" "r \<noteq> 8233" by blast
    then show ?thesis
    proof cases
      case 1
      with k(2) have "c # take n cs = append_rune 8232" by simp
      then show ?thesis using False ok IH 1
        by (simp add: Let_def rn unquote_unicode [OF get(1)] is_surrogate_def)
           (metis append_Cons append_take_drop_id)
    next
      case 2
      with k(2) have "c # take n cs = append_rune 8233" by simp
      then show ?thesis using False ok IH 2
        by (simp add: Let_def rn unquote_unicode [OF get(2)] is_surrogate_def)
           (metis append_Cons append_take_drop_id)
    next
      case 3
      then show ?thesis using False ok IH by (simp add: Let_def rn unquote_rune [OF rn ok])
    qed
  qed
qed


text \<open>Whatever the bytes of a string, its literal is scanned as a whole and has no control characters.\<close>

lemma scan_plain:
  "\<forall>c\<in>set t. c \<noteq> dquote \<and> c \<noteq> backslash \<and> 32 \<le> byte_val c \<Longrightarrow>
    scan_string (t @ u) = map_option (\<lambda>(x, r). (t @ x, r)) (scan_string u)"
  by (induction t) (auto simp: option.map_ident option.map_comp comp_def split_def)

lemma scan_unicode:
  "getu4 [h1, h2, h3, h4] \<noteq> None \<Longrightarrow>
    scan_string (backslash # CHR ''u'' # h1 # h2 # h3 # h4 # u) =
      map_option (\<lambda>(x, r). (backslash # CHR ''u'' # h1 # h2 # h3 # h4 # x, r)) (scan_string u)"
  by (simp add: simple_escape_def split del: option.split)

lemma scan_escape_ascii:
  "scan_string (escape_ascii c @ u) = map_option (\<lambda>(x, r). (escape_ascii c @ x, r)) (scan_string u)"
proof (cases c rule: escape_ascii_cases)
  case (short e)
  then show ?thesis by simp
next
  case unicode
  have "getu4 [CHR ''0'', CHR ''0'', hex_digit (of_char c div 16), hex_digit (of_char c mod 16)] \<noteq> None"
    using getu4_hex_byte [of c "[]", unfolded hex_byte_def append_Cons append_Nil] by (simp only: option.distinct not_False_eq_True)
  from scan_unicode [OF this] show ?thesis by (simp only: unicode hex_byte_def append_Cons append_Nil)
next
  case plain
  then show ?thesis using scan_plain [of "[c]" u] by simp
qed

lemma scan_quote: "scan_string (json_quote s @ u) = map_option (\<lambda>(x, r). (json_quote s @ x, r)) (scan_string u)"
proof (induction s rule: json_quote.induct)
  case 1
  show ?case by (simp add: option.map_ident split_def)
next
  case (2 c cs)
  show ?case
  proof (cases "byte_val c < 128")
    case True
    with 2 show ?thesis by (simp add: scan_escape_ascii option.map_comp comp_def split_def)
  next
    case False
    obtain r n where rn: "rune_at c cs = (r, n)" by (cases "rune_at c cs")
    have lit: "getu4 ''fffd'' \<noteq> None" "getu4 ''2028'' \<noteq> None" "getu4 ''2029'' \<noteq> None"
      by (simp_all add: hex_value_def)
    show ?thesis
    proof (cases "bad_rune (r, n)")
      case True
      with 2 False rn show ?thesis
        by (simp add: Let_def scan_unicode [OF lit(1)] option.map_comp comp_def split_def del: scan_string.simps)
    next
      case ok: False
      have IH: "scan_string (json_quote (drop n cs) @ u) = map_option (\<lambda>(x, r). (json_quote (drop n cs) @ x, r)) (scan_string u)"
        using "2.IH" False rn ok by (auto simp: Let_def)
      have plain: "\<forall>x\<in>set (c # take n cs). x \<noteq> dquote \<and> x \<noteq> backslash \<and> 32 \<le> byte_val x"
        using rune_at_ok(4) [OF rn ok] False by fastforce
      show ?thesis using False rn ok
        by (simp add: Let_def scan_unicode [OF lit(2)] scan_unicode [OF lit(3)] IH
            scan_plain [OF plain, unfolded append_Cons] option.map_comp comp_def split_def del: scan_string.simps)
    qed
  qed
qed

lemma str_ok_quote: "str_ok (json_quote s)"
  unfolding str_ok_def by (simp add: scan_quote)


lemma hex_digit_printable: "d < 16 \<Longrightarrow> printable (hex_digit d)"
  by (auto simp: printable_def byte_val_nat of_char_hex_digit)

lemma escape_ascii_printable: "x \<in> set (escape_ascii c) \<Longrightarrow> printable x"
proof (cases c rule: escape_ascii_cases)
  case (short e)
  assume "x \<in> set (escape_ascii c)"
  then have "x = backslash \<or> x = e" using short by simp
  with short(1) show ?thesis by (auto simp: printable_def simple_escape_def split: if_splits)
next
  case unicode
  assume "x \<in> set (escape_ascii c)"
  then show ?thesis
    by (auto simp: unicode hex_byte_def printable_def [of "CHR ''u''"] printable_def [of "CHR ''0''"]
        printable_def [of backslash] hex_digit_printable of_char_nibbles)
next
  case plain
  assume "x \<in> set (escape_ascii c)"
  with plain show ?thesis by (simp add: printable_def)
qed

lemma quote_printable: "x \<in> set (json_quote s) \<Longrightarrow> printable x"
proof (induction s rule: json_quote.induct)
  case (2 c cs)
  show ?case
  proof (cases "byte_val c < 128")
    case True
    with 2 show ?thesis by (auto dest: escape_ascii_printable)
  next
    case False
    obtain r n where rn: "rune_at c cs = (r, n)" by (cases "rune_at c cs")
    have chars: "printable backslash" "\<forall>x\<in>set ''ufd2089''. printable x"
      by (simp_all add: printable_def)
    show ?thesis
    proof (cases "bad_rune (r, n)")
      case True
      with 2 False rn chars show ?thesis by (auto simp: Let_def)
    next
      case ok: False
      have IH: "x \<in> set (json_quote (drop n cs)) \<Longrightarrow> printable x"
        using "2.IH" False rn ok by (auto simp: Let_def)
      have "printable y" if "y \<in> set (take n cs)" for y
        using rune_at_ok(4) [OF rn ok _ that] False by (simp add: printable_def)
      moreover have "printable c" using False by (simp add: printable_def)
      ultimately show ?thesis using "2.prems" False ok rn chars IH by (auto simp: Let_def split: if_splits)
    qed
  qed
qed simp

section \<open>Unquoted strings are valid\<close>

lemma base64: "64 * (r div 64 div 64) + r div 64 mod 64 = r div (64::int)" "64 * (r div 64) + r mod 64 = (r::int)"
  by simp_all

text \<open>Numbers that are not Unicode scalar values are written as \<open>RuneError\<close>.\<close>

definition not_scalar :: "rune \<Rightarrow> bool" where
  "not_scalar r \<longleftrightarrow> r < 0 \<or> 1114111 < r \<or> 55296 \<le> r \<and> r \<le> 57343"

lemma encode_rune_bad: "not_scalar r \<Longrightarrow> encode_rune r = [239, 191, 189]"
  by (auto simp: encode_rune_def not_scalar_def)

text \<open>The bytes of a rune are read as one rune.\<close>

lemma decode_encode:
  "\<exists>b bs. encode_rune r = b # bs \<and> (\<forall>x\<in>set (b # bs). 0 \<le> x \<and> x < 256) \<and> length bs \<le> 3 \<and>
     (\<forall>ys. decode_rune b (bs @ ys) = (if not_scalar r then RuneError else r, length bs))"
proof -
  consider "0 \<le> r" "r < 128" | "128 \<le> r" "r < 2048" | (bad) "not_scalar r"
    | "2048 \<le> r" "r < 65536" "\<not> not_scalar r" | "65536 \<le> r" "r \<le> 1114111"
    unfolding not_scalar_def by linarith
  then show ?thesis
  proof cases
    case 1
    then have "\<not> not_scalar r" by (simp add: not_scalar_def)
    with 1 show ?thesis by (simp add: encode_rune_def decode_rune_def)
  next
    case 2
    define x y where xy: "x = r div 64" "y = r mod 64"
    have r: "r = x * 64 + y" "0 \<le> y" "y \<le> 63" by (simp_all add: xy)
    have x: "2 \<le> x" "x \<le> 31" using 2 r by linarith+
    have "\<not> not_scalar r" "encode_rune r = [192 + x, 128 + y]" using 2 by (simp_all add: not_scalar_def encode_rune_def xy)
    moreover have "cont (128 + y)" using r by (simp add: cont_def)
    ultimately show ?thesis using r x by (simp add: decode_rune_def)
  next
    case bad
    then show ?thesis by (simp add: encode_rune_bad decode_rune_def cont_def second_ok_def RuneError_def)
  next
    case 4
    define x y z where xyz: "x = r div 4096" "y = r div 64 mod 64" "z = r mod 64"
    have h: "r div 4096 = r div 64 div 64" by (simp flip: zdiv_zmult2_eq)
    have r: "r = 4096 * x + 64 * y + z" "0 \<le> y" "y \<le> 63" "0 \<le> z" "z \<le> 63"
      using base64 [of r] unfolding xyz h by (linarith, simp_all)
    have x: "0 \<le> x" "x \<le> 15" using 4(1,2) r by linarith+
    have xs: "x = 0 \<Longrightarrow> 32 \<le> y" "x = 13 \<Longrightarrow> y \<le> 31" using 4 r by (auto simp: not_scalar_def)
    have "encode_rune r = [224 + x, 128 + y, 128 + z]" using 4 unfolding encode_rune_def not_scalar_def xyz by auto
    moreover have "cont (128 + z)" "second_ok (224 + x) (128 + y)"
      using r(2-5) xs x by (simp_all add: cont_def second_ok_def)
    ultimately show ?thesis using r x 4(3) by (simp add: decode_rune_def)
  next
    case 5
    define w x y z where wxyz: "w = r div 262144" "x = r div 4096 mod 64" "y = r div 64 mod 64" "z = r mod 64"
    have h: "r div 4096 = r div 64 div 64" "r div 262144 = r div 64 div 64 div 64" by (simp_all flip: zdiv_zmult2_eq)
    have r: "r = 262144 * w + 4096 * x + 64 * y + z" "0 \<le> x" "x \<le> 63" "0 \<le> y" "y \<le> 63" "0 \<le> z" "z \<le> 63"
      using base64 [of r] base64(1) [of "r div 64"] unfolding wxyz h by (linarith, simp_all)
    have w: "0 \<le> w" "w \<le> 4" using 5 r by linarith+
    have ws: "w = 0 \<Longrightarrow> 16 \<le> x" "w = 4 \<Longrightarrow> x \<le> 15" using 5 r by auto
    have ok: "\<not> not_scalar r" using 5 by (simp add: not_scalar_def)
    have "encode_rune r = [240 + w, 128 + x, 128 + y, 128 + z]" using 5 by (simp add: encode_rune_def wxyz)
    moreover have "cont (128 + y)" "cont (128 + z)" "second_ok (240 + w) (128 + x)"
      using r(2-7) ws w by (simp_all add: cont_def second_ok_def)
    ultimately show ?thesis using r w ok by (simp add: decode_rune_def)
  qed
qed

lemma valid_append_rune:
  assumes "valid_utf8 s"
  shows "valid_utf8 (append_rune r @ s)"
proof -
  obtain b bs where e: "encode_rune r = b # bs" "\<forall>x\<in>set (b # bs). 0 \<le> x \<and> x < 256" "length bs \<le> 3"
    and d: "decode_rune b (bs @ map byte_val (take (3 - length bs) s)) = (if not_scalar r then RuneError else r, length bs)"
    using decode_encode by blast
  have bytes: "map byte_val (map char_of (b # bs)) = b # bs" using e(2) by (auto simp: byte_val_of_char intro!: map_idI)
  have at: "rune_at (char_of b) (map char_of bs @ s) = (if not_scalar r then RuneError else r, length bs)"
    using d e(3) bytes by (simp add: rune_at_def)
  have "length bs \<noteq> 0" if "not_scalar r \<or> r = RuneError"
  proof -
    have "length (encode_rune r) = 3"
      using that by (elim disjE) (simp add: encode_rune_bad, simp add: encode_rune_def RuneError_def)
    then show ?thesis by (simp add: e(1))
  qed
  then have "\<not> bad_rune (if not_scalar r then RuneError else r, length bs)" by (auto simp: bad_rune_def)
  with at assms show ?thesis by (simp add: append_rune_def e(1))
qed

lemma unquote_step:
  assumes "json_unquote t = Some s"
  shows "s = [] \<or> (\<exists>t' s' r. length t' < length t \<and> json_unquote t' = Some s' \<and> s = append_rune r @ s')"
proof (cases t)
  case Nil
  with assms show ?thesis by simp
next
  case (Cons c cs)
  have one: "x # s' = append_rune (byte_val x) @ s'" if "byte_val x < 128" for x s'
    using that by (simp add: append_rune_byte)
  consider (u) rest where "c = backslash" "cs = CHR ''u'' # rest" | (e) e rest where "c = backslash" "cs = e # rest" "e \<noteq> CHR ''u''"
    | (plain) "c \<noteq> backslash" "byte_val c < 128" | (rune) "c \<noteq> backslash" "128 \<le> byte_val c"
  proof (cases "c = backslash")
    case True
    with assms Cons have "cs \<noteq> []" by (auto simp: json_unquote.simps [of "[backslash]"])
    then obtain e rest where "cs = e # rest" by (cases cs) auto
    with True u e show thesis by (cases "e = CHR ''u''") auto
  next
    case False
    with plain rune show thesis by linarith
  qed
  then show ?thesis
  proof cases
    case (u rest)
    have d: "length (drop 4 rest) < length t" using u Cons by simp
    note unf = json_unquote.simps [of "backslash # CHR ''u'' # rest"]
    obtain r where r: "getu4 rest = Some r" using assms Cons u by (auto simp: unf split: option.splits)
    show ?thesis
    proof (cases "is_surrogate r")
      case False
      then obtain z where "json_unquote (drop 4 rest) = Some z" "s = append_rune r @ z" using assms Cons u r by (auto simp: unf)
      with d show ?thesis by blast
    next
      case True
      show ?thesis
      proof (cases "low_surrogate r (drop 4 rest)")
        case None
        then obtain z where "json_unquote (drop 4 rest) = Some z" "s = append_rune RuneError @ z"
          using assms Cons u r True by (auto simp: unf)
        with d show ?thesis by blast
      next
        case (Some p)
        then have "length (snd p) < length t" using low_surrogate_length [of r "drop 4 rest" "fst p" "snd p"] d by simp
        moreover obtain z where "json_unquote (snd p) = Some z" "s = append_rune (fst p) @ z"
          using assms Cons u r True Some by (auto simp: unf split: prod.splits)
        ultimately show ?thesis by blast
      qed
    qed
  next
    case (e e rest)
    then obtain x s' where x: "simple_escape e = Some x" "json_unquote rest = Some s'" "s = x # s'"
      using assms Cons by (auto simp: json_unquote.simps [of "backslash # e # rest"] split: option.splits)
    have "byte_val x < 128" using x(1) by (auto simp: simple_escape_def split: if_splits)
    with one x e Cons show ?thesis by (metis length_Cons lessI less_Suc_eq)
  next
    case plain
    then obtain s' where "json_unquote cs = Some s'" "s = c # s'"
      using assms Cons by (auto simp: json_unquote.simps [of "c # cs"] split: if_splits)
    with one [OF plain(2)] Cons show ?thesis by (metis length_Cons lessI)
  next
    case rune
    then have "length (drop (snd (rune_at c cs)) cs) < length t" using Cons by simp
    moreover obtain z where "json_unquote (drop (snd (rune_at c cs)) cs) = Some z" "s = append_rune (fst (rune_at c cs)) @ z"
      using assms Cons rune by (auto simp: json_unquote.simps [of "c # cs"] split: if_splits)
    ultimately show ?thesis by blast
  qed
qed

lemma unquote_valid: "json_unquote t = Some s \<Longrightarrow> valid_utf8 s"
proof (induction t arbitrary: s rule: length_induct)
  case (1 t)
  from unquote_step [OF "1.prems"] "1.IH" show ?case by (auto intro: valid_append_rune)
qed

section \<open>Number literals\<close>

lemma ends_number_take: "ends_number rest \<Longrightarrow> takeWhile is_digit rest = [] \<and> dropWhile is_digit rest = rest"
  by (cases rest) (auto simp: ends_number_def is_digit_def)

lemma scan_int_dec:
  assumes "ends_number rest"
  shows "scan_int (format_dec n @ rest) = Some (format_dec n, rest)"
proof -
  obtain c t where ct: "format_dec n = c # t" by (cases "format_dec n") auto
  have dig: "\<forall>x\<in>set (format_dec n). is_digit x" by (auto dest: format_dec_digits)
  show ?thesis
  proof (cases "c = CHR ''0''")
    case True
    with format_dec_lead ct have "t = []" by blast
    with ct True show ?thesis by (simp add: scan_int_def)
  next
    case False
    have "takeWhile is_digit (format_dec n @ rest) = format_dec n" "dropWhile is_digit (format_dec n @ rest) = rest"
      using dig ends_number_take [OF assms] by (simp_all add: takeWhile_append2 dropWhile_append2)
    with False dig show ?thesis by (simp add: scan_int_def ct)
  qed
qed

lemma scan_ends: "ends_number rest \<Longrightarrow> scan_frac rest = Some ([], rest)" "ends_number rest \<Longrightarrow> scan_exp rest = Some ([], rest)"
  by (auto simp: scan_frac_def scan_exp_def ends_number_def split: list.splits)

lemma num_ok_int: "num_ok (format_int n)"
proof -
  have dig: "is_digit (hd (format_dec k))" for k
    by (rule format_dec_digits [of _ k]) simp
  have neg: "scan_number (''-'' @ format_dec k @ rest) = Some (''-'' @ format_dec k, rest)" if "ends_number rest" for k rest
    using that by (simp add: scan_number_def scan_int_dec scan_ends)
  have pos: "scan_number (format_dec k @ rest) = Some (format_dec k, rest)" if "ends_number rest" for k rest
  proof -
    obtain c t where ct: "format_dec k = c # t" by (cases "format_dec k") auto
    with dig [of k] have "c \<noteq> CHR ''-''" by (auto simp: is_digit_def)
    then have "(case format_dec k @ rest of c # cs \<Rightarrow> if c = CHR ''-'' then ([c], cs) else ([], format_dec k @ rest) | [] \<Rightarrow> ([], format_dec k @ rest)) = ([], format_dec k @ rest)"
      by (simp add: ct)
    then show ?thesis using that by (simp add: scan_number_def scan_int_dec scan_ends)
  qed
  show ?thesis
  proof (cases "n < 0")
    case True
    then show ?thesis using neg by (simp add: num_ok_def format_int_def)
  next
    case False
    then show ?thesis using pos dig by (simp add: num_ok_def format_int_def)
  qed
qed

lemma format_int_printable: "c \<in> set (format_int n) \<Longrightarrow> printable c"
  by (auto simp: format_int_def printable_def byte_val_nat is_digit_def dest!: format_dec_digits split: if_splits)

end
