(* ===== verification/Go_Time.thy ===== *)
theory Go_Time
  imports Go_Strings
begin

text \<open>
  What the program uses of Go's \<open>time\<close> package. A \<open>time.Time\<close> is the number of nanoseconds
  since Go's zero time, January 1 of year 1, 00:00:00 UTC. The location is dropped where the
  program normalises the time to UTC before it formats it; the one time it stores as it came,
  the event timestamp of a frame, is a \<open>timestamp\<close>, which keeps the zone offset. A \<open>time.Duration\<close> is a
  64-bit count of nanoseconds. The calendar is the proleptic Gregorian one, computed from
  the day count as in the package, with years that start in March. The main result is that
  the RFC 3339 text with nanoseconds determines the time.
\<close>

type_synonym time = int
type_synonym duration = int

text \<open>An instant with the offset of its zone from UTC in seconds.\<close>

type_synonym timestamp = "time \<times> int"

definition in_UTC :: "time \<Rightarrow> timestamp" where "in_UTC t = (t, 0)"

definition second :: duration where "second = 1000000000"
definition minute :: duration where "minute = 60 * second"

definition maxDuration :: duration where "maxDuration = 2 ^ 63 - 1"
definition minDuration :: duration where "minDuration = - (2 ^ 63)"

definition IsZero :: "time \<Rightarrow> bool" where
  "IsZero t \<longleftrightarrow> t = 0"

definition After :: "time \<Rightarrow> time \<Rightarrow> bool" where
  "After t u \<longleftrightarrow> u < t"

definition time_Add :: "time \<Rightarrow> duration \<Rightarrow> time" where
  "time_Add t d = t + d"

text \<open>\<open>t.Sub(u)\<close> saturates when the difference does not fit a \<open>Duration\<close>.\<close>

definition time_Sub :: "time \<Rightarrow> time \<Rightarrow> duration" where
  "time_Sub t u = (if t - u < minDuration then minDuration
                   else if maxDuration < t - u then maxDuration else t - u)"

lemma time_Sub_le_iff: "d < maxDuration \<Longrightarrow> minDuration \<le> d \<Longrightarrow> time_Sub t u \<le> d \<longleftrightarrow> t - u \<le> d"
  by (auto simp: time_Sub_def)

section \<open>The calendar\<close>

definition day_ns :: int where "day_ns = 86400 * second"

definition day_number :: "time \<Rightarrow> int" where
  "day_number t = t div day_ns"

text \<open>
  Year of the era of 400 years and day of the year, for a day counted from March 1 of the
  era's first year: centuries of 36524 days (the last one day longer), groups of four years
  of 1461 days, years of 365 days (the last one day longer).
\<close>

definition year_of_era :: "int \<Rightarrow> int \<times> int" where
  "year_of_era doe =
     (let c = min 3 (doe div 36524);
          r = doe - 36524 * c;
          q = r div 1461;
          s = r mod 1461;
          a = min 3 (s div 365)
      in (100 * c + 4 * q + a, s - 365 * a))"

definition civil :: "int \<Rightarrow> int \<times> int \<times> int" where
  "civil dn =
     (let z = dn + 306;
          era = z div 146097;
          (yoe, doy) = year_of_era (z mod 146097);
          mp = (5 * doy + 2) div 153;
          d = doy - (153 * mp + 2) div 5 + 1;
          m = (if mp < 10 then mp + 3 else mp - 9);
          y = yoe + 400 * era
      in (if m \<le> 2 then y + 1 else y, m, d))"

text \<open>The day count of a date; \<open>civil\<close> is shown to be its right inverse below.\<close>

definition day_of_civil :: "int \<times> int \<times> int \<Rightarrow> int" where
  "day_of_civil ymd =
     (let (y, m, d) = ymd;
          y' = (if m \<le> 2 then y - 1 else y);
          era = y' div 400;
          yoe = y' mod 400;
          mp = (if 2 < m then m - 3 else m + 9);
          doy = (153 * mp + 2) div 5 + d - 1
      in era * 146097 + 365 * yoe + yoe div 4 - yoe div 100 + doy - 306)"

lemma year_of_era_bounds:
  assumes "0 \<le> doe" and "doe < 146097" and "year_of_era doe = (yoe, doy)"
  shows "0 \<le> yoe" "yoe < 400" "0 \<le> doy" "doy \<le> 365"
    "doe = 365 * yoe + yoe div 4 - yoe div 100 + doy"
proof -
  define c where "c = min 3 (doe div 36524)"
  define r where "r = doe - 36524 * c"
  define q where "q = r div 1461"
  define s where "s = r mod 1461"
  define a where "a = min 3 (s div 365)"
  have eq: "yoe = 100 * c + 4 * q + a" "doy = s - 365 * a"
    using assms(3) by (auto simp: year_of_era_def Let_def c_def r_def q_def s_def a_def)
  have c: "0 \<le> c" "c \<le> 3" using assms(1) by (auto simp: c_def)
  have r: "0 \<le> r" "r \<le> 36524" using assms(1,2) by (auto simp: r_def c_def min_def)
  have q: "0 \<le> q" "q \<le> 24" using r by (auto simp: q_def)
  have s: "0 \<le> s" "s < 1461" by (simp_all add: s_def)
  have a: "0 \<le> a" "a \<le> 3" "365 * a \<le> s" "s - 365 * a \<le> 365"
    using s by (auto simp: a_def min_def)
  have rqs: "r = 1461 * q + s" by (simp add: q_def s_def)
  show "0 \<le> yoe" "yoe < 400" "0 \<le> doy" "doy \<le> 365"
    using c q a eq by linarith+
  have "yoe div 4 = 25 * c + q" using a eq by simp
  moreover have "yoe div 100 = c" using q a eq by simp
  ultimately show "doe = 365 * yoe + yoe div 4 - yoe div 100 + doy"
    using eq rqs r_def by simp
qed

lemma day_of_civil_civil: "day_of_civil (civil dn) = dn"
proof -
  define z where "z = dn + 306"
  obtain yoe doy where yd: "year_of_era (z mod 146097) = (yoe, doy)"
    by (cases "year_of_era (z mod 146097)")
  note b = year_of_era_bounds [OF _ _ yd, simplified]
  define mp where "mp = (5 * doy + 2) div 153"
  have mp: "0 \<le> mp" "mp \<le> 11" using b(3,4) by (auto simp: mp_def)
  have era: "(yoe + 400 * (z div 146097)) div 400 = z div 146097"
    "(yoe + 400 * (z div 146097)) mod 400 = yoe"
    using b(1,2) by simp_all
  have "z = 146097 * (z div 146097) + z mod 146097" by simp
  then have z: "z = (z div 146097) * 146097 + 365 * yoe + yoe div 4 - yoe div 100 + doy"
    using b(5) by simp
  have civ: "civil dn =
    (let y = yoe + 400 * (z div 146097); d = doy - (153 * mp + 2) div 5 + 1
     in if mp < 10 then (y, mp + 3, d) else (y + 1, mp - 9, d))"
    using mp by (simp add: civil_def Let_def z_def [symmetric] yd mp_def [symmetric])
  have "day_of_civil (civil dn) =
    z div 146097 * 146097 + 365 * yoe + yoe div 4 - yoe div 100 + doy - 306"
    unfolding civ using mp era by (cases "mp < 10") (simp_all add: day_of_civil_def Let_def)
  also have "\<dots> = z - 306" using z by linarith
  finally show ?thesis by (simp add: z_def)
qed

lemma civil_inj: "civil m = civil n \<Longrightarrow> m = n"
  by (metis day_of_civil_civil)

lemma civil_bounds:
  assumes "civil dn = (y, m, d)"
  shows "1 \<le> m" "m \<le> 12" "1 \<le> d" "d \<le> 31"
proof -
  define z where "z = dn + 306"
  obtain yoe doy where yd: "year_of_era (z mod 146097) = (yoe, doy)"
    by (cases "year_of_era (z mod 146097)")
  note b = year_of_era_bounds [OF _ _ yd, simplified]
  define mp where "mp = (5 * doy + 2) div 153"
  have mp: "0 \<le> mp" "mp \<le> 11" using b(3,4) by (auto simp: mp_def)
  have "m = (if mp < 10 then mp + 3 else mp - 9)" "d = doy - (153 * mp + 2) div 5 + 1"
    using assms by (auto simp: civil_def Let_def z_def [symmetric] yd mp_def [symmetric])
  moreover have "0 \<le> doy - (153 * mp + 2) div 5" "doy - (153 * mp + 2) div 5 \<le> 30"
    using b(3,4) by (auto simp: mp_def)
  ultimately show "1 \<le> m" "m \<le> 12" "1 \<le> d" "d \<le> 31" using mp by auto
qed

section \<open>Formats\<close>

definition format_year :: "int \<Rightarrow> string" where
  "format_year y = (if y < 0 then CHR ''-'' # pad_dec 4 (nat (- y)) else pad_dec 4 (nat y))"

definition ns_of_day :: "time \<Rightarrow> int" where
  "ns_of_day t = t mod day_ns"

definition sec_of_day :: "time \<Rightarrow> nat" where
  "sec_of_day t = nat (ns_of_day t div second)"

definition nanos :: "time \<Rightarrow> nat" where
  "nanos t = nat (ns_of_day t mod second)"

definition drop_trailing_zeros :: "string \<Rightarrow> string" where
  "drop_trailing_zeros s = rev (dropWhile (\<lambda>c. c = CHR ''0'') (rev s))"

text \<open>The layout \<open>.999999999\<close>: nothing for zero, trailing zeros removed otherwise.\<close>

definition format_fraction :: "nat \<Rightarrow> string" where
  "format_fraction ns =
     (if ns = 0 then [] else CHR ''.'' # drop_trailing_zeros (pad_dec 9 ns))"

definition format_clock :: "nat \<Rightarrow> string \<Rightarrow> string" where
  "format_clock s sep =
     pad_dec 2 (s div 3600) @ sep @ pad_dec 2 (s div 60 mod 60) @ sep @ pad_dec 2 (s mod 60)"

text \<open>The date and the clock of \<open>time.RFC3339Nano\<close>, and \<open>t.UTC().Format(time.RFC3339Nano)\<close>.\<close>

definition format_datetime :: "time \<Rightarrow> string" where
  "format_datetime t =
     (let (y, m, d) = civil (day_number t) in
      format_year y @ ''-'' @ pad_dec 2 (nat m) @ ''-'' @ pad_dec 2 (nat d) @ ''T'' @
      format_clock (sec_of_day t) '':'' @ format_fraction (nanos t))"

definition format_RFC3339Nano :: "time \<Rightarrow> string" where
  "format_RFC3339Nano t = format_datetime t @ ''Z''"

text \<open>\<open>t.UTC().Format("20060102")\<close> and \<open>t.UTC().Format("20060102T150405Z")\<close>\<close>

definition format_day :: "time \<Rightarrow> string" where
  "format_day t =
     (let (y, m, d) = civil (day_number t) in format_year y @ pad_dec 2 (nat m) @ pad_dec 2 (nat d))"

definition format_stamp :: "time \<Rightarrow> string" where
  "format_stamp t = format_day t @ ''T'' @ format_clock (sec_of_day t) '''' @ ''Z''"

section \<open>The formats determine the time\<close>

lemma sep_not_digit [simp]:
  "\<not> is_digit (CHR ''-'')" "\<not> is_digit (CHR ''T'')" "\<not> is_digit (CHR '':'')"
  "\<not> is_digit (CHR ''.'')" "\<not> is_digit (CHR ''Z'')"
  by (simp_all add: is_digit_def)

lemma pad_dec_sep_inj:
  assumes "pad_dec k m @ c # x = pad_dec k n @ d # y" and "\<not> is_digit c" and "\<not> is_digit d"
  shows "m = n \<and> c = d \<and> x = y"
  using append_sep_inj [OF assms(1), of is_digit] assms(2,3) by (auto dest: pad_dec_digits)

lemma pad_dec_not_minus: "pad_dec k m @ x \<noteq> CHR ''-'' # y"
proof
  assume eq: "pad_dec k m @ x = CHR ''-'' # y"
  have "pad_dec k m \<noteq> []" by (simp add: pad_dec_def)
  with eq have "CHR ''-'' \<in> set (pad_dec k m)" by (cases "pad_dec k m") auto
  then show False using pad_dec_digits by force
qed

lemma format_year_sep_inj:
  assumes "format_year y @ CHR ''-'' # x = format_year y' @ CHR ''-'' # x'"
  shows "y = y' \<and> x = x'"
proof -
  have key: "nat a = nat a' \<and> x = x'"
    if "pad_dec 4 (nat a) @ CHR ''-'' # x = pad_dec 4 (nat a') @ CHR ''-'' # x'" for a a'
    using pad_dec_sep_inj [OF that] by simp
  consider "y < 0" "y' < 0" | "0 \<le> y" "0 \<le> y'" | "y < 0" "0 \<le> y'" | "0 \<le> y" "y' < 0"
    by linarith
  then show ?thesis
  proof cases
    case 1
    then show ?thesis
      using assms key [of "- y" "- y'"] eq_nat_nat_iff [of "- y" "- y'"] by (auto simp: format_year_def)
  next
    case 2
    then show ?thesis
      using assms key [of y y'] eq_nat_nat_iff [of y y'] by (auto simp: format_year_def)
  next
    case 3
    then show ?thesis
      using assms pad_dec_not_minus [of 4 "nat y'" "CHR ''-'' # x'"]
      by (simp add: format_year_def del: append_Cons) (metis append_Cons)
  next
    case 4
    then show ?thesis
      using assms pad_dec_not_minus [of 4 "nat y" "CHR ''-'' # x"]
      by (simp add: format_year_def)
  qed
qed

lemma drop_trailing_zeros_inj:
  assumes "length a = length b" and "drop_trailing_zeros a = drop_trailing_zeros b"
  shows "a = b"
proof -
  let ?Z = "\<lambda>c. c = CHR ''0''"
  have zeros: "takeWhile ?Z u = replicate (length u - length (dropWhile ?Z u)) (CHR ''0'')" for u
  proof -
    have "length (takeWhile ?Z u) = length u - length (dropWhile ?Z u)"
      by (metis takeWhile_dropWhile_id add_diff_cancel_right' length_append)
    moreover have "\<forall>c\<in>set (takeWhile ?Z u). c = CHR ''0''" by (auto dest: set_takeWhileD)
    ultimately show ?thesis by (metis replicate_length_same)
  qed
  have "dropWhile ?Z (rev a) = dropWhile ?Z (rev b)"
    using assms(2) by (simp add: drop_trailing_zeros_def)
  with zeros [of "rev a"] zeros [of "rev b"] assms(1) have "rev a = rev b"
    by (metis length_rev takeWhile_dropWhile_id)
  then show ?thesis by simp
qed

lemma drop_trailing_zeros_set: "c \<in> set (drop_trailing_zeros s) \<Longrightarrow> c \<in> set s"
  by (auto simp: drop_trailing_zeros_def dest: set_dropWhileD)

lemma format_fraction_inj:
  assumes "format_fraction m @ CHR ''Z'' # x = format_fraction n @ CHR ''Z'' # y"
    and "m < 10 ^ 9" and "n < 10 ^ 9"
  shows "m = n"
proof (cases "m = 0 \<or> n = 0")
  case True
  with assms(1) show ?thesis by (auto simp: format_fraction_def split: if_splits)
next
  case False
  then have eq: "drop_trailing_zeros (pad_dec 9 m) @ CHR ''Z'' # x =
      drop_trailing_zeros (pad_dec 9 n) @ CHR ''Z'' # y"
    using assms(1) by (simp add: format_fraction_def)
  have dig: "\<forall>c\<in>set (drop_trailing_zeros (pad_dec 9 k)). is_digit c" for k
    by (blast dest: drop_trailing_zeros_set pad_dec_digits)
  from append_sep_inj [OF eq dig dig]
  have "drop_trailing_zeros (pad_dec 9 m) = drop_trailing_zeros (pad_dec 9 n)" by simp
  moreover have "length (pad_dec 9 m) = 9" "length (pad_dec 9 n) = 9"
    by (rule length_pad_dec, rule assms, simp)+
  ultimately have "pad_dec 9 m = pad_dec 9 n" by (metis drop_trailing_zeros_inj)
  then show ?thesis by simp
qed

lemma nanos_less: "nanos t < 10 ^ 9"
  by (simp add: nanos_def second_def nat_less_iff)

lemma sec_of_day_less: "sec_of_day t < 86400"
  by (simp add: sec_of_day_def ns_of_day_def second_def day_ns_def nat_less_iff zdiv_mono1 div_less_mono)

lemma time_recompose:
  "t = day_number t * day_ns + int (sec_of_day t) * second + int (nanos t)"
proof -
  have "t = day_number t * day_ns + ns_of_day t"
    by (simp add: day_number_def ns_of_day_def)
  moreover have "ns_of_day t = int (sec_of_day t) * second + int (nanos t)"
    by (simp add: sec_of_day_def nanos_def ns_of_day_def day_ns_def second_def pos_imp_zdiv_nonneg_iff)
  ultimately show ?thesis by simp
qed

lemma clock_recompose: "s = (s div 3600) * 3600 + (s div 60 mod 60) * 60 + s mod (60::nat)"
proof -
  obtain q r A B where ex: "s div 60 = q" "s mod 60 = r" "q div 60 = A" "q mod 60 = B" by simp
  have "s div 3600 = A" using div_mult2_eq [of s 60 60] ex by simp
  moreover have "s = q * 60 + r" using div_mult_mod_eq [of s 60] ex by simp
  moreover have "q = A * 60 + B" using div_mult_mod_eq [of q 60] ex by simp
  ultimately have "s = A * 3600 + B * 60 + r" by simp
  with \<open>s div 3600 = A\<close> show ?thesis unfolding ex by (simp only: ex)
qed

lemma format_fraction_Z: "\<exists>c x. format_fraction ns @ ''Z'' = c # x \<and> \<not> is_digit c"
  by (simp add: format_fraction_def)

lemma format_clock_inj:
  assumes "format_clock s '':'' @ c # x = format_clock s' '':'' @ d # y"
    and "\<not> is_digit c" and "\<not> is_digit d"
  shows "s = s' \<and> c # x = d # y"
proof -
  from assms(1) have 1: "pad_dec 2 (s div 3600) @ CHR '':'' # (pad_dec 2 (s div 60 mod 60) @ CHR '':'' # (pad_dec 2 (s mod 60) @ c # x))
    = pad_dec 2 (s' div 3600) @ CHR '':'' # (pad_dec 2 (s' div 60 mod 60) @ CHR '':'' # (pad_dec 2 (s' mod 60) @ d # y))"
    by (simp add: format_clock_def)
  from pad_dec_sep_inj [OF 1] have h: "s div 3600 = s' div 3600"
    and 2: "pad_dec 2 (s div 60 mod 60) @ CHR '':'' # (pad_dec 2 (s mod 60) @ c # x)
      = pad_dec 2 (s' div 60 mod 60) @ CHR '':'' # (pad_dec 2 (s' mod 60) @ d # y)" by simp_all
  from pad_dec_sep_inj [OF 2] have m: "s div 60 mod 60 = s' div 60 mod 60"
    and 3: "pad_dec 2 (s mod 60) @ c # x = pad_dec 2 (s' mod 60) @ d # y" by simp_all
  from pad_dec_sep_inj [OF 3 assms(2,3)] have "s mod 60 = s' mod 60" "c # x = d # y" by simp_all
  with h m show ?thesis using clock_recompose [of s] clock_recompose [of s'] by metis
qed

lemma format_date_inj:
  assumes "civil a = (y, m, d)" and "civil b = (y', m', d')"
    and "format_year y @ ''-'' @ pad_dec 2 (nat m) @ ''-'' @ pad_dec 2 (nat d) @ CHR ''T'' # x =
      format_year y' @ ''-'' @ pad_dec 2 (nat m') @ ''-'' @ pad_dec 2 (nat d') @ CHR ''T'' # x'"
  shows "a = b \<and> x = x'"
proof -
  from assms(3) have "format_year y @ CHR ''-'' # (pad_dec 2 (nat m) @ CHR ''-'' # (pad_dec 2 (nat d) @ CHR ''T'' # x)) =
      format_year y' @ CHR ''-'' # (pad_dec 2 (nat m') @ CHR ''-'' # (pad_dec 2 (nat d') @ CHR ''T'' # x'))"
    by simp
  from format_year_sep_inj [OF this] have y: "y = y'"
    and 2: "pad_dec 2 (nat m) @ CHR ''-'' # (pad_dec 2 (nat d) @ CHR ''T'' # x) =
      pad_dec 2 (nat m') @ CHR ''-'' # (pad_dec 2 (nat d') @ CHR ''T'' # x')" by simp_all
  from pad_dec_sep_inj [OF 2] have m: "nat m = nat m'"
    and 3: "pad_dec 2 (nat d) @ CHR ''T'' # x = pad_dec 2 (nat d') @ CHR ''T'' # x'" by simp_all
  from pad_dec_sep_inj [OF 3] have d: "nat d = nat d'" and x: "x = x'" by simp_all
  have "m = m'" "d = d'"
    using m d civil_bounds [OF assms(1)] civil_bounds [OF assms(2)] by simp_all
  with assms(1,2) y have "civil a = civil b" by simp
  with x show ?thesis by (auto dest: civil_inj)
qed

lemma format_RFC3339Nano_inj:
  assumes "format_RFC3339Nano t = format_RFC3339Nano u"
  shows "t = u"
proof -
  obtain y m d where t: "civil (day_number t) = (y, m, d)" by (cases "civil (day_number t)")
  obtain y' m' d' where u: "civil (day_number u) = (y', m', d')" by (cases "civil (day_number u)")
  obtain c x where cx: "format_fraction (nanos t) @ ''Z'' = c # x" "\<not> is_digit c"
    using format_fraction_Z by blast
  obtain c' x' where cx': "format_fraction (nanos u) @ ''Z'' = c' # x'" "\<not> is_digit c'"
    using format_fraction_Z by blast
  from assms have "format_year y @ ''-'' @ pad_dec 2 (nat m) @ ''-'' @ pad_dec 2 (nat d) @ CHR ''T'' #
      (format_clock (sec_of_day t) '':'' @ c # x) =
    format_year y' @ ''-'' @ pad_dec 2 (nat m') @ ''-'' @ pad_dec 2 (nat d') @ CHR ''T'' #
      (format_clock (sec_of_day u) '':'' @ c' # x')"
    by (simp add: format_RFC3339Nano_def format_datetime_def t u cx(1) cx'(1))
  from format_date_inj [OF t u this] have day: "day_number t = day_number u"
    and clock: "format_clock (sec_of_day t) '':'' @ c # x = format_clock (sec_of_day u) '':'' @ c' # x'"
    by simp_all
  from format_clock_inj [OF clock cx(2) cx'(2)] have sec: "sec_of_day t = sec_of_day u"
    and "c # x = c' # x'" by simp_all
  then have "format_fraction (nanos t) @ ''Z'' = format_fraction (nanos u) @ ''Z''" using cx cx' by simp
  then have "nanos t = nanos u" by (rule format_fraction_inj) (rule nanos_less)+
  with day sec show ?thesis using time_recompose [of t] time_recompose [of u] by metis
qed

text \<open>The stamps of the storage files contain digits, letters and a sign only.\<close>

lemma format_year_chars: "c \<in> set (format_year y) \<Longrightarrow> is_digit c \<or> c = CHR ''-''"
  by (auto simp: format_year_def dest: pad_dec_digits split: if_splits)

lemma format_day_chars: "c \<in> set (format_day t) \<Longrightarrow> is_digit c \<or> c = CHR ''-''"
  by (auto simp: format_day_def dest: format_year_chars pad_dec_digits split: prod.splits)

lemma format_stamp_chars: "c \<in> set (format_stamp t) \<Longrightarrow> is_digit c \<or> c \<in> {CHR ''-'', CHR ''T'', CHR ''Z''}"
  by (auto simp: format_stamp_def format_clock_def dest: format_day_chars pad_dec_digits)

lemma format_RFC3339Nano_chars:
  "c \<in> set (format_RFC3339Nano t) \<Longrightarrow>
    is_digit c \<or> c \<in> {CHR ''-'', CHR ''T'', CHR ''Z'', CHR '':'', CHR ''.''}"
  by (auto simp: format_RFC3339Nano_def format_datetime_def format_clock_def format_fraction_def
      dest: format_year_chars pad_dec_digits drop_trailing_zeros_set split: prod.splits if_splits)

text \<open>A concrete time: 2026-05-31, half a second past noon.\<close>

lemma format_example:
  "format_RFC3339Nano 63915825600500000000 = ''2026-05-31T12:00:00.5Z''"
  "format_stamp 63915825600500000000 = ''20260531T120000Z''"
proof -
  let ?t = "63915825600500000000 :: int"
  have civ: "civil (day_number ?t) = (2026, 5, 31)" by code_simp
  have parts: "sec_of_day ?t = 43200" "nanos ?t = 500000000"
    by (simp_all add: sec_of_day_def nanos_def ns_of_day_def day_ns_def second_def)
  have pads: "pad_dec 4 2026 = ''2026''" "pad_dec 2 5 = ''05''" "pad_dec 2 31 = ''31''"
    "pad_dec 2 12 = ''12''" "pad_dec 2 0 = ''00''" "pad_dec 9 500000000 = ''500000000''"
    by (simp_all add: pad_dec_def format_dec.simps digit_char_simps)
  have frac: "format_fraction 500000000 = ''.5''"
    by (simp add: format_fraction_def pads drop_trailing_zeros_def)
  show "format_RFC3339Nano ?t = ''2026-05-31T12:00:00.5Z''" "format_stamp ?t = ''20260531T120000Z''"
    by (simp_all add: format_RFC3339Nano_def format_datetime_def format_stamp_def format_day_def format_year_def
        format_clock_def civ parts pads frac)
qed

end
