(* ===== verification/Json_Time.thy ===== *)
theory Json_Time
  imports Json_Literals Go_Time "HOL-Library.Monad_Syntax"
begin

text \<open>
  \<open>time.Time\<close> in JSON: \<open>MarshalJSON\<close> writes RFC 3339 with nanoseconds and fails outside the
  years 0 to 9999 or for a zone of a day or more; \<open>UnmarshalJSON\<close> reads what
  \<open>time.Parse(time.RFC3339, _)\<close> accepts, which is more: an hour of one digit, a comma before
  the fraction, digits beyond nanoseconds, and zone offsets up to 24 hours and 60 minutes.
\<close>

section \<open>Output\<close>

text \<open>The zone as \<open>Z07:00\<close> prints it: whole minutes, truncated towards zero.\<close>

definition format_zone :: "int \<Rightarrow> string" where
  "format_zone off =
     (if off = 0 then ''Z''
      else let m = nat \<bar>off\<bar> div 60
           in (if off \<le> - 60 then ''-'' else ''+'') @ pad_dec 2 (m div 60) @ '':'' @ pad_dec 2 (m mod 60))"

definition local_time :: "timestamp \<Rightarrow> time" where
  "local_time ts = fst ts + snd ts * second"

definition local_year :: "timestamp \<Rightarrow> int" where
  "local_year ts = fst (civil (day_number (local_time ts)))"

definition json_timestamp :: "timestamp \<Rightarrow> bool" where
  "json_timestamp ts \<longleftrightarrow> 0 \<le> local_year ts \<and> local_year ts \<le> 9999 \<and> \<bar>snd ts\<bar> < 86400"

definition time_MarshalJSON :: "timestamp \<Rightarrow> string option" where
  "time_MarshalJSON ts =
     (if json_timestamp ts then Some (format_datetime (local_time ts) @ format_zone (snd ts)) else None)"

section \<open>Input\<close>

text \<open>\<open>getnum\<close>: two digits, or one where the field is not fixed.\<close>

definition getnum :: "bool \<Rightarrow> string \<Rightarrow> (nat \<times> string) option" where
  "getnum fixed s =
     (case s of
        [] \<Rightarrow> None
      | a # s' \<Rightarrow>
          if \<not> is_digit a then None
          else
            (case s' of
               b # s'' \<Rightarrow> if is_digit b then Some (dec_val [a, b], s'') else if fixed then None else Some (digit_val a, s')
             | [] \<Rightarrow> if fixed then None else Some (digit_val a, [])))"

definition expect :: "char \<Rightarrow> string \<Rightarrow> string option" where
  "expect c s = (case s of d # s' \<Rightarrow> if d = c then Some s' else None | [] \<Rightarrow> None)"

definition get_year :: "string \<Rightarrow> (int \<times> string) option" where
  "get_year s =
     (if length (take 4 s) = 4 \<and> list_all is_digit (take 4 s) then Some (int (dec_val (take 4 s)), drop 4 s) else None)"

text \<open>The optional fraction after the seconds: digits beyond the ninth are cut off.\<close>

definition get_fraction :: "string \<Rightarrow> nat \<times> string" where
  "get_fraction s =
     (case s of
        c # d # s' \<Rightarrow>
          if (c = CHR ''.'' \<or> c = CHR '','') \<and> is_digit d
          then let ds = take 9 (takeWhile is_digit (d # s'))
               in (dec_val ds * 10 ^ (9 - length ds), dropWhile is_digit (d # s'))
          else (0, s)
      | _ \<Rightarrow> (0, s))"

definition get_zone :: "string \<Rightarrow> (int \<times> string) option" where
  "get_zone s =
     (case s of
        [] \<Rightarrow> None
      | z # s' \<Rightarrow>
          if z = CHR ''Z'' then Some (0, s')
          else
            do {
              (hr, s1) \<leftarrow> getnum True s';
              s2 \<leftarrow> expect (CHR '':'') s1;
              (mm, s3) \<leftarrow> getnum True s2;
              if 24 < hr \<or> 60 < mm then None
              else if z = CHR ''+'' then Some (int (hr * 60 + mm) * 60, s3)
              else if z = CHR ''-'' then Some (- (int (hr * 60 + mm) * 60), s3)
              else None
            })"

definition is_leap :: "int \<Rightarrow> bool" where
  "is_leap y \<longleftrightarrow> y mod 4 = 0 \<and> (y mod 100 \<noteq> 0 \<or> y mod 400 = 0)"

definition days_in :: "int \<Rightarrow> int \<Rightarrow> int" where
  "days_in m y =
     (if m = 2 then (if is_leap y then 29 else 28)
      else if m = 4 \<or> m = 6 \<or> m = 9 \<or> m = 11 then 30 else 31)"

definition parse_RFC3339 :: "string \<Rightarrow> timestamp option" where
  "parse_RFC3339 s =
     do {
       (y, s) \<leftarrow> get_year s;
       s \<leftarrow> expect (CHR ''-'') s;
       (m, s) \<leftarrow> getnum True s;
       s \<leftarrow> expect (CHR ''-'') s;
       (d, s) \<leftarrow> getnum True s;
       s \<leftarrow> expect (CHR ''T'') s;
       (hh, s) \<leftarrow> getnum False s;
       s \<leftarrow> expect (CHR '':'') s;
       (mi, s) \<leftarrow> getnum True s;
       s \<leftarrow> expect (CHR '':'') s;
       (ss, s) \<leftarrow> getnum True s;
       let (ns, s) = get_fraction s;
       (off, s) \<leftarrow> get_zone s;
       if 1 \<le> m \<and> m \<le> 12 \<and> hh < 24 \<and> mi < 60 \<and> ss < 60 \<and> s = [] \<and>
          1 \<le> d \<and> int d \<le> days_in (int m) y
       then Some (day_of_civil (y, int m, int d) * day_ns + int (hh * 3600 + mi * 60 + ss) * second + int ns - off * second, off)
       else None
     }"

text \<open>\<open>UnmarshalJSON\<close> on the text between the quotes of a literal.\<close>

definition time_UnmarshalJSON :: "string \<Rightarrow> timestamp option" where
  "time_UnmarshalJSON s = parse_RFC3339 s"


section \<open>Reading back what was written\<close>

lemma getnum_pad:
  assumes "n < 100"
  shows "getnum fixed (pad_dec 2 n @ s) = Some (n, s)"
proof -
  have len: "length (pad_dec 2 n) = 2" by (rule length_pad_dec) (use assms in simp_all)
  obtain a t where at: "pad_dec 2 n = a # t" "length t = 1" using len by (cases "pad_dec 2 n") auto
  obtain b where t: "t = [b]" using at(2) by (cases t) auto
  have "is_digit a" "is_digit b" using pad_dec_digits [of _ 2 n] at(1) t by simp_all
  moreover have "dec_val [a, b] = n" using dec_val_pad_dec [of 2 n] at(1) t by simp
  ultimately show ?thesis using at(1) t by (simp add: getnum_def)
qed

lemma get_year_format:
  assumes "0 \<le> y" and "y \<le> 9999"
  shows "get_year (format_year y @ s) = Some (y, s)"
proof -
  have len: "length (pad_dec 4 (nat y)) = 4" by (rule length_pad_dec) (use assms in simp_all)
  have "list_all is_digit (pad_dec 4 (nat y))" by (auto simp: list_all_iff dest: pad_dec_digits)
  with len assms show ?thesis by (simp add: get_year_def format_year_def)
qed

lemma dec_val_append_zeros: "dec_val (s @ replicate k (CHR ''0'')) = dec_val s * 10 ^ k"
proof (induction k)
  case (Suc k)
  have "s @ replicate (Suc k) (CHR ''0'') = (s @ replicate k (CHR ''0'')) @ [CHR ''0'']"
    by (simp add: replicate_append_same)
  with Suc show ?case by (simp only: dec_val_snoc) (simp add: digit_val_def)
qed simp

lemma drop_trailing_zeros_split:
  "\<exists>k. s = drop_trailing_zeros s @ replicate k (CHR ''0'')"
proof -
  let ?Z = "\<lambda>c. c = CHR ''0''"
  have "takeWhile ?Z (rev s) = replicate (length (takeWhile ?Z (rev s))) (CHR ''0'')"
    by (rule replicate_length_same [symmetric]) (auto dest: set_takeWhileD)
  moreover have "rev s = takeWhile ?Z (rev s) @ dropWhile ?Z (rev s)" by simp
  ultimately have "rev s = replicate (length (takeWhile ?Z (rev s))) (CHR ''0'') @ dropWhile ?Z (rev s)"
    by metis
  from arg_cong [OF this, of rev] show ?thesis by (auto simp: drop_trailing_zeros_def)
qed

lemma get_fraction_format:
  assumes "n < 10 ^ 9" and "z \<in> {CHR ''Z'', CHR ''+'', CHR ''-''}"
  shows "get_fraction (format_fraction n @ z # s) = (n, z # s)"
proof (cases "n = 0")
  case True
  with assms(2) show ?thesis by (auto simp: get_fraction_def format_fraction_def split: list.splits)
next
  case False
  let ?ds = "drop_trailing_zeros (pad_dec 9 n)"
  obtain k where k: "pad_dec 9 n = ?ds @ replicate k (CHR ''0'')" using drop_trailing_zeros_split by blast
  have len: "length ?ds + k = 9" using arg_cong [OF k, of length] length_pad_dec [OF assms(1)] by simp
  have val: "dec_val ?ds * 10 ^ k = n" using arg_cong [OF k, of dec_val] by (simp add: dec_val_append_zeros)
  have "?ds \<noteq> []" using val False by (auto simp: dec_val_def)
  then obtain d ds where dd: "?ds = d # ds" by (cases ?ds) auto
  have dig: "\<forall>c\<in>set ?ds. is_digit c" by (blast dest: drop_trailing_zeros_set pad_dec_digits)
  have z: "\<not> is_digit z" using assms(2) by (auto simp: is_digit_def)
  have tw: "takeWhile is_digit (?ds @ z # s) = ?ds" "dropWhile is_digit (?ds @ z # s) = z # s"
    using dig z by (simp_all add: takeWhile_append dropWhile_append)
  have "k = 9 - length ?ds" using len by simp
  with False dd dig tw len val show ?thesis
    by (simp add: get_fraction_def format_fraction_def Let_def)
qed

lemma get_zone_format:
  assumes "\<bar>off\<bar> < 86400" and "off mod 60 = 0"
  shows "get_zone (format_zone off) = Some (off, [])"
proof (cases "off = 0")
  case True
  then show ?thesis by (simp add: get_zone_def format_zone_def)
next
  case False
  define m where "m = nat \<bar>off\<bar> div 60"
  obtain q where q: "off = 60 * q" using assms(2) by (metis mod_0_imp_dvd dvd_def)
  have "nat \<bar>off\<bar> = 60 * nat \<bar>q\<bar>" by (simp add: q abs_mult nat_mult_distrib)
  then have abs: "int m * 60 = \<bar>off\<bar>" by (simp add: m_def q abs_mult)
  have b: "m div 60 < 24" "m mod 60 < 60" using abs assms(1) by auto
  have hm: "m div 60 * 60 + m mod 60 = m" by simp
  have sign: "off \<le> - 60 \<longleftrightarrow> off < 0" using q by presburger
  have num: "getnum True (pad_dec 2 (m div 60) @ CHR '':'' # pad_dec 2 (m mod 60)) = Some (m div 60, CHR '':'' # pad_dec 2 (m mod 60))"
    "getnum True (pad_dec 2 (m mod 60)) = Some (m mod 60, [])"
    using b getnum_pad [of "m div 60"] getnum_pad [of "m mod 60" True "[]"] by simp_all
  have fz: "format_zone off = (if off < 0 then CHR ''-'' else CHR ''+'') # pad_dec 2 (m div 60) @ CHR '':'' # pad_dec 2 (m mod 60)"
    using False sign by (simp add: format_zone_def Let_def m_def)
  have "get_zone (format_zone off) = Some (if off < 0 then - (int (m div 60 * 60 + m mod 60) * 60) else int (m div 60 * 60 + m mod 60) * 60, [])"
    using b by (simp add: fz get_zone_def num expect_def)
  also have "\<dots> = Some (off, [])" unfolding hm using abs by simp
  finally show ?thesis .
qed

text \<open>A year of the calendar's era with 366 days ends in a leap day.\<close>

lemma year_of_era_leap:
  assumes "year_of_era doe = (yoe, 365)" and "0 \<le> doe" and "doe < 146097"
  shows "(yoe + 1 + 400 * k) mod 4 = 0 \<and> ((yoe + 1 + 400 * k) mod 100 \<noteq> 0 \<or> (yoe + 1 + 400 * k) mod 400 = 0)"
proof -
  define c where "c = min 3 (doe div 36524)"
  define r where "r = doe - 36524 * c"
  define q where "q = r div 1461"
  define s where "s = r mod 1461"
  define a where "a = min 3 (s div 365)"
  have eq: "yoe = 100 * c + 4 * q + a" "365 = s - 365 * a"
    using assms(1) by (auto simp: year_of_era_def Let_def c_def r_def q_def s_def a_def)
  have s: "0 \<le> s" "s < 1461" by (simp_all add: s_def)
  have a: "a = 3" using eq(2) s by (auto simp: a_def min_def split: if_splits)
  have c: "0 \<le> c" "c \<le> 3" using assms(2) by (auto simp: c_def)
  have r: "0 \<le> r" "r \<le> 36524" "c < 3 \<Longrightarrow> r < 36524"
    using assms(2,3) by (auto simp: r_def c_def min_def split: if_splits)
  have rqs: "r = 1461 * q + 1460" using eq(2) a mult_div_mod_eq [of 1461 r] by (simp add: q_def s_def)
  have q: "0 \<le> q" "q \<le> 24" "c < 3 \<Longrightarrow> q < 24" using r rqs by auto
  have y: "yoe + 1 + 400 * k = 4 * (25 * c + q + 1 + 100 * k)" using eq(1) a by simp
  show ?thesis
  proof (cases "q = 24")
    case True
    with q(3) c have "c = 3" by linarith
    with True eq(1) a show ?thesis by simp
  next
    case False
    then have "0 < q + 1" "q + 1 < 25" using q by auto
    moreover have "yoe + 1 + 400 * k = 4 * (q + 1) + 100 * (c + 4 * k)" using eq(1) a by simp
    ultimately have "(yoe + 1 + 400 * k) mod 100 = 4 * (q + 1)" by (simp only: mod_mult_self2) simp
    with \<open>0 < q + 1\<close> y show ?thesis by simp
  qed
qed

lemma civil_days_in:
  assumes "civil dn = (y, m, d)"
  shows "d \<le> days_in m y"
proof -
  define z where "z = dn + 306"
  obtain yoe doy where yd: "year_of_era (z mod 146097) = (yoe, doy)"
    by (cases "year_of_era (z mod 146097)")
  note b = year_of_era_bounds [OF _ _ yd, simplified]
  define mp where "mp = (5 * doy + 2) div 153"
  have mp: "0 \<le> mp" "mp \<le> 11" using b(3,4) by (auto simp: mp_def)
  have eqs: "m = (if mp < 10 then mp + 3 else mp - 9)" "d = doy - (153 * mp + 2) div 5 + 1"
    "y = yoe + 400 * (z div 146097) + (if 10 \<le> mp then 1 else 0)"
    using assms mp by (auto simp: civil_def Let_def z_def [symmetric] yd mp_def [symmetric] split: if_splits)
  have range: "153 * mp \<le> 5 * doy + 2" "5 * doy + 2 < 153 * (mp + 1)"
    unfolding mp_def by simp_all
  have feb: "d \<le> days_in 2 y" if "mp = 11"
  proof -
    have "is_leap y" if "doy = 365"
      using year_of_era_leap [of "z mod 146097" yoe "z div 146097"] yd that \<open>mp = 11\<close> eqs(3)
      by (simp add: is_leap_def add.assoc add.commute [of 1])
    with that eqs(2) b(4) show ?thesis by (cases "doy = 365") (auto simp: days_in_def)
  qed
  have "mp = 0 \<or> mp = 1 \<or> mp = 2 \<or> mp = 3 \<or> mp = 4 \<or> mp = 5 \<or> mp = 6 \<or> mp = 7 \<or> mp = 8 \<or> mp = 9 \<or> mp = 10 \<or> mp = 11"
    using mp by presburger
  then show ?thesis
    by (elim disjE) (use eqs(1,2) range b(4) feb in \<open>simp_all add: days_in_def\<close>)
qed


lemma expect_Cons [simp]: "expect c (c # s) = Some s"
  by (simp add: expect_def)

lemma format_zone_Cons: "\<exists>z s. format_zone off = z # s \<and> z \<in> {CHR ''Z'', CHR ''+'', CHR ''-''}"
  by (simp add: format_zone_def Let_def)

lemma parse_format:
  assumes "json_timestamp (t, off)" and "off mod 60 = 0"
  shows "parse_RFC3339 (format_datetime (local_time (t, off)) @ format_zone off) = Some (t, off)"
proof -
  define u where "u = local_time (t, off)"
  obtain y m d where civ: "civil (day_number u) = (y, m, d)" by (cases "civil (day_number u)")
  have y: "0 \<le> y" "y \<le> 9999" and off: "\<bar>off\<bar> < 86400"
    using assms(1) civ by (simp_all add: json_timestamp_def local_year_def u_def)
  note cb = civil_bounds [OF civ]
  obtain z zs where z: "format_zone off = z # zs" "z \<in> {CHR ''Z'', CHR ''+'', CHR ''-''}"
    using format_zone_Cons by blast
  define s where "s = sec_of_day u"
  have s: "s < 86400" using sec_of_day_less by (simp add: s_def)
  then have b: "s div 3600 < 24" "s div 60 mod 60 < 60" "s mod 60 < 60" by auto
  have frac: "get_fraction (format_fraction (nanos u) @ z # zs) = (nanos u, z # zs)"
    by (rule get_fraction_format [OF nanos_less z(2)])
  have zone: "get_zone (z # zs) = Some (off, [])" using get_zone_format [OF off assms(2)] z(1) by simp
  have nats: "int (nat m) = m" "int (nat d) = d" "nat m < 100" "nat d < 100" "1 \<le> nat m" "nat m \<le> 12" "1 \<le> nat d"
    using cb by auto
  have "parse_RFC3339 (format_datetime u @ format_zone off) =
      Some (day_of_civil (y, m, d) * day_ns + int (s div 3600 * 3600 + s div 60 mod 60 * 60 + s mod 60) * second + int (nanos u) - off * second, off)"
    using b nats civil_days_in [OF civ]
    by (simp add: parse_RFC3339_def format_datetime_def civ z(1) format_clock_def s_def [symmetric]
        get_year_format [OF y] getnum_pad frac zone del: of_nat_add of_nat_mult)
  also have "\<dots> = Some (u - off * second, off)"
  proof -
    have "day_of_civil (y, m, d) = day_number u" using day_of_civil_civil [of "day_number u"] civ by simp
    then show ?thesis using time_recompose [of u] clock_recompose [of s] by (simp only: s_def [symmetric])
  qed
  finally show ?thesis by (simp add: u_def local_time_def)
qed


text \<open>The text needs no escapes.\<close>

lemma format_datetime_chars:
  "c \<in> set (format_datetime t) \<Longrightarrow> is_digit c \<or> c \<in> {CHR ''-'', CHR ''T'', CHR '':'', CHR ''.''}"
  by (auto simp: format_datetime_def format_clock_def format_fraction_def
      dest: format_year_chars pad_dec_digits drop_trailing_zeros_set split: prod.splits if_splits)

lemma format_zone_chars:
  "c \<in> set (format_zone off) \<Longrightarrow> is_digit c \<or> c \<in> {CHR ''-'', CHR ''+'', CHR '':'', CHR ''Z''}"
  by (auto simp: format_zone_def Let_def dest: pad_dec_digits split: if_splits)

lemma time_MarshalJSON_chars:
  assumes "time_MarshalJSON ts = Some s" and "c \<in> set s"
  shows "is_digit c \<or> c \<in> {CHR ''-'', CHR ''T'', CHR '':'', CHR ''.'', CHR ''+'', CHR ''Z''}"
  using assms by (auto simp: time_MarshalJSON_def dest: format_datetime_chars format_zone_chars split: if_splits)

lemma time_MarshalJSON_plain:
  assumes "time_MarshalJSON ts = Some s"
  shows "str_ok s" "list_all printable s"
proof -
  have "\<forall>c\<in>set s. c \<noteq> dquote \<and> c \<noteq> backslash \<and> 32 \<le> byte_val c"
  proof
    fix c assume "c \<in> set s"
    from time_MarshalJSON_chars [OF assms this] show "c \<noteq> dquote \<and> c \<noteq> backslash \<and> 32 \<le> byte_val c"
      by (auto simp: is_digit_def byte_val_nat)
  qed
  then show "str_ok s" "list_all printable s"
    by (simp_all add: str_ok_def scan_plain printable_def list_all_iff)
qed


text \<open>A zone that was read is a whole number of minutes.\<close>

lemma get_zone_minutes: "get_zone s = Some (off, r) \<Longrightarrow> off mod 60 = 0"
  by (auto simp: get_zone_def bind_eq_Some_conv mod_minus_eq [symmetric] zmod_zminus1_eq_if split: list.splits if_splits)

lemma parse_minutes: "parse_RFC3339 s = Some ts \<Longrightarrow> snd ts mod 60 = 0"
  by (auto simp: parse_RFC3339_def bind_eq_Some_conv split_def Let_def dest: get_zone_minutes split: if_splits)

section \<open>The year of what was read\<close>

text \<open>The first day of a year, and the leap days before it.\<close>

definition leap_days :: "int \<Rightarrow> int" where
  "leap_days y = y div 4 - y div 100 + y div 400"

definition year_start :: "int \<Rightarrow> int" where
  "year_start y = 365 * (y - 1) + leap_days (y - 1)"

lemma day_of_civil_eq:
  "day_of_civil (y, m, d) =
     (if m \<le> 2 then year_start y else year_start (y + 1)) + (153 * (if 2 < m then m - 3 else m + 9) + 2) div 5 + d - 307"
proof -
  have g: "e div 400 * 146097 + 365 * (e mod 400) + e mod 400 div 4 - e mod 400 div 100 = 365 * e + leap_days e" for e :: int
  proof -
    obtain k r where kr: "e div 400 = k" "e mod 400 = r" by blast
    have e: "e = 400 * k + r" using mult_div_mod_eq [of 400 e] by (simp only: kr)
    have d4: "e div 4 = 100 * k + r div 4" using div_mult_self4 [of 4 "100 * k" r] by (simp add: e)
    have d100: "e div 100 = 4 * k + r div 100" using div_mult_self4 [of 100 "4 * k" r] by (simp add: e)
    obtain a b where ab: "r div 4 = a" "r div 100 = b" by blast
    show ?thesis unfolding leap_days_def kr d4 d100 ab using e by linarith
  qed
  obtain c where c: "(153 * (if 2 < m then m - 3 else m + 9) + 2) div 5 = c" by blast
  show ?thesis
    unfolding day_of_civil_def Let_def split_conv c g year_start_def by (cases "m \<le> 2") simp_all
qed

lemma leap_days_mono: "leap_days (y - 1) \<le> leap_days y"
proof -
  have up: "(y - 1) div k \<le> y div k" if "0 < k" for k using that by (simp add: zdiv_mono1)
  show ?thesis
  proof (cases "y mod 100 = 0")
    case True
    then obtain k where k: "y = 100 * k" by (metis mod_0_imp_dvd dvd_def)
    have "(y - 1) div 4 = 25 * k - 1" using div_mult_self4 [of 4 "25 * k - 1" 3] by (simp add: k)
    moreover have "(y - 1) div 100 = k - 1" using div_mult_self4 [of 100 "k - 1" 99] by (simp add: k)
    ultimately show ?thesis using up [of 400] by (simp add: leap_days_def k)
  next
    case False
    define q r where "q = y div 100" and "r = y mod 100"
    have y: "y = 100 * q + r" "0 < r" "r < 100" using False pos_mod_sign [of 100 y] pos_mod_bound [of 100 y]
      by (simp_all add: q_def r_def)
    have "(y - 1) div 100 = q" using div_mult_self4 [of 100 q "r - 1"] y by simp
    then show ?thesis using up [of 4] up [of 400] by (simp add: leap_days_def q_def)
  qed
qed

lemma year_start_Suc: "year_start y + 365 \<le> year_start (y + 1)"
  using leap_days_mono [of y] by (simp add: year_start_def)

lemma year_start_mono: "y \<le> y' \<Longrightarrow> year_start y \<le> year_start y'"
proof (induction y' rule: int_ge_induct)
  case (step i)
  with year_start_Suc [of i] show ?case by simp
qed simp

lemma day_in_year:
  assumes "1 \<le> m" and "m \<le> 12" and "1 \<le> d" and "d \<le> days_in m y"
  shows "year_start y \<le> day_of_civil (y, m, d)" "day_of_civil (y, m, d) < year_start (y + 1)"
proof -
  have "m = 1 \<or> m = 2 \<or> m = 3 \<or> m = 4 \<or> m = 5 \<or> m = 6 \<or> m = 7 \<or> m = 8 \<or> m = 9 \<or> m = 10 \<or> m = 11 \<or> m = 12"
    using assms(1,2) by presburger
  then have "year_start y \<le> day_of_civil (y, m, d) \<and> day_of_civil (y, m, d) < year_start (y + 1)"
    by (elim disjE) (use assms(3,4) year_start_Suc [of y] in \<open>auto simp: day_of_civil_eq days_in_def split: if_splits\<close>)
  then show "year_start y \<le> day_of_civil (y, m, d)" "day_of_civil (y, m, d) < year_start (y + 1)" by blast+
qed

lemma civil_year:
  assumes "1 \<le> m" and "m \<le> 12" and "1 \<le> d" and "d \<le> days_in m y"
  shows "fst (civil (day_of_civil (y, m, d))) = y"
proof -
  let ?n = "day_of_civil (y, m, d)"
  obtain y' m' d' where c: "civil ?n = (y', m', d')" by (cases "civil ?n")
  have "day_of_civil (y', m', d') = ?n" using day_of_civil_civil [of ?n] c by simp
  with day_in_year [of m' d' y'] civil_bounds [OF c] civil_days_in [OF c]
  have "year_start y' \<le> ?n" "?n < year_start (y' + 1)" by simp_all
  moreover note day_in_year [OF assms]
  ultimately have "\<not> y < y'" "\<not> y' < y"
    using year_start_mono [of "y + 1" y'] year_start_mono [of "y' + 1" y] by auto
  with c show ?thesis by simp
qed

lemma digit_val_less: "is_digit c \<Longrightarrow> digit_val c < 10"
  by (auto simp: is_digit_def digit_val_def)

lemma dec_val_less: "list_all is_digit s \<Longrightarrow> dec_val s < 10 ^ length s"
proof (induction s rule: rev_induct)
  case (snoc c s)
  with digit_val_less [of c] show ?case by (simp add: dec_val_snoc)
qed (simp add: dec_val_def)

lemma fraction_less:
  assumes "length ds \<le> 9" and "list_all is_digit ds"
  shows "dec_val ds * 10 ^ (9 - length ds) < 10 ^ 9"
proof -
  have "dec_val ds * 10 ^ (9 - length ds) < 10 ^ length ds * 10 ^ (9 - length ds)"
    using dec_val_less [OF assms(2)] by simp
  also have "\<dots> = (10 :: nat) ^ (length ds + (9 - length ds))" by (simp only: power_add)
  also have "\<dots> = 10 ^ 9" using assms(1) by simp
  finally show ?thesis .
qed

lemma get_fraction_less:
  assumes "get_fraction s = (ns, r)"
  shows "ns < 10 ^ 9"
proof (cases "ns = 0")
  case False
  with assms obtain c d s' where s: "s = c # d # s'" "(c = CHR ''.'' \<or> c = CHR '','') \<and> is_digit d"
    by (auto simp: get_fraction_def split: list.splits if_splits)
  let ?ds = "take 9 (takeWhile is_digit (d # s'))"
  have ns: "ns = dec_val ?ds * 10 ^ (9 - length ?ds)"
    using assms unfolding s(1) get_fraction_def Let_def list.case if_P [OF s(2)] prod.inject by blast
  show ?thesis unfolding ns by (rule fraction_less) (auto simp: list_all_iff dest!: in_set_takeD set_takeWhileD)
qed simp

lemma day_number_of:
  assumes "0 \<le> r" and "r < day_ns"
  shows "day_number (n * day_ns + r) = n"
  using assms by (simp add: day_number_def)

text \<open>What \<open>time.Parse\<close> accepts lies in a year that can be written; only the zone can be in the way.\<close>

lemma parsed_year:
  assumes "parse_RFC3339 s = Some ts"
  shows "0 \<le> local_year ts" "local_year ts \<le> 9999"
proof -
  have some_if: "(if b then Some x else None) = Some z \<longleftrightarrow> b \<and> x = z" for b and x z :: timestamp by auto
  have "\<exists>p m d hh mi ss s2 off.
      (day_of_civil (fst p, int m, int d) * day_ns + int (hh * 3600 + mi * 60 + ss) * second + int (fst (get_fraction s2)) - off * second, off) = ts \<and>
      get_year s = Some p \<and> 1 \<le> m \<and> m \<le> 12 \<and> hh < 24 \<and> mi < 60 \<and> ss < 60 \<and> 1 \<le> d \<and> int d \<le> days_in (int m) (fst p)"
    using assms unfolding parse_RFC3339_def bind_eq_Some_conv split_def Let_def some_if
    by - (elim exE conjE, intro exI conjI; assumption)
  then obtain p m d hh mi ss s2 off where
    ts: "ts = (day_of_civil (fst p, int m, int d) * day_ns + int (hh * 3600 + mi * 60 + ss) * second + int (fst (get_fraction s2)) - off * second, off)"
    and p: "get_year s = Some p"
    and ok: "1 \<le> m" "m \<le> 12" "hh < 24" "mi < 60" "ss < 60" "1 \<le> d" "int d \<le> days_in (int m) (fst p)" by blast
  define y where "y = fst p"
  define ns where "ns = fst (get_fraction s2)"
  have ns: "get_fraction s2 = (ns, snd (get_fraction s2))" by (simp add: ns_def)
  let ?r = "int (hh * 3600 + mi * 60 + ss) * second + int ns"
  have "int ns < second" using get_fraction_less [OF ns] by (simp add: second_def)
  moreover have "int (hh * 3600 + mi * 60 + ss) \<le> 86399" using ok(3-5) by simp
  ultimately have r: "0 \<le> ?r" "?r < day_ns" by (simp_all add: day_ns_def second_def)
  have "local_time ts = day_of_civil (y, int m, int d) * day_ns + ?r" by (simp add: ts local_time_def ns_def y_def)
  then have "day_number (local_time ts) = day_of_civil (y, int m, int d)" using day_number_of [OF r] by simp
  then have "local_year ts = y" using civil_year [of "int m" "int d" y] ok(1,2,6,7) by (simp add: local_year_def y_def)
  moreover have "0 \<le> y \<and> y \<le> 9999"
  proof -
    have "list_all is_digit (take 4 s)" "length (take 4 s) = 4" "y = int (dec_val (take 4 s))"
      using p by (auto simp: get_year_def y_def split: if_splits)
    with dec_val_less [of "take 4 s"] show ?thesis by simp
  qed
  ultimately show "0 \<le> local_year ts" "local_year ts \<le> 9999" by simp_all
qed

end
