(* ===== verification/Json_Codec.thy ===== *)
theory Json_Codec
  imports Json_Time "HOL-Library.AList"
begin

text \<open>
  The reflective half of \<open>encoding/json\<close>: how a value of a Go type is encoded and how a JSON value
  is stored into an existing value of the type. A type is a \<open>codec\<close>; a struct is a list of
  fields with the names and the \<open>omitempty\<close> options of its tags. \<open>null\<close> leaves a scalar or a
  struct as it is and empties a slice or a map; members with unknown names are skipped; any
  other mismatch is an error. An element of an array is stored into the element that the
  slice already has at its index, which matters only to a document that gives the same member
  twice (elements that an earlier, longer array left beyond the length are not kept).

  A codec is \<open>sound\<close> when all it produces is well-formed JSON, and \<open>faithful\<close> at a value when
  decoding what it produces into the zero value gives the value back.
\<close>

section \<open>Codecs\<close>

record 'v codec =
  cd_enc :: "'v \<Rightarrow> json option"
  cd_dec :: "json \<Rightarrow> 'v \<Rightarrow> 'v option"
  cd_empty :: "'v \<Rightarrow> bool"

definition string_codec :: "string codec" where
  "string_codec = \<lparr>
     cd_enc = (\<lambda>s. Some (JStr (json_quote s))),
     cd_dec = (\<lambda>j v. case j of JStr t \<Rightarrow> json_unquote t | JNull \<Rightarrow> Some v | _ \<Rightarrow> None),
     cd_empty = (\<lambda>s. s = [])\<rparr>"

definition bool_codec :: "bool codec" where
  "bool_codec = \<lparr>
     cd_enc = (\<lambda>b. Some (JBool b)),
     cd_dec = (\<lambda>j v. case j of JBool b \<Rightarrow> Some b | JNull \<Rightarrow> Some v | _ \<Rightarrow> None),
     cd_empty = (\<lambda>b. \<not> b)\<rparr>"

definition uint_codec :: "'a::len word codec" where
  "uint_codec = \<lparr>
     cd_enc = (\<lambda>w. Some (JNum (format_int (uint w)))),
     cd_dec = (\<lambda>j v. case j of JNum t \<Rightarrow> map_option word_of_int (ParseUint LENGTH('a) t) | JNull \<Rightarrow> Some v | _ \<Rightarrow> None),
     cd_empty = (\<lambda>w. w = 0)\<rparr>"

definition int_codec :: "'a::len word codec" where
  "int_codec = \<lparr>
     cd_enc = (\<lambda>w. Some (JNum (format_int (sint w)))),
     cd_dec = (\<lambda>j v. case j of JNum t \<Rightarrow> map_option word_of_int (ParseInt LENGTH('a) t) | JNull \<Rightarrow> Some v | _ \<Rightarrow> None),
     cd_empty = (\<lambda>w. w = 0)\<rparr>"

definition time_codec :: "timestamp codec" where
  "time_codec = \<lparr>
     cd_enc = (\<lambda>t. map_option JStr (time_MarshalJSON t)),
     cd_dec = (\<lambda>j v. case j of JStr t \<Rightarrow> time_UnmarshalJSON t | JNull \<Rightarrow> Some v | _ \<Rightarrow> None),
     cd_empty = (\<lambda>_. False)\<rparr>"

text \<open>A \<open>time.Time\<close> that is always in UTC.\<close>

definition utc_codec :: "time codec" where
  "utc_codec = \<lparr>
     cd_enc = (\<lambda>t. cd_enc time_codec (in_UTC t)),
     cd_dec = (\<lambda>j v. map_option fst (cd_dec time_codec j (in_UTC v))),
     cd_empty = (\<lambda>_. False)\<rparr>"

fun dec_elems :: "'v codec \<Rightarrow> 'v \<Rightarrow> json list \<Rightarrow> 'v list \<Rightarrow> 'v list option" where
  "dec_elems cd z [] old = Some []"
| "dec_elems cd z (j # js) old =
     do {
       v \<leftarrow> cd_dec cd j (case old of [] \<Rightarrow> z | v # _ \<Rightarrow> v);
       vs \<leftarrow> dec_elems cd z js (tl old);
       Some (v # vs)
     }"

definition slice_codec :: "'v codec \<Rightarrow> 'v \<Rightarrow> 'v list codec" where
  "slice_codec cd z = \<lparr>
     cd_enc = (\<lambda>vs. map_option JArr (those (map (cd_enc cd) vs))),
     cd_dec = (\<lambda>j v. case j of JArr js \<Rightarrow> dec_elems cd z js v | JNull \<Rightarrow> Some [] | _ \<Rightarrow> None),
     cd_empty = (\<lambda>vs. vs = [])\<rparr>"

text \<open>A \<open>map[string]string\<close>: the keys are written in order, and each member replaces the entry of its key.\<close>

fun dec_entries :: "(string \<times> json) list \<Rightarrow> (string \<times> string) list \<Rightarrow> (string \<times> string) list option" where
  "dec_entries [] m = Some m"
| "dec_entries ((k, j) # ms) m =
     do {
       key \<leftarrow> json_unquote k;
       v \<leftarrow> cd_dec string_codec j [];
       dec_entries ms (AList.update key v m)
     }"

definition map_codec :: "(string \<times> string) list codec" where
  "map_codec = \<lparr>
     cd_enc = (\<lambda>m. Some (JObj (map (\<lambda>(k, v). (json_quote k, JStr (json_quote v))) (sort_key fst m)))),
     cd_dec = (\<lambda>j m. case j of JObj ms \<Rightarrow> dec_entries ms m | JNull \<Rightarrow> Some [] | _ \<Rightarrow> None),
     cd_empty = (\<lambda>m. m = [])\<rparr>"

section \<open>Structs\<close>

record 's field =
  fd_name :: string
  fd_omitempty :: bool
  fd_enc :: "'s \<Rightarrow> json option"
  fd_dec :: "json \<Rightarrow> 's \<Rightarrow> 's option"
  fd_empty :: "'s \<Rightarrow> bool"

text \<open>A field of a struct, from the codec of its type, its selector and its update.\<close>

definition field :: "string \<Rightarrow> bool \<Rightarrow> 'v codec \<Rightarrow> ('s \<Rightarrow> 'v) \<Rightarrow> (('v \<Rightarrow> 'v) \<Rightarrow> 's \<Rightarrow> 's) \<Rightarrow> 's field" where
  "field name omit cd get upd = \<lparr>
     fd_name = name,
     fd_omitempty = omit,
     fd_enc = (\<lambda>s. cd_enc cd (get s)),
     fd_dec = (\<lambda>j s. map_option (\<lambda>v. upd (\<lambda>_. v) s) (cd_dec cd j (get s))),
     fd_empty = (\<lambda>s. cd_empty cd (get s))\<rparr>"

definition required :: "string \<Rightarrow> 'v codec \<Rightarrow> ('s \<Rightarrow> 'v) \<Rightarrow> (('v \<Rightarrow> 'v) \<Rightarrow> 's \<Rightarrow> 's) \<Rightarrow> 's field" where
  "required name = field name False"

definition omitempty :: "string \<Rightarrow> 'v codec \<Rightarrow> ('s \<Rightarrow> 'v) \<Rightarrow> (('v \<Rightarrow> 'v) \<Rightarrow> 's \<Rightarrow> 's) \<Rightarrow> 's field" where
  "omitempty name = field name True"

text \<open>
  Names are compared without regard to case when no field has the exact name. The long s and
  the Kelvin sign are the two runes beyond ASCII whose case folding is an ASCII letter; all
  names of the program's fields are ASCII.
\<close>

definition upper_ascii :: "char \<Rightarrow> char" where
  "upper_ascii c = (if 97 \<le> byte_val c \<and> byte_val c \<le> 122 then char_of (byte_val c - 32) else c)"

fun fold_name :: "string \<Rightarrow> string" where
  "fold_name [] = []"
| "fold_name (c # cs) =
     (if c = CHR 0xC5 \<and> take 1 cs = [CHR 0xBF] then CHR ''S'' # fold_name (drop 1 cs)
      else if c = CHR 0xE2 \<and> take 2 cs = [CHR 0x84, CHR 0xAA] then CHR ''K'' # fold_name (drop 2 cs)
      else upper_ascii c # fold_name cs)"

definition find_field :: "'s field list \<Rightarrow> string \<Rightarrow> 's field option" where
  "find_field fs key =
     (case List.find (\<lambda>f. fd_name f = key) fs of
        Some f \<Rightarrow> Some f
      | None \<Rightarrow> List.find (\<lambda>f. fold_name (fd_name f) = fold_name key) fs)"

fun enc_fields :: "'s field list \<Rightarrow> 's \<Rightarrow> (string \<times> json) list option" where
  "enc_fields [] s = Some []"
| "enc_fields (f # fs) s =
     (if fd_omitempty f \<and> fd_empty f s then enc_fields fs s
      else
        do {
          j \<leftarrow> fd_enc f s;
          ms \<leftarrow> enc_fields fs s;
          Some ((json_quote (fd_name f), j) # ms)
        })"

fun dec_members :: "'s field list \<Rightarrow> (string \<times> json) list \<Rightarrow> 's \<Rightarrow> 's option" where
  "dec_members fs [] s = Some s"
| "dec_members fs ((k, j) # ms) s =
     do {
       key \<leftarrow> json_unquote k;
       s' \<leftarrow> (case find_field fs key of None \<Rightarrow> Some s | Some f \<Rightarrow> fd_dec f j s);
       dec_members fs ms s'
     }"

definition struct_codec :: "'s field list \<Rightarrow> 's codec" where
  "struct_codec fs = \<lparr>
     cd_enc = (\<lambda>s. map_option JObj (enc_fields fs s)),
     cd_dec = (\<lambda>j s. case j of JObj ms \<Rightarrow> dec_members fs ms s | JNull \<Rightarrow> Some s | _ \<Rightarrow> None),
     cd_empty = (\<lambda>_. False)\<rparr>"

text \<open>The codec of a type that is represented by another one.\<close>

definition iso_codec :: "('a \<Rightarrow> 'b) \<Rightarrow> ('b \<Rightarrow> 'a) \<Rightarrow> 'b codec \<Rightarrow> 'a codec" where
  "iso_codec rp ab cd = \<lparr>
     cd_enc = (\<lambda>v. cd_enc cd (rp v)),
     cd_dec = (\<lambda>j v. map_option ab (cd_dec cd j (rp v))),
     cd_empty = (\<lambda>v. cd_empty cd (rp v))\<rparr>"

definition fail_codec :: "'v codec" where
  "fail_codec = \<lparr>cd_enc = (\<lambda>_. None), cd_dec = (\<lambda>_ _. None), cd_empty = (\<lambda>_. False)\<rparr>"

section \<open>Soundness of the output\<close>

definition sound :: "'v codec \<Rightarrow> bool" where
  "sound cd \<longleftrightarrow> (\<forall>v j. cd_enc cd v = Some j \<longrightarrow> json_wf j)"

named_theorems codec_sound \<open>every codec produces well-formed JSON\<close>

lemma quote_wf [simp]: "str_ok (json_quote s)" "list_all printable (json_quote s)"
  by (auto simp: str_ok_quote list_all_iff dest: quote_printable)

lemma int_wf [simp]: "num_ok (format_int n)" "list_all printable (format_int n)"
  by (auto simp: num_ok_int list_all_iff dest: format_int_printable)

lemma sound_scalars [codec_sound]: "sound string_codec" "sound bool_codec" "sound uint_codec" "sound int_codec"
  by (simp_all add: sound_def string_codec_def bool_codec_def uint_codec_def int_codec_def)

lemma sound_time [codec_sound]: "sound time_codec" "sound utc_codec"
  by (auto simp: sound_def time_codec_def utc_codec_def time_MarshalJSON_plain)

lemma those_Some_iff: "those xs = Some ys \<longleftrightarrow> xs = map Some ys"
  by (induction xs arbitrary: ys) (auto split: option.splits)

lemma wf_elems_iff: "wf_elems js \<longleftrightarrow> (\<forall>j\<in>set js. json_wf j)"
  by (induction js) auto

lemma wf_members_iff: "wf_members ms \<longleftrightarrow> (\<forall>(k, j)\<in>set ms. str_ok k \<and> list_all printable k \<and> json_wf j)"
  by (induction ms) auto

lemma sound_slice [codec_sound]:
  assumes "sound cd"
  shows "sound (slice_codec cd z)"
proof -
  have "wf_elems js" if "map (cd_enc cd) vs = map Some js" for vs js
    using that assms by (induction vs arbitrary: js) (auto simp: sound_def Cons_eq_map_conv)
  then show ?thesis by (auto simp: sound_def slice_codec_def those_Some_iff)
qed

lemma sound_map [codec_sound]: "sound map_codec"
  by (auto simp: sound_def map_codec_def wf_members_iff)

definition sound_field :: "'s field \<Rightarrow> bool" where
  "sound_field f \<longleftrightarrow> (\<forall>s j. fd_enc f s = Some j \<longrightarrow> json_wf j)"

lemma sound_field [codec_sound]: "sound cd \<Longrightarrow> sound_field (required n cd g u)" "sound cd \<Longrightarrow> sound_field (omitempty n cd g u)"
  by (simp_all add: sound_field_def sound_def required_def omitempty_def field_def)

lemma sound_struct [codec_sound]: "list_all sound_field fs \<Longrightarrow> sound (struct_codec fs)"
proof -
  assume "list_all sound_field fs"
  then have "wf_members ms" if "enc_fields fs s = Some ms" for s ms
    using that by (induction fs arbitrary: ms) (auto simp: sound_field_def bind_eq_Some_conv split: if_splits)
  then show ?thesis by (auto simp: sound_def struct_codec_def)
qed

lemma sound_iso [codec_sound]: "sound cd \<Longrightarrow> sound (iso_codec rp ab cd)"
  by (simp add: sound_def iso_codec_def)

lemma sound_fail [codec_sound]: "sound fail_codec"
  by (simp add: sound_def fail_codec_def)


section \<open>Reading back the output\<close>

text \<open>The depth bounds the nesting of the JSON value, which the scanner limits.\<close>

definition faithful :: "'v codec \<Rightarrow> 'v \<Rightarrow> nat \<Rightarrow> 'v \<Rightarrow> bool" where
  "faithful cd z d v \<longleftrightarrow>
     (\<exists>j. cd_enc cd v = Some j \<and> json_depth j \<le> d \<and> cd_dec cd j z = Some v) \<and> (cd_empty cd v \<longrightarrow> v = z)"

named_theorems codec_faithful \<open>a codec reads back what it wrote\<close>

lemma faithful_string [codec_faithful]: "valid_utf8 s \<Longrightarrow> faithful string_codec [] d s"
  by (simp add: faithful_def string_codec_def unquote_quote)

lemma faithful_bool [codec_faithful]: "faithful bool_codec False d b"
  by (simp add: faithful_def bool_codec_def)

lemma faithful_uint [codec_faithful]: "faithful uint_codec 0 d w"
  by (simp add: faithful_def uint_codec_def ParseUint_format)

lemma faithful_int [codec_faithful]: "faithful int_codec 0 d w"
  using sint_ge [of w] sint_lt [of w] by (simp add: faithful_def int_codec_def ParseInt_format)

lemma faithful_time [codec_faithful]:
  assumes "json_timestamp ts" and "snd ts mod 60 = 0"
  shows "faithful time_codec z d ts"
  using assms parse_format [of "fst ts" "snd ts"]
  by (simp add: faithful_def time_codec_def time_MarshalJSON_def time_UnmarshalJSON_def)

lemma faithful_utc [codec_faithful]: "json_timestamp (in_UTC t) \<Longrightarrow> faithful utc_codec z d t"
  using parse_format [of t 0]
  by (simp add: faithful_def utc_codec_def time_codec_def time_MarshalJSON_def time_UnmarshalJSON_def in_UTC_def)

lemma dec_elems_map:
  "\<forall>v\<in>set vs. cd_dec cd (f v) z = Some v \<Longrightarrow> dec_elems cd z (map f vs) [] = Some vs"
  by (induction vs) simp_all

lemma depth_elems_le: "depth_elems js \<le> d \<longleftrightarrow> (\<forall>j\<in>set js. json_depth j \<le> d)"
  by (induction js) auto

lemma depth_members_le: "depth_members ms \<le> d \<longleftrightarrow> (\<forall>(k, j)\<in>set ms. json_depth j \<le> d)"
  by (induction ms) auto

lemma faithful_slice [codec_faithful]:
  assumes "\<forall>v\<in>set vs. faithful cd z d v"
  shows "faithful (slice_codec cd z) [] (Suc d) vs"
proof -
  from assms obtain f where f: "\<forall>v\<in>set vs. cd_enc cd v = Some (f v) \<and> json_depth (f v) \<le> d \<and> cd_dec cd (f v) z = Some v"
    unfolding faithful_def by metis
  then have "map (cd_enc cd) vs = map Some (map f vs)" by simp
  then have "those (map (cd_enc cd) vs) = Some (map f vs)" by (simp only: those_Some_iff)
  with f show ?thesis
    by (auto simp: faithful_def slice_codec_def dec_elems_map depth_elems_le)
qed

lemma update_append: "key \<notin> fst ` set m \<Longrightarrow> AList.update key v m = m @ [(key, v)]"
  by (induction m) auto

lemma dec_entries_sorted:
  assumes "sorted_wrt (<) (map fst (m @ es))" and "\<forall>(k, v)\<in>set es. valid_utf8 k \<and> valid_utf8 v"
  shows "dec_entries (map (\<lambda>(k, v). (json_quote k, JStr (json_quote v))) es) m = Some (m @ es)"
  using assms
proof (induction es arbitrary: m)
  case (Cons e es)
  obtain k v where e: "e = (k, v)" by (cases e)
  have "k \<notin> fst ` set m" using Cons.prems(1) by (fastforce simp: sorted_wrt_append e)
  then have "AList.update k v m = m @ [(k, v)]" by (rule update_append)
  with Cons.IH [of "m @ [(k, v)]"] Cons.prems show ?case by (simp add: e unquote_quote string_codec_def)
qed simp

lemma faithful_map [codec_faithful]:
  assumes "sorted_wrt (<) (map fst m)" and "\<forall>(k, v)\<in>set m. valid_utf8 k \<and> valid_utf8 v"
  shows "faithful map_codec [] (Suc d) m"
proof -
  have "sorted_wrt (\<le>) (map fst m)" using assms(1) by (rule sorted_wrt_mono_rel [rotated]) simp
  then have "sort_key fst m = m" by (simp add: sorted_sort_id sorted_map sort_key_id_if_sorted)
  then show ?thesis using dec_entries_sorted [of "[]" m] assms
    by (auto simp: faithful_def map_codec_def depth_members_le)
qed

lemma faithful_mono: "faithful cd z d v \<Longrightarrow> d \<le> d' \<Longrightarrow> faithful cd z d' v"
  by (auto simp: faithful_def)

lemma faithful_iso:
  assumes "faithful cd (rp z) d (rp v)" and "\<And>x. ab (rp x) = x"
  shows "faithful (iso_codec rp ab cd) z d v"
  using assms by (auto simp: faithful_def iso_codec_def) (metis assms(2))

text \<open>Storing the fields of one struct into another, one after the other.\<close>

inductive copies :: "nat \<Rightarrow> 's \<Rightarrow> 's field list \<Rightarrow> 's \<Rightarrow> 's \<Rightarrow> bool" for d v where
  copies_Nil: "copies d v [] s s"
| copies_Cons:
    "(if fd_omitempty f \<and> fd_empty f v then s1 = s
      else \<exists>j. fd_enc f v = Some j \<and> json_depth j \<le> d \<and> fd_dec f j s = Some s1) \<Longrightarrow>
     copies d v fs s1 s2 \<Longrightarrow> copies d v (f # fs) s s2"

lemma copies_required:
  assumes "copies d v fs (upd (\<lambda>_. get v) s) s2" and "faithful cd (get s) d (get v)"
  shows "copies d v (required n cd get upd # fs) s s2"
  by (rule copies_Cons [OF _ assms(1)]) (use assms(2) in \<open>auto simp: faithful_def required_def field_def\<close>)

lemma copies_omitempty:
  assumes "copies d v fs (upd (\<lambda>_. get v) s) s2" and "faithful cd (get s) d (get v)" and "upd (\<lambda>_. get s) s = s"
  shows "copies d v (omitempty n cd get upd # fs) s s2"
  by (rule copies_Cons [OF _ assms(1)]) (use assms(2,3) in \<open>auto simp: faithful_def omitempty_def field_def\<close>)

lemma copies_done: "s = v \<Longrightarrow> copies d v [] s v"
  by (simp add: copies_Nil)

lemmas copies_intros = copies_required copies_omitempty copies_done

definition ascii :: "string \<Rightarrow> bool" where
  "ascii s \<longleftrightarrow> list_all (\<lambda>c. byte_val c < 128) s"

lemma ascii_valid: "ascii s \<Longrightarrow> valid_utf8 s"
  by (induction s) (simp_all add: ascii_def rune_at_ascii(1) bad_rune_def RuneError_def)

lemma field_name [simp]: "fd_name (required n cd g u) = n" "fd_name (omitempty n cd g u) = n"
  by (simp_all add: required_def omitempty_def field_def)

lemma find_field_exact: "distinct (map fd_name fs) \<Longrightarrow> f \<in> set fs \<Longrightarrow> find_field fs (fd_name f) = Some f"
proof -
  assume "distinct (map fd_name fs)" "f \<in> set fs"
  then have "List.find (\<lambda>g. fd_name g = fd_name f) fs = Some f"
    by (induction fs) (auto simp: image_iff)
  then show ?thesis by (simp add: find_field_def)
qed

lemma copies_members:
  assumes "copies d v gs s s'" and "set gs \<subseteq> set fs" and "distinct (map fd_name fs)"
    and "list_all (ascii \<circ> fd_name) fs"
  shows "\<exists>ms. enc_fields gs v = Some ms \<and> depth_members ms \<le> d \<and> dec_members fs ms s = Some s'"
  using assms(1,2)
proof (induction rule: copies.induct)
  case (copies_Cons f s1 s fs' s2)
  then obtain ms where ms: "enc_fields fs' v = Some ms" "depth_members ms \<le> d" "dec_members fs ms s1 = Some s2"
    by auto
  have f: "f \<in> set fs" using copies_Cons.prems by simp
  then have "json_unquote (json_quote (fd_name f)) = Some (fd_name f)"
    using assms(4) by (auto simp: list_all_iff intro: unquote_quote ascii_valid)
  with f ms copies_Cons.hyps(1) find_field_exact [OF assms(3) f] show ?case
    by (auto split: if_splits)
qed simp

lemma faithful_struct:
  assumes "copies d v fs z v" and "distinct (map fd_name fs)" and "list_all (ascii \<circ> fd_name) fs"
  shows "faithful (struct_codec fs) z (Suc d) v"
  using copies_members [OF assms(1) _ assms(2,3)] by (auto simp: faithful_def struct_codec_def)

section \<open>Fuel of a recursive type\<close>

text \<open>Two codecs that agree on JSON values of a limited depth.\<close>

definition agree :: "nat \<Rightarrow> 'v codec \<Rightarrow> 'v codec \<Rightarrow> bool" where
  "agree d c1 c2 \<longleftrightarrow> (\<forall>j v. json_depth j \<le> d \<longrightarrow> cd_dec c1 j v = cd_dec c2 j v)"

definition agree_field :: "nat \<Rightarrow> 's field \<Rightarrow> 's field \<Rightarrow> bool" where
  "agree_field d f g \<longleftrightarrow> fd_name f = fd_name g \<and> (\<forall>j s. json_depth j \<le> d \<longrightarrow> fd_dec f j s = fd_dec g j s)"

lemma agree_refl: "agree d c c" "agree_field d f f"
  by (simp_all add: agree_def agree_field_def)

lemma agree_slice:
  assumes "agree d c1 c2"
  shows "agree (Suc d) (slice_codec c1 z) (slice_codec c2 z)"
proof -
  have "dec_elems c1 z js v = dec_elems c2 z js v" if "depth_elems js \<le> d" for js v
    using that assms by (induction js arbitrary: v) (auto simp: agree_def)
  then show ?thesis by (auto simp: agree_def slice_codec_def split: json.splits)
qed

lemma agree_required: "agree d c1 c2 \<Longrightarrow> agree_field d (required n c1 g u) (required n c2 g u)"
  and agree_omitempty: "agree d c1 c2 \<Longrightarrow> agree_field d (omitempty n c1 g u) (omitempty n c2 g u)"
  by (simp_all add: agree_def agree_field_def required_def omitempty_def field_def)

lemma agree_find:
  assumes "list_all2 (agree_field d) fs gs"
  shows "rel_option (agree_field d) (find_field fs k) (find_field gs k)"
proof -
  have "rel_option (agree_field d) (List.find (\<lambda>f. P (fd_name f)) fs) (List.find (\<lambda>f. P (fd_name f)) gs)" for P
    using assms by (induction rule: list_all2_induct) (auto simp: agree_field_def)
  note this [of "\<lambda>n. n = k"] this [of "\<lambda>n. fold_name n = fold_name k"]
  then show ?thesis by (auto simp: find_field_def split: option.splits)
qed

lemma agree_struct:
  assumes "list_all2 (agree_field d) fs gs"
  shows "agree (Suc d) (struct_codec fs) (struct_codec gs)"
proof -
  have "dec_members fs ms s = dec_members gs ms s" if "depth_members ms \<le> d" for ms s
    using that
  proof (induction ms arbitrary: s)
    case (Cons m ms)
    obtain k j where m: "m = (k, j)" by (cases m)
    have "(case find_field fs key of None \<Rightarrow> Some s | Some f \<Rightarrow> fd_dec f j s) =
        (case find_field gs key of None \<Rightarrow> Some s | Some f \<Rightarrow> fd_dec f j s)" for key
      using agree_find [OF assms, of key] Cons.prems m
      by (auto simp: agree_field_def option_rel_Some1 option_rel_Some2 split: option.splits)
    moreover have "dec_members fs ms = dec_members gs ms" using Cons by (intro ext) (auto simp: m)
    ultimately show ?case by (simp add: m)
  qed simp
  then show ?thesis by (auto simp: agree_def struct_codec_def split: json.splits)
qed

lemma agree_iso: "agree d c1 c2 \<Longrightarrow> agree d (iso_codec rp ab c1) (iso_codec rp ab c2)"
  by (simp add: agree_def iso_codec_def)


lemma agree_slice_0: "agree 0 (slice_codec c1 z) (slice_codec c2 z)"
  by (auto simp: agree_def slice_codec_def split: json.splits)

lemma agree_struct_0: "agree 0 (struct_codec fs) (struct_codec gs)"
  by (auto simp: agree_def struct_codec_def split: json.splits)

text \<open>Two fields that write the same for one struct.\<close>

definition same_output :: "'s \<Rightarrow> 's field \<Rightarrow> 's field \<Rightarrow> bool" where
  "same_output s f g \<longleftrightarrow> fd_name f = fd_name g \<and> fd_omitempty f = fd_omitempty g \<and>
     (fd_omitempty f \<longrightarrow> fd_empty f s = fd_empty g s) \<and> fd_enc f s = fd_enc g s"

lemma same_output_refl: "same_output s f f"
  by (simp add: same_output_def)

lemma same_output_required:
  "cd_enc c1 (get s) = cd_enc c2 (get s) \<Longrightarrow> same_output s (required n c1 get upd) (required n c2 get upd)"
  by (simp add: same_output_def required_def field_def)

lemma same_output_slice:
  "map (cd_enc c1) (get s) = map (cd_enc c2) (get s) \<Longrightarrow>
     same_output s (omitempty n (slice_codec c1 z) get upd) (omitempty n (slice_codec c2 z) get upd)"
  by (simp add: same_output_def omitempty_def field_def slice_codec_def cong: map_cong)

lemma enc_fields_same: "list_all2 (same_output s) fs gs \<Longrightarrow> enc_fields fs s = enc_fields gs s"
  by (induction rule: list_all2_induct) (auto simp: same_output_def)


section \<open>When encoding succeeds\<close>

definition writes :: "'v codec \<Rightarrow> 'v \<Rightarrow> bool" where
  "writes cd v \<longleftrightarrow> cd_enc cd v \<noteq> None"

definition writes_field :: "'s \<Rightarrow> 's field \<Rightarrow> bool" where
  "writes_field s f \<longleftrightarrow> fd_omitempty f \<and> fd_empty f s \<or> fd_enc f s \<noteq> None"

named_theorems codec_writes \<open>when a codec produces an output\<close>

lemma writes_scalars [codec_writes]:
  "writes string_codec s" "writes bool_codec b" "writes uint_codec w" "writes int_codec i" "writes map_codec m"
  by (simp_all add: writes_def string_codec_def bool_codec_def uint_codec_def int_codec_def map_codec_def)

lemma writes_time [codec_writes]:
  "writes time_codec ts \<longleftrightarrow> json_timestamp ts" "writes utc_codec t \<longleftrightarrow> json_timestamp (in_UTC t)"
  by (simp_all add: writes_def time_codec_def utc_codec_def time_MarshalJSON_def)

lemma writes_slice [codec_writes]: "writes (slice_codec cd z) vs \<longleftrightarrow> (\<forall>v\<in>set vs. writes cd v)"
  by (induction vs) (auto simp: writes_def slice_codec_def split: option.splits)

lemma writes_struct [codec_writes]: "writes (struct_codec fs) s \<longleftrightarrow> list_all (writes_field s) fs"
proof -
  have "enc_fields fs s \<noteq> None \<longleftrightarrow> list_all (writes_field s) fs"
    by (induction fs) (auto simp: writes_field_def bind_eq_None_conv)
  then show ?thesis by (simp add: writes_def struct_codec_def)
qed

lemma writes_iso [codec_writes]: "writes (iso_codec rp ab cd) v \<longleftrightarrow> writes cd (rp v)"
  by (simp add: writes_def iso_codec_def)

lemma writes_fields [codec_writes]:
  "writes_field s (required n cd get upd) \<longleftrightarrow> writes cd (get s)"
  "writes_field s (omitempty n cd get upd) \<longleftrightarrow> cd_empty cd (get s) \<or> writes cd (get s)"
  by (auto simp: writes_field_def writes_def required_def omitempty_def field_def)


section \<open>What decoding keeps\<close>

text \<open>A property of the values of a type that storing any JSON value into them keeps.\<close>

definition keeps :: "('v \<Rightarrow> bool) \<Rightarrow> 'v codec \<Rightarrow> bool" where
  "keeps P cd \<longleftrightarrow> (\<forall>j v v'. cd_dec cd j v = Some v' \<longrightarrow> P v \<longrightarrow> P v')"

definition keeps_field :: "('s \<Rightarrow> bool) \<Rightarrow> 's field \<Rightarrow> bool" where
  "keeps_field P f \<longleftrightarrow> (\<forall>j s s'. fd_dec f j s = Some s' \<longrightarrow> P s \<longrightarrow> P s')"

lemma keeps_True: "keeps (\<lambda>_. True) cd"
  by (simp add: keeps_def)

lemma keeps_string: "keeps valid_utf8 string_codec"
  by (auto simp: keeps_def string_codec_def unquote_valid split: json.splits)

lemma keeps_time: "keeps (\<lambda>ts. snd ts mod 60 = 0) time_codec"
  by (auto simp: keeps_def time_codec_def time_UnmarshalJSON_def split: json.splits dest!: parse_minutes)

lemma keeps_time_year: "keeps (\<lambda>ts. 0 \<le> local_year ts \<and> local_year ts \<le> 9999) time_codec"
  by (auto simp: keeps_def time_codec_def time_UnmarshalJSON_def split: json.splits dest: parsed_year)

lemma keeps_slice:
  assumes "keeps P cd" and "P z"
  shows "keeps (list_all P) (slice_codec cd z)"
proof -
  have "list_all P vs'" if "dec_elems cd z js vs = Some vs'" "list_all P vs" for js vs vs'
    using that
  proof (induction js arbitrary: vs vs')
    case (Cons j js)
    from Cons.prems(1) obtain v ws where v: "cd_dec cd j (case vs of [] \<Rightarrow> z | x # _ \<Rightarrow> x) = Some v"
      "dec_elems cd z js (tl vs) = Some ws" "vs' = v # ws" by (auto simp: bind_eq_Some_conv)
    have "P (case vs of [] \<Rightarrow> z | x # _ \<Rightarrow> x)" "list_all P (tl vs)" using Cons.prems(2) assms(2) by (cases vs; simp)+
    with v Cons.IH assms(1) show ?case by (auto simp: keeps_def)
  qed simp
  then show ?thesis by (auto simp: keeps_def slice_codec_def split: json.splits)
qed

lemma keeps_struct:
  assumes "list_all (keeps_field P) fs"
  shows "keeps P (struct_codec fs)"
proof -
  have found: "keeps_field P f" if "find_field fs key = Some f" for key f
    using that assms by (auto simp: find_field_def list_all_iff find_Some_iff split: option.splits dest!: nth_mem)
  have "P s'" if "dec_members fs ms s = Some s'" "P s" for ms s s'
    using that
  proof (induction ms arbitrary: s)
    case (Cons m ms)
    obtain k j where m: "m = (k, j)" by (cases m)
    with Cons.prems(1) obtain key s1 where s1: "(case find_field fs key of None \<Rightarrow> Some s | Some f \<Rightarrow> fd_dec f j s) = Some s1"
      "dec_members fs ms s1 = Some s'" by (auto simp: bind_eq_Some_conv)
    have "P s1" using s1(1) Cons.prems(2) found by (auto simp: keeps_field_def split: option.splits)
    with s1(2) show ?case by (rule Cons.IH)
  qed simp
  then show ?thesis by (auto simp: keeps_def struct_codec_def split: json.splits)
qed

lemma keeps_fields:
  assumes "keeps Q cd" and "\<And>s. P s \<Longrightarrow> Q (get s)" and "\<And>s v. P s \<Longrightarrow> Q v \<Longrightarrow> P (upd (\<lambda>_. v) s)"
  shows "keeps_field P (required n cd get upd)" "keeps_field P (omitempty n cd get upd)"
  using assms by (auto simp: keeps_def keeps_field_def required_def omitempty_def field_def)

lemma keeps_iso:
  assumes "keeps (\<lambda>s. P (ab s)) cd" and "\<And>x. ab (rp x) = x"
  shows "keeps P (iso_codec rp ab cd)"
  using assms by (auto simp: keeps_def iso_codec_def)

lemma keeps_fail: "keeps P fail_codec"
  by (simp add: keeps_def fail_codec_def)

lemmas keeps_text_fields = keeps_fields [OF keeps_string] keeps_fields [OF keeps_slice [OF keeps_string]]
  keeps_fields [OF keeps_True [where cd = bool_codec]] keeps_fields [OF keeps_True [where cd = uint_codec]]
  keeps_fields [OF keeps_True [where cd = int_codec]] keeps_fields [OF keeps_True [where cd = map_codec]]

end
