(* ===== verification/Trajectory.thy ===== *)
theory Trajectory
  imports Go_Time
begin

text \<open>
  The domain types of \<open>pkg/trajectory/types.go\<close>: frames as devices send them, frames as the
  proxy stores them, and the metadata they share. A struct is a record with the source's
  field names, each prefixed by the struct's initials because record fields share one name
  space; the two recursive node structs are datatypes with selectors. \<open>Decision\<close> and
  \<open>RedactionStatus\<close> are string types in the source, so any string is a value of them and the
  named constants are particular strings.
\<close>

section \<open>Decisions and redaction statuses\<close>

type_synonym Decision = string

definition DecisionAccept :: Decision where "DecisionAccept = ''accept''"
definition DecisionDrop :: Decision where "DecisionDrop = ''drop''"
definition DecisionQuarantine :: Decision where "DecisionQuarantine = ''quarantine''"

type_synonym RedactionStatus = string

definition RedactionNotPresent :: RedactionStatus where "RedactionNotPresent = ''not_present''"
definition RedactionHashed :: RedactionStatus where "RedactionHashed = ''hashed''"
definition RedactionRedacted :: RedactionStatus where "RedactionRedacted = ''redacted''"
definition RedactionDropped :: RedactionStatus where "RedactionDropped = ''dropped''"

lemmas decision_defs = DecisionAccept_def DecisionDrop_def DecisionQuarantine_def
lemmas status_defs =
  RedactionNotPresent_def RedactionHashed_def RedactionRedacted_def RedactionDropped_def

lemma decisions_distinct [simp]:
  "DecisionAccept \<noteq> DecisionDrop" "DecisionDrop \<noteq> DecisionAccept"
  "DecisionAccept \<noteq> DecisionQuarantine" "DecisionQuarantine \<noteq> DecisionAccept"
  "DecisionDrop \<noteq> DecisionQuarantine" "DecisionQuarantine \<noteq> DecisionDrop"
  "DecisionAccept \<noteq> []" "DecisionDrop \<noteq> []" "DecisionQuarantine \<noteq> []"
  "[] \<noteq> DecisionAccept" "[] \<noteq> DecisionDrop" "[] \<noteq> DecisionQuarantine"
  by (simp_all add: decision_defs)

lemma statuses_distinct [simp]:
  "RedactionNotPresent \<noteq> RedactionHashed" "RedactionHashed \<noteq> RedactionNotPresent"
  "RedactionNotPresent \<noteq> RedactionRedacted" "RedactionRedacted \<noteq> RedactionNotPresent"
  "RedactionHashed \<noteq> RedactionRedacted" "RedactionRedacted \<noteq> RedactionHashed"
  by (simp_all add: status_defs)

section \<open>Metadata\<close>

record DeviceMetadata =
  dm_DeviceID :: string
  dm_AndroidSDKVersion :: string
  dm_BuildFingerprintHash :: string
  dm_BuildMetadataRedactionStatus :: string

record ForegroundApp =
  fa_PackageName :: string
  fa_ActivityName :: string

record DecisionMetadata =
  de_Decision :: Decision
  de_ReasonCodes :: "string list"
  de_KillSwitchReason :: string

record Bounds =
  b_Left :: i32
  b_Top :: i32
  b_Right :: i32
  b_Bottom :: i32

record IntentMetadata =
  im_OperatorIntentID :: string
  im_IntentType :: string
  im_Tags :: "string list"
  im_NaturalLanguageHash :: string
  im_NaturalLanguageRedactionStatus :: RedactionStatus

record ActionMetadata =
  am_ActionID :: string
  am_ActionType :: string
  am_TargetStableNodeID :: string
  am_TargetBounds :: Bounds
  am_Deterministic :: bool
  am_Preconditions :: "string list"

record UISettleMetadata =
  us_Observed :: bool
  us_SettleTimeoutMS :: u32
  us_ElapsedMS :: u32
  us_SettleStatus :: string

record RedactionBox =
  rb_Bounds :: Bounds
  rb_ReasonCode :: string

record ScreenshotRef =
  sr_ReferenceID :: string
  sr_SHA256Hex :: string
  sr_MediaType :: string
  sr_RedactionStatus :: string
  sr_RedactionBoxes :: "RedactionBox list"

record SanitizerMetadata =
  sm_SanitizerVersion :: string
  sm_Decision :: Decision
  sm_RedactionRulesApplied :: "string list"
  sm_FieldsDropped :: "string list"
  sm_ReasonCodes :: "string list"
  sm_KillSwitchReason :: string

record SignatureMetadata =
  sg_SignatureAlg :: string
  sg_KeyID :: string
  sg_PayloadSHA256Hex :: string
  sg_VerificationStatus :: string

record RedactionReport =
  rr_RulesApplied :: "string list"
  rr_FieldsDropped :: "string list"
  rr_ReasonCodes :: "string list"

section \<open>UI nodes\<close>

datatype RawNode = RawNode
  (rn_StableNodeID: string)
  (rn_Bounds: Bounds)
  (rn_ClassName: string)
  (rn_PackageName: string)
  (rn_ResourceIDHash: string)
  (rn_RawText: string)
  (rn_TextHash: string)
  (rn_TextRedactionStatus: string)
  (rn_RawContentDescription: string)
  (rn_ContentDescriptionHash: string)
  (rn_ContentDescriptionRedactionStatus: string)
  (rn_Clickable: bool)
  (rn_Enabled: bool)
  (rn_Focused: bool)
  (rn_Selected: bool)
  (rn_Checkable: bool)
  (rn_Children: "RawNode list")

datatype SanitizedNode = SanitizedNode
  (sn_StableNodeID: string)
  (sn_Bounds: Bounds)
  (sn_ClassName: string)
  (sn_PackageName: string)
  (sn_ResourceIDHash: string)
  (sn_TextHash: string)
  (sn_TextRedactionStatus: RedactionStatus)
  (sn_ContentDescriptionHash: string)
  (sn_ContentDescriptionRedactionStatus: RedactionStatus)
  (sn_Clickable: bool)
  (sn_Enabled: bool)
  (sn_Focused: bool)
  (sn_Selected: bool)
  (sn_Checkable: bool)
  (sn_Children: "SanitizedNode list")

section \<open>Frames\<close>

record RawFrame =
  rf_ProtocolVersion :: string
  rf_TrajectoryID :: string
  rf_FrameID :: string
  rf_Sequence :: u64
  rf_EventTimestamp :: timestamp
  rf_Device :: DeviceMetadata
  rf_ForegroundApp :: ForegroundApp
  rf_UIRoot :: RawNode
  rf_Intent :: IntentMetadata
  rf_Action :: ActionMetadata
  rf_UISettle :: UISettleMetadata
  rf_ScreenshotRef :: ScreenshotRef
  rf_Signature :: SignatureMetadata
  rf_PreStorageRaw :: "(string \<times> string) list"

record SanitizedFrame =
  sf_ProtocolVersion :: string
  sf_TrajectoryID :: string
  sf_FrameID :: string
  sf_Sequence :: u64
  sf_EventTimestamp :: timestamp
  sf_Device :: DeviceMetadata
  sf_ForegroundApp :: ForegroundApp
  sf_Allowlist :: DecisionMetadata
  sf_UIRoot :: SanitizedNode
  sf_Intent :: IntentMetadata
  sf_Action :: ActionMetadata
  sf_UISettle :: UISettleMetadata
  sf_ScreenshotRef :: ScreenshotRef
  sf_Sanitizer :: SanitizerMetadata
  sf_Signature :: SignatureMetadata
  sf_SanitizedAt :: time

section \<open>Zero values\<close>

text \<open>The zero values Go gives to a struct that is declared or returned empty.\<close>

definition zero_DeviceMetadata :: DeviceMetadata where
  "zero_DeviceMetadata = \<lparr>dm_DeviceID = [], dm_AndroidSDKVersion = [],
     dm_BuildFingerprintHash = [], dm_BuildMetadataRedactionStatus = []\<rparr>"

definition zero_ForegroundApp :: ForegroundApp where
  "zero_ForegroundApp = \<lparr>fa_PackageName = [], fa_ActivityName = []\<rparr>"

definition zero_DecisionMetadata :: DecisionMetadata where
  "zero_DecisionMetadata = \<lparr>de_Decision = [], de_ReasonCodes = [], de_KillSwitchReason = []\<rparr>"

definition zero_Bounds :: Bounds where
  "zero_Bounds = \<lparr>b_Left = 0, b_Top = 0, b_Right = 0, b_Bottom = 0\<rparr>"

definition zero_IntentMetadata :: IntentMetadata where
  "zero_IntentMetadata = \<lparr>im_OperatorIntentID = [], im_IntentType = [], im_Tags = [],
     im_NaturalLanguageHash = [], im_NaturalLanguageRedactionStatus = []\<rparr>"

definition zero_ActionMetadata :: ActionMetadata where
  "zero_ActionMetadata = \<lparr>am_ActionID = [], am_ActionType = [], am_TargetStableNodeID = [],
     am_TargetBounds = zero_Bounds, am_Deterministic = False, am_Preconditions = []\<rparr>"

definition zero_UISettleMetadata :: UISettleMetadata where
  "zero_UISettleMetadata = \<lparr>us_Observed = False, us_SettleTimeoutMS = 0, us_ElapsedMS = 0,
     us_SettleStatus = []\<rparr>"

definition zero_ScreenshotRef :: ScreenshotRef where
  "zero_ScreenshotRef = \<lparr>sr_ReferenceID = [], sr_SHA256Hex = [], sr_MediaType = [],
     sr_RedactionStatus = [], sr_RedactionBoxes = []\<rparr>"

definition zero_SanitizerMetadata :: SanitizerMetadata where
  "zero_SanitizerMetadata = \<lparr>sm_SanitizerVersion = [], sm_Decision = [],
     sm_RedactionRulesApplied = [], sm_FieldsDropped = [], sm_ReasonCodes = [],
     sm_KillSwitchReason = []\<rparr>"

definition zero_SignatureMetadata :: SignatureMetadata where
  "zero_SignatureMetadata = \<lparr>sg_SignatureAlg = [], sg_KeyID = [], sg_PayloadSHA256Hex = [],
     sg_VerificationStatus = []\<rparr>"

definition zero_RedactionReport :: RedactionReport where
  "zero_RedactionReport = \<lparr>rr_RulesApplied = [], rr_FieldsDropped = [], rr_ReasonCodes = []\<rparr>"

definition zero_RawNode :: RawNode where
  "zero_RawNode = RawNode [] zero_Bounds [] [] [] [] [] [] [] [] [] False False False False False []"

definition zero_SanitizedNode :: SanitizedNode where
  "zero_SanitizedNode = SanitizedNode [] zero_Bounds [] [] [] [] [] [] [] False False False False False []"

definition zero_RawFrame :: RawFrame where
  "zero_RawFrame = \<lparr>rf_ProtocolVersion = [], rf_TrajectoryID = [], rf_FrameID = [],
     rf_Sequence = 0, rf_EventTimestamp = in_UTC 0, rf_Device = zero_DeviceMetadata,
     rf_ForegroundApp = zero_ForegroundApp, rf_UIRoot = zero_RawNode,
     rf_Intent = zero_IntentMetadata, rf_Action = zero_ActionMetadata,
     rf_UISettle = zero_UISettleMetadata, rf_ScreenshotRef = zero_ScreenshotRef,
     rf_Signature = zero_SignatureMetadata, rf_PreStorageRaw = []\<rparr>"

definition zero_SanitizedFrame :: SanitizedFrame where
  "zero_SanitizedFrame = \<lparr>sf_ProtocolVersion = [], sf_TrajectoryID = [], sf_FrameID = [],
     sf_Sequence = 0, sf_EventTimestamp = in_UTC 0, sf_Device = zero_DeviceMetadata,
     sf_ForegroundApp = zero_ForegroundApp, sf_Allowlist = zero_DecisionMetadata,
     sf_UIRoot = zero_SanitizedNode, sf_Intent = zero_IntentMetadata,
     sf_Action = zero_ActionMetadata, sf_UISettle = zero_UISettleMetadata,
     sf_ScreenshotRef = zero_ScreenshotRef, sf_Sanitizer = zero_SanitizerMetadata,
     sf_Signature = zero_SignatureMetadata, sf_SanitizedAt = 0\<rparr>"

section \<open>Tree facts\<close>

text \<open>Induction and folding over UI trees.\<close>

primrec raw_nodes :: "RawNode \<Rightarrow> RawNode list" where
  "raw_nodes (RawNode i b c p r t th ts d dh ds k e f s h cs) =
     RawNode i b c p r t th ts d dh ds k e f s h cs # concat (map raw_nodes cs)"

primrec sanitized_nodes :: "SanitizedNode \<Rightarrow> SanitizedNode list" where
  "sanitized_nodes (SanitizedNode i b c p r th ts dh ds k e f s h cs) =
     SanitizedNode i b c p r th ts dh ds k e f s h cs # concat (map sanitized_nodes cs)"

lemma raw_nodes_unfold: "raw_nodes n = n # concat (map raw_nodes (rn_Children n))"
  by (cases n) simp

lemma sanitized_nodes_unfold: "sanitized_nodes n = n # concat (map sanitized_nodes (sn_Children n))"
  by (cases n) simp

lemma RawNode_induct [case_names Node]:
  assumes "\<And>n. (\<And>c. c \<in> set (rn_Children n) \<Longrightarrow> P c) \<Longrightarrow> P n"
  shows "P n"
  by (induction n) (rule assms, simp)

end
