(* ===== verification/Json_Frames.thy ===== *)
theory Json_Frames
  imports Json_Codec Trajectory
begin

text \<open>
  The JSON forms of the frame types: the tags of \<open>pkg/trajectory/types.go\<close>, which both ends of
  the protocol and the storage file rely on. \<open>RawFrame_Marshal\<close> and \<open>RawFrame_Unmarshal\<close> are
  \<open>json.Marshal\<close> and \<open>json.Unmarshal\<close> on raw frames, \<open>SanitizedFrame_Marshal\<close> is the former on the
  frames that are stored. The UI trees make the codecs recursive; they carry fuel, the
  height of the tree for encoding and the depth of the JSON value for decoding, and both are
  shown to be enough.
\<close>

section \<open>Metadata\<close>

definition DeviceMetadata_codec :: "DeviceMetadata codec" where
  "DeviceMetadata_codec = struct_codec
     [required ''device_id'' string_codec dm_DeviceID dm_DeviceID_update,
      required ''android_sdk_version'' string_codec dm_AndroidSDKVersion dm_AndroidSDKVersion_update,
      required ''build_fingerprint_hash'' string_codec dm_BuildFingerprintHash dm_BuildFingerprintHash_update,
      required ''build_metadata_redaction_status'' string_codec dm_BuildMetadataRedactionStatus dm_BuildMetadataRedactionStatus_update]"

definition ForegroundApp_codec :: "ForegroundApp codec" where
  "ForegroundApp_codec = struct_codec
     [required ''package_name'' string_codec fa_PackageName fa_PackageName_update,
      omitempty ''activity_name'' string_codec fa_ActivityName fa_ActivityName_update]"

definition DecisionMetadata_codec :: "DecisionMetadata codec" where
  "DecisionMetadata_codec = struct_codec
     [required ''decision'' string_codec de_Decision de_Decision_update,
      omitempty ''reason_codes'' (slice_codec string_codec []) de_ReasonCodes de_ReasonCodes_update,
      omitempty ''kill_switch_reason'' string_codec de_KillSwitchReason de_KillSwitchReason_update]"

definition Bounds_codec :: "Bounds codec" where
  "Bounds_codec = struct_codec
     [required ''left'' int_codec b_Left b_Left_update,
      required ''top'' int_codec b_Top b_Top_update,
      required ''right'' int_codec b_Right b_Right_update,
      required ''bottom'' int_codec b_Bottom b_Bottom_update]"

definition IntentMetadata_codec :: "IntentMetadata codec" where
  "IntentMetadata_codec = struct_codec
     [omitempty ''operator_intent_id'' string_codec im_OperatorIntentID im_OperatorIntentID_update,
      omitempty ''intent_type'' string_codec im_IntentType im_IntentType_update,
      omitempty ''tags'' (slice_codec string_codec []) im_Tags im_Tags_update,
      omitempty ''natural_language_hash'' string_codec im_NaturalLanguageHash im_NaturalLanguageHash_update,
      omitempty ''natural_language_redaction_status'' string_codec im_NaturalLanguageRedactionStatus im_NaturalLanguageRedactionStatus_update]"

definition ActionMetadata_codec :: "ActionMetadata codec" where
  "ActionMetadata_codec = struct_codec
     [omitempty ''action_id'' string_codec am_ActionID am_ActionID_update,
      omitempty ''action_type'' string_codec am_ActionType am_ActionType_update,
      omitempty ''target_stable_node_id'' string_codec am_TargetStableNodeID am_TargetStableNodeID_update,
      required ''target_bounds'' Bounds_codec am_TargetBounds am_TargetBounds_update,
      required ''deterministic'' bool_codec am_Deterministic am_Deterministic_update,
      omitempty ''preconditions'' (slice_codec string_codec []) am_Preconditions am_Preconditions_update]"

definition UISettleMetadata_codec :: "UISettleMetadata codec" where
  "UISettleMetadata_codec = struct_codec
     [required ''observed'' bool_codec us_Observed us_Observed_update,
      omitempty ''settle_timeout_ms'' uint_codec us_SettleTimeoutMS us_SettleTimeoutMS_update,
      omitempty ''elapsed_ms'' uint_codec us_ElapsedMS us_ElapsedMS_update,
      omitempty ''settle_status'' string_codec us_SettleStatus us_SettleStatus_update]"

definition RedactionBox_codec :: "RedactionBox codec" where
  "RedactionBox_codec = struct_codec
     [required ''bounds'' Bounds_codec rb_Bounds rb_Bounds_update,
      required ''reason_code'' string_codec rb_ReasonCode rb_ReasonCode_update]"

definition zero_RedactionBox :: RedactionBox where
  "zero_RedactionBox = \<lparr>rb_Bounds = zero_Bounds, rb_ReasonCode = []\<rparr>"

definition ScreenshotRef_codec :: "ScreenshotRef codec" where
  "ScreenshotRef_codec = struct_codec
     [omitempty ''reference_id'' string_codec sr_ReferenceID sr_ReferenceID_update,
      omitempty ''sha256_hex'' string_codec sr_SHA256Hex sr_SHA256Hex_update,
      omitempty ''media_type'' string_codec sr_MediaType sr_MediaType_update,
      omitempty ''redaction_status'' string_codec sr_RedactionStatus sr_RedactionStatus_update,
      omitempty ''redaction_boxes'' (slice_codec RedactionBox_codec zero_RedactionBox) sr_RedactionBoxes sr_RedactionBoxes_update]"

definition SanitizerMetadata_codec :: "SanitizerMetadata codec" where
  "SanitizerMetadata_codec = struct_codec
     [required ''sanitizer_version'' string_codec sm_SanitizerVersion sm_SanitizerVersion_update,
      required ''decision'' string_codec sm_Decision sm_Decision_update,
      omitempty ''redaction_rules_applied'' (slice_codec string_codec []) sm_RedactionRulesApplied sm_RedactionRulesApplied_update,
      omitempty ''fields_dropped'' (slice_codec string_codec []) sm_FieldsDropped sm_FieldsDropped_update,
      omitempty ''reason_codes'' (slice_codec string_codec []) sm_ReasonCodes sm_ReasonCodes_update,
      omitempty ''kill_switch_reason'' string_codec sm_KillSwitchReason sm_KillSwitchReason_update]"

definition SignatureMetadata_codec :: "SignatureMetadata codec" where
  "SignatureMetadata_codec = struct_codec
     [omitempty ''signature_alg'' string_codec sg_SignatureAlg sg_SignatureAlg_update,
      omitempty ''key_id'' string_codec sg_KeyID sg_KeyID_update,
      omitempty ''payload_sha256_hex'' string_codec sg_PayloadSHA256Hex sg_PayloadSHA256Hex_update,
      omitempty ''verification_status'' string_codec sg_VerificationStatus sg_VerificationStatus_update]"

section \<open>UI trees\<close>

text \<open>The node structs as records, so that each field has an update.\<close>

record RawNode_struct =
  rs_StableNodeID :: string
  rs_Bounds :: Bounds
  rs_ClassName :: string
  rs_PackageName :: string
  rs_ResourceIDHash :: string
  rs_RawText :: string
  rs_TextHash :: string
  rs_TextRedactionStatus :: string
  rs_RawContentDescription :: string
  rs_ContentDescriptionHash :: string
  rs_ContentDescriptionRedactionStatus :: string
  rs_Clickable :: bool
  rs_Enabled :: bool
  rs_Focused :: bool
  rs_Selected :: bool
  rs_Checkable :: bool
  rs_Children :: "RawNode list"

definition RawNode_rep :: "RawNode \<Rightarrow> RawNode_struct" where
  "RawNode_rep n = \<lparr>rs_StableNodeID = rn_StableNodeID n, rs_Bounds = rn_Bounds n, rs_ClassName = rn_ClassName n,
     rs_PackageName = rn_PackageName n, rs_ResourceIDHash = rn_ResourceIDHash n, rs_RawText = rn_RawText n,
     rs_TextHash = rn_TextHash n, rs_TextRedactionStatus = rn_TextRedactionStatus n, rs_RawContentDescription = rn_RawContentDescription n,
     rs_ContentDescriptionHash = rn_ContentDescriptionHash n, rs_ContentDescriptionRedactionStatus = rn_ContentDescriptionRedactionStatus n, rs_Clickable = rn_Clickable n,
     rs_Enabled = rn_Enabled n, rs_Focused = rn_Focused n, rs_Selected = rn_Selected n,
     rs_Checkable = rn_Checkable n, rs_Children = rn_Children n\<rparr>"

definition RawNode_abs :: "RawNode_struct \<Rightarrow> RawNode" where
  "RawNode_abs s = RawNode
     (rs_StableNodeID s) (rs_Bounds s) (rs_ClassName s) (rs_PackageName s)
     (rs_ResourceIDHash s) (rs_RawText s) (rs_TextHash s) (rs_TextRedactionStatus s)
     (rs_RawContentDescription s) (rs_ContentDescriptionHash s) (rs_ContentDescriptionRedactionStatus s) (rs_Clickable s)
     (rs_Enabled s) (rs_Focused s) (rs_Selected s) (rs_Checkable s)
     (rs_Children s)"

record SanitizedNode_struct =
  ss_StableNodeID :: string
  ss_Bounds :: Bounds
  ss_ClassName :: string
  ss_PackageName :: string
  ss_ResourceIDHash :: string
  ss_TextHash :: string
  ss_TextRedactionStatus :: RedactionStatus
  ss_ContentDescriptionHash :: string
  ss_ContentDescriptionRedactionStatus :: RedactionStatus
  ss_Clickable :: bool
  ss_Enabled :: bool
  ss_Focused :: bool
  ss_Selected :: bool
  ss_Checkable :: bool
  ss_Children :: "SanitizedNode list"

definition SanitizedNode_rep :: "SanitizedNode \<Rightarrow> SanitizedNode_struct" where
  "SanitizedNode_rep n = \<lparr>ss_StableNodeID = sn_StableNodeID n, ss_Bounds = sn_Bounds n, ss_ClassName = sn_ClassName n,
     ss_PackageName = sn_PackageName n, ss_ResourceIDHash = sn_ResourceIDHash n, ss_TextHash = sn_TextHash n,
     ss_TextRedactionStatus = sn_TextRedactionStatus n, ss_ContentDescriptionHash = sn_ContentDescriptionHash n, ss_ContentDescriptionRedactionStatus = sn_ContentDescriptionRedactionStatus n,
     ss_Clickable = sn_Clickable n, ss_Enabled = sn_Enabled n, ss_Focused = sn_Focused n,
     ss_Selected = sn_Selected n, ss_Checkable = sn_Checkable n, ss_Children = sn_Children n\<rparr>"

definition SanitizedNode_abs :: "SanitizedNode_struct \<Rightarrow> SanitizedNode" where
  "SanitizedNode_abs s = SanitizedNode
     (ss_StableNodeID s) (ss_Bounds s) (ss_ClassName s) (ss_PackageName s)
     (ss_ResourceIDHash s) (ss_TextHash s) (ss_TextRedactionStatus s) (ss_ContentDescriptionHash s)
     (ss_ContentDescriptionRedactionStatus s) (ss_Clickable s) (ss_Enabled s) (ss_Focused s)
     (ss_Selected s) (ss_Checkable s) (ss_Children s)"

definition RawNode_fields :: "RawNode codec \<Rightarrow> RawNode_struct field list" where
  "RawNode_fields cd =
     [required ''stable_node_id'' string_codec rs_StableNodeID rs_StableNodeID_update,
      required ''bounds'' Bounds_codec rs_Bounds rs_Bounds_update,
      required ''class_name'' string_codec rs_ClassName rs_ClassName_update,
      required ''package_name'' string_codec rs_PackageName rs_PackageName_update,
      omitempty ''resource_id_hash'' string_codec rs_ResourceIDHash rs_ResourceIDHash_update,
      omitempty ''pre_storage_text'' string_codec rs_RawText rs_RawText_update,
      omitempty ''text_hash'' string_codec rs_TextHash rs_TextHash_update,
      omitempty ''text_redaction_status'' string_codec rs_TextRedactionStatus rs_TextRedactionStatus_update,
      omitempty ''pre_storage_content_description'' string_codec rs_RawContentDescription rs_RawContentDescription_update,
      omitempty ''content_description_hash'' string_codec rs_ContentDescriptionHash rs_ContentDescriptionHash_update,
      omitempty ''content_description_redaction_status'' string_codec rs_ContentDescriptionRedactionStatus rs_ContentDescriptionRedactionStatus_update,
      required ''clickable'' bool_codec rs_Clickable rs_Clickable_update,
      required ''enabled'' bool_codec rs_Enabled rs_Enabled_update,
      required ''focused'' bool_codec rs_Focused rs_Focused_update,
      required ''selected'' bool_codec rs_Selected rs_Selected_update,
      required ''checkable'' bool_codec rs_Checkable rs_Checkable_update,
      omitempty ''children'' (slice_codec cd zero_RawNode) rs_Children rs_Children_update]"

definition SanitizedNode_fields :: "SanitizedNode codec \<Rightarrow> SanitizedNode_struct field list" where
  "SanitizedNode_fields cd =
     [required ''stable_node_id'' string_codec ss_StableNodeID ss_StableNodeID_update,
      required ''bounds'' Bounds_codec ss_Bounds ss_Bounds_update,
      required ''class_name'' string_codec ss_ClassName ss_ClassName_update,
      required ''package_name'' string_codec ss_PackageName ss_PackageName_update,
      omitempty ''resource_id_hash'' string_codec ss_ResourceIDHash ss_ResourceIDHash_update,
      omitempty ''text_hash'' string_codec ss_TextHash ss_TextHash_update,
      required ''text_redaction_status'' string_codec ss_TextRedactionStatus ss_TextRedactionStatus_update,
      omitempty ''content_description_hash'' string_codec ss_ContentDescriptionHash ss_ContentDescriptionHash_update,
      required ''content_description_redaction_status'' string_codec ss_ContentDescriptionRedactionStatus ss_ContentDescriptionRedactionStatus_update,
      required ''clickable'' bool_codec ss_Clickable ss_Clickable_update,
      required ''enabled'' bool_codec ss_Enabled ss_Enabled_update,
      required ''focused'' bool_codec ss_Focused ss_Focused_update,
      required ''selected'' bool_codec ss_Selected ss_Selected_update,
      required ''checkable'' bool_codec ss_Checkable ss_Checkable_update,
      omitempty ''children'' (slice_codec cd zero_SanitizedNode) ss_Children ss_Children_update]"

primrec RawNode_codec :: "nat \<Rightarrow> RawNode codec" where
  "RawNode_codec 0 = fail_codec"
| "RawNode_codec (Suc k) = iso_codec RawNode_rep RawNode_abs (struct_codec (RawNode_fields (RawNode_codec k)))"

primrec SanitizedNode_codec :: "nat \<Rightarrow> SanitizedNode codec" where
  "SanitizedNode_codec 0 = fail_codec"
| "SanitizedNode_codec (Suc k) = iso_codec SanitizedNode_rep SanitizedNode_abs (struct_codec (SanitizedNode_fields (SanitizedNode_codec k)))"

section \<open>Frames\<close>

definition RawFrame_fields :: "RawNode codec \<Rightarrow> RawFrame field list" where
  "RawFrame_fields cd =
     [required ''protocol_version'' string_codec rf_ProtocolVersion rf_ProtocolVersion_update,
      required ''trajectory_id'' string_codec rf_TrajectoryID rf_TrajectoryID_update,
      required ''frame_id'' string_codec rf_FrameID rf_FrameID_update,
      required ''sequence'' uint_codec rf_Sequence rf_Sequence_update,
      required ''event_timestamp'' time_codec rf_EventTimestamp rf_EventTimestamp_update,
      required ''device'' DeviceMetadata_codec rf_Device rf_Device_update,
      required ''foreground_app'' ForegroundApp_codec rf_ForegroundApp rf_ForegroundApp_update,
      required ''ui_root'' cd rf_UIRoot rf_UIRoot_update,
      required ''intent'' IntentMetadata_codec rf_Intent rf_Intent_update,
      required ''action'' ActionMetadata_codec rf_Action rf_Action_update,
      required ''ui_settle'' UISettleMetadata_codec rf_UISettle rf_UISettle_update,
      required ''screenshot_ref'' ScreenshotRef_codec rf_ScreenshotRef rf_ScreenshotRef_update,
      required ''signature'' SignatureMetadata_codec rf_Signature rf_Signature_update,
      omitempty ''pre_storage_raw_fields'' map_codec rf_PreStorageRaw rf_PreStorageRaw_update]"

definition SanitizedFrame_fields :: "SanitizedNode codec \<Rightarrow> SanitizedFrame field list" where
  "SanitizedFrame_fields cd =
     [required ''protocol_version'' string_codec sf_ProtocolVersion sf_ProtocolVersion_update,
      required ''trajectory_id'' string_codec sf_TrajectoryID sf_TrajectoryID_update,
      required ''frame_id'' string_codec sf_FrameID sf_FrameID_update,
      required ''sequence'' uint_codec sf_Sequence sf_Sequence_update,
      required ''event_timestamp'' time_codec sf_EventTimestamp sf_EventTimestamp_update,
      required ''device'' DeviceMetadata_codec sf_Device sf_Device_update,
      required ''foreground_app'' ForegroundApp_codec sf_ForegroundApp sf_ForegroundApp_update,
      required ''allowlist_decision'' DecisionMetadata_codec sf_Allowlist sf_Allowlist_update,
      required ''ui_root'' cd sf_UIRoot sf_UIRoot_update,
      required ''intent'' IntentMetadata_codec sf_Intent sf_Intent_update,
      required ''action'' ActionMetadata_codec sf_Action sf_Action_update,
      required ''ui_settle'' UISettleMetadata_codec sf_UISettle sf_UISettle_update,
      required ''screenshot_ref'' ScreenshotRef_codec sf_ScreenshotRef sf_ScreenshotRef_update,
      required ''sanitizer'' SanitizerMetadata_codec sf_Sanitizer sf_Sanitizer_update,
      required ''signature'' SignatureMetadata_codec sf_Signature sf_Signature_update,
      required ''sanitized_at'' utc_codec sf_SanitizedAt sf_SanitizedAt_update]"

definition RawFrame_codec :: "nat \<Rightarrow> RawFrame codec" where
  "RawFrame_codec k = struct_codec (RawFrame_fields (RawNode_codec k))"

definition SanitizedFrame_codec :: "nat \<Rightarrow> SanitizedFrame codec" where
  "SanitizedFrame_codec k = struct_codec (SanitizedFrame_fields (SanitizedNode_codec k))"

section \<open>Values that survive the round trip\<close>

definition valid_DeviceMetadata :: "DeviceMetadata \<Rightarrow> bool" where
  "valid_DeviceMetadata x \<longleftrightarrow>
     valid_utf8 (dm_DeviceID x) \<and>
     valid_utf8 (dm_AndroidSDKVersion x) \<and>
     valid_utf8 (dm_BuildFingerprintHash x) \<and>
     valid_utf8 (dm_BuildMetadataRedactionStatus x)"

definition valid_ForegroundApp :: "ForegroundApp \<Rightarrow> bool" where
  "valid_ForegroundApp x \<longleftrightarrow>
     valid_utf8 (fa_PackageName x) \<and>
     valid_utf8 (fa_ActivityName x)"

definition valid_DecisionMetadata :: "DecisionMetadata \<Rightarrow> bool" where
  "valid_DecisionMetadata x \<longleftrightarrow>
     valid_utf8 (de_Decision x) \<and>
     list_all valid_utf8 (de_ReasonCodes x) \<and>
     valid_utf8 (de_KillSwitchReason x)"

definition valid_IntentMetadata :: "IntentMetadata \<Rightarrow> bool" where
  "valid_IntentMetadata x \<longleftrightarrow>
     valid_utf8 (im_OperatorIntentID x) \<and>
     valid_utf8 (im_IntentType x) \<and>
     list_all valid_utf8 (im_Tags x) \<and>
     valid_utf8 (im_NaturalLanguageHash x) \<and>
     valid_utf8 (im_NaturalLanguageRedactionStatus x)"

definition valid_ActionMetadata :: "ActionMetadata \<Rightarrow> bool" where
  "valid_ActionMetadata x \<longleftrightarrow>
     valid_utf8 (am_ActionID x) \<and>
     valid_utf8 (am_ActionType x) \<and>
     valid_utf8 (am_TargetStableNodeID x) \<and>
     list_all valid_utf8 (am_Preconditions x)"

definition valid_UISettleMetadata :: "UISettleMetadata \<Rightarrow> bool" where
  "valid_UISettleMetadata x \<longleftrightarrow>
     valid_utf8 (us_SettleStatus x)"

definition valid_RedactionBox :: "RedactionBox \<Rightarrow> bool" where
  "valid_RedactionBox x \<longleftrightarrow>
     valid_utf8 (rb_ReasonCode x)"

definition valid_ScreenshotRef :: "ScreenshotRef \<Rightarrow> bool" where
  "valid_ScreenshotRef x \<longleftrightarrow>
     valid_utf8 (sr_ReferenceID x) \<and>
     valid_utf8 (sr_SHA256Hex x) \<and>
     valid_utf8 (sr_MediaType x) \<and>
     valid_utf8 (sr_RedactionStatus x) \<and>
     list_all valid_RedactionBox (sr_RedactionBoxes x)"

definition valid_SanitizerMetadata :: "SanitizerMetadata \<Rightarrow> bool" where
  "valid_SanitizerMetadata x \<longleftrightarrow>
     valid_utf8 (sm_SanitizerVersion x) \<and>
     valid_utf8 (sm_Decision x) \<and>
     list_all valid_utf8 (sm_RedactionRulesApplied x) \<and>
     list_all valid_utf8 (sm_FieldsDropped x) \<and>
     list_all valid_utf8 (sm_ReasonCodes x) \<and>
     valid_utf8 (sm_KillSwitchReason x)"

definition valid_SignatureMetadata :: "SignatureMetadata \<Rightarrow> bool" where
  "valid_SignatureMetadata x \<longleftrightarrow>
     valid_utf8 (sg_SignatureAlg x) \<and>
     valid_utf8 (sg_KeyID x) \<and>
     valid_utf8 (sg_PayloadSHA256Hex x) \<and>
     valid_utf8 (sg_VerificationStatus x)"

definition valid_RawNode :: "RawNode \<Rightarrow> bool" where
  "valid_RawNode x \<longleftrightarrow>
     valid_utf8 (rn_StableNodeID x) \<and>
     valid_utf8 (rn_ClassName x) \<and>
     valid_utf8 (rn_PackageName x) \<and>
     valid_utf8 (rn_ResourceIDHash x) \<and>
     valid_utf8 (rn_RawText x) \<and>
     valid_utf8 (rn_TextHash x) \<and>
     valid_utf8 (rn_TextRedactionStatus x) \<and>
     valid_utf8 (rn_RawContentDescription x) \<and>
     valid_utf8 (rn_ContentDescriptionHash x) \<and>
     valid_utf8 (rn_ContentDescriptionRedactionStatus x)"

definition valid_SanitizedNode :: "SanitizedNode \<Rightarrow> bool" where
  "valid_SanitizedNode x \<longleftrightarrow>
     valid_utf8 (sn_StableNodeID x) \<and>
     valid_utf8 (sn_ClassName x) \<and>
     valid_utf8 (sn_PackageName x) \<and>
     valid_utf8 (sn_ResourceIDHash x) \<and>
     valid_utf8 (sn_TextHash x) \<and>
     valid_utf8 (sn_TextRedactionStatus x) \<and>
     valid_utf8 (sn_ContentDescriptionHash x) \<and>
     valid_utf8 (sn_ContentDescriptionRedactionStatus x)"

definition text_RawFrame :: "RawFrame \<Rightarrow> bool" where
  "text_RawFrame x \<longleftrightarrow>
     valid_utf8 (rf_ProtocolVersion x) \<and>
     valid_utf8 (rf_TrajectoryID x) \<and>
     valid_utf8 (rf_FrameID x) \<and>
     valid_DeviceMetadata (rf_Device x) \<and>
     valid_ForegroundApp (rf_ForegroundApp x) \<and>
     list_all valid_RawNode (raw_nodes (rf_UIRoot x)) \<and>
     valid_IntentMetadata (rf_Intent x) \<and>
     valid_ActionMetadata (rf_Action x) \<and>
     valid_UISettleMetadata (rf_UISettle x) \<and>
     valid_ScreenshotRef (rf_ScreenshotRef x) \<and>
     valid_SignatureMetadata (rf_Signature x) \<and>
     snd (rf_EventTimestamp x) mod 60 = 0"

definition valid_RawFrame :: "RawFrame \<Rightarrow> bool" where
  "valid_RawFrame x \<longleftrightarrow> text_RawFrame x \<and>
     json_timestamp (rf_EventTimestamp x) \<and>
     sorted_wrt (<) (map fst (rf_PreStorageRaw x)) \<and> list_all (\<lambda>(k, v). valid_utf8 k \<and> valid_utf8 v) (rf_PreStorageRaw x)"

definition valid_SanitizedFrame :: "SanitizedFrame \<Rightarrow> bool" where
  "valid_SanitizedFrame x \<longleftrightarrow>
     valid_utf8 (sf_ProtocolVersion x) \<and>
     valid_utf8 (sf_TrajectoryID x) \<and>
     valid_utf8 (sf_FrameID x) \<and>
     json_timestamp (sf_EventTimestamp x) \<and> snd (sf_EventTimestamp x) mod 60 = 0 \<and>
     valid_DeviceMetadata (sf_Device x) \<and>
     valid_ForegroundApp (sf_ForegroundApp x) \<and>
     valid_DecisionMetadata (sf_Allowlist x) \<and>
     list_all valid_SanitizedNode (sanitized_nodes (sf_UIRoot x)) \<and>
     valid_IntentMetadata (sf_Intent x) \<and>
     valid_ActionMetadata (sf_Action x) \<and>
     valid_UISettleMetadata (sf_UISettle x) \<and>
     valid_ScreenshotRef (sf_ScreenshotRef x) \<and>
     valid_SanitizerMetadata (sf_Sanitizer x) \<and>
     valid_SignatureMetadata (sf_Signature x) \<and>
     json_timestamp (in_UTC (sf_SanitizedAt x))"

section \<open>Fuel\<close>

text \<open>The height of a tree is enough fuel to encode it.\<close>

primrec raw_height :: "RawNode \<Rightarrow> nat" where
  "raw_height (RawNode i b c p r t th ts d dh ds k e f s h cs) = Suc (foldr max (map raw_height cs) 0)"

primrec sanitized_height :: "SanitizedNode \<Rightarrow> nat" where
  "sanitized_height (SanitizedNode i b c p r th ts dh ds k e f s h cs) = Suc (foldr max (map sanitized_height cs) 0)"

lemma foldr_max_le: "foldr max (map f cs) 0 \<le> (k::nat) \<longleftrightarrow> (\<forall>c\<in>set cs. f c \<le> k)"
  by (induction cs) auto

lemma raw_height_le: "raw_height n \<le> Suc k \<longleftrightarrow> (\<forall>c\<in>set (rn_Children n). raw_height c \<le> k)"
  by (cases n) (simp add: foldr_max_le)

lemma raw_height_pos: "raw_height n \<noteq> 0"
  by (cases n) simp

lemma sanitized_height_le: "sanitized_height n \<le> Suc k \<longleftrightarrow> (\<forall>c\<in>set (sn_Children n). sanitized_height c \<le> k)"
  by (cases n) (simp add: foldr_max_le)

lemma sanitized_height_pos: "sanitized_height n \<noteq> 0"
  by (cases n) simp

lemma RawNode_enc_fuel:
  "raw_height n \<le> k \<Longrightarrow> raw_height n \<le> k' \<Longrightarrow> cd_enc (RawNode_codec k) n = cd_enc (RawNode_codec k') n"
proof (induction k arbitrary: n k')
  case (Suc k)
  then obtain m where k': "k' = Suc m" using raw_height_pos by (cases k') auto
  have "map (cd_enc (RawNode_codec k)) (rn_Children n) = map (cd_enc (RawNode_codec m)) (rn_Children n)"
    using Suc k' by (auto simp: raw_height_le)
  then have "list_all2 (same_output (RawNode_rep n)) (RawNode_fields (RawNode_codec k)) (RawNode_fields (RawNode_codec m))"
    by (simp add: RawNode_fields_def same_output_refl same_output_slice RawNode_rep_def)
  then show ?case by (simp add: k' iso_codec_def struct_codec_def enc_fields_same)
qed (use raw_height_pos in simp)

lemma RawNode_dec_fuel: "d < k \<Longrightarrow> d < k' \<Longrightarrow> agree d (RawNode_codec k) (RawNode_codec k')"
proof (induction d arbitrary: k k' rule: less_induct)
  case (less d)
  then obtain m m' where k: "k = Suc m" "k' = Suc m'" by (cases k; cases k') auto
  show ?case
  proof (cases d)
    case 0
    then show ?thesis by (simp add: k agree_iso agree_struct_0)
  next
    case (Suc e)
    have "agree e (slice_codec (RawNode_codec m) zero_RawNode) (slice_codec (RawNode_codec m') zero_RawNode)"
      using less Suc k by (cases e) (auto intro: agree_slice agree_slice_0)
    then have "list_all2 (agree_field e) (RawNode_fields (RawNode_codec m)) (RawNode_fields (RawNode_codec m'))"
      by (simp add: RawNode_fields_def agree_refl agree_omitempty)
    then show ?thesis by (simp add: k Suc agree_iso agree_struct)
  qed
qed

lemma RawFrame_enc_fuel:
  assumes "raw_height (rf_UIRoot f) \<le> k" and "raw_height (rf_UIRoot f) \<le> k'"
  shows "cd_enc (RawFrame_codec k) f = cd_enc (RawFrame_codec k') f"
proof -
  have "list_all2 (same_output f) (RawFrame_fields (RawNode_codec k)) (RawFrame_fields (RawNode_codec k'))"
    using RawNode_enc_fuel [OF assms] by (simp add: RawFrame_fields_def same_output_refl same_output_required)
  then show ?thesis by (simp add: RawFrame_codec_def struct_codec_def enc_fields_same)
qed

lemma RawFrame_dec_fuel:
  assumes "d < k" and "d < k'"
  shows "agree d (RawFrame_codec k) (RawFrame_codec k')"
proof (cases d)
  case 0
  then show ?thesis by (simp add: RawFrame_codec_def agree_struct_0)
next
  case (Suc e)
  have "agree e (RawNode_codec k) (RawNode_codec k')" using assms Suc by (intro RawNode_dec_fuel) auto
  then have "list_all2 (agree_field e) (RawFrame_fields (RawNode_codec k)) (RawFrame_fields (RawNode_codec k'))"
    by (simp add: RawFrame_fields_def agree_refl agree_required)
  then show ?thesis by (simp add: Suc RawFrame_codec_def agree_struct)
qed

lemma SanitizedNode_enc_fuel:
  "sanitized_height n \<le> k \<Longrightarrow> sanitized_height n \<le> k' \<Longrightarrow> cd_enc (SanitizedNode_codec k) n = cd_enc (SanitizedNode_codec k') n"
proof (induction k arbitrary: n k')
  case (Suc k)
  then obtain m where k': "k' = Suc m" using sanitized_height_pos by (cases k') auto
  have "map (cd_enc (SanitizedNode_codec k)) (sn_Children n) = map (cd_enc (SanitizedNode_codec m)) (sn_Children n)"
    using Suc k' by (auto simp: sanitized_height_le)
  then have "list_all2 (same_output (SanitizedNode_rep n)) (SanitizedNode_fields (SanitizedNode_codec k)) (SanitizedNode_fields (SanitizedNode_codec m))"
    by (simp add: SanitizedNode_fields_def same_output_refl same_output_slice SanitizedNode_rep_def)
  then show ?case by (simp add: k' iso_codec_def struct_codec_def enc_fields_same)
qed (use sanitized_height_pos in simp)

lemma SanitizedNode_dec_fuel: "d < k \<Longrightarrow> d < k' \<Longrightarrow> agree d (SanitizedNode_codec k) (SanitizedNode_codec k')"
proof (induction d arbitrary: k k' rule: less_induct)
  case (less d)
  then obtain m m' where k: "k = Suc m" "k' = Suc m'" by (cases k; cases k') auto
  show ?case
  proof (cases d)
    case 0
    then show ?thesis by (simp add: k agree_iso agree_struct_0)
  next
    case (Suc e)
    have "agree e (slice_codec (SanitizedNode_codec m) zero_SanitizedNode) (slice_codec (SanitizedNode_codec m') zero_SanitizedNode)"
      using less Suc k by (cases e) (auto intro: agree_slice agree_slice_0)
    then have "list_all2 (agree_field e) (SanitizedNode_fields (SanitizedNode_codec m)) (SanitizedNode_fields (SanitizedNode_codec m'))"
      by (simp add: SanitizedNode_fields_def agree_refl agree_omitempty)
    then show ?thesis by (simp add: k Suc agree_iso agree_struct)
  qed
qed

lemma SanitizedFrame_enc_fuel:
  assumes "sanitized_height (sf_UIRoot f) \<le> k" and "sanitized_height (sf_UIRoot f) \<le> k'"
  shows "cd_enc (SanitizedFrame_codec k) f = cd_enc (SanitizedFrame_codec k') f"
proof -
  have "list_all2 (same_output f) (SanitizedFrame_fields (SanitizedNode_codec k)) (SanitizedFrame_fields (SanitizedNode_codec k'))"
    using SanitizedNode_enc_fuel [OF assms] by (simp add: SanitizedFrame_fields_def same_output_refl same_output_required)
  then show ?thesis by (simp add: SanitizedFrame_codec_def struct_codec_def enc_fields_same)
qed

lemma SanitizedFrame_dec_fuel:
  assumes "d < k" and "d < k'"
  shows "agree d (SanitizedFrame_codec k) (SanitizedFrame_codec k')"
proof (cases d)
  case 0
  then show ?thesis by (simp add: SanitizedFrame_codec_def agree_struct_0)
next
  case (Suc e)
  have "agree e (SanitizedNode_codec k) (SanitizedNode_codec k')" using assms Suc by (intro SanitizedNode_dec_fuel) auto
  then have "list_all2 (agree_field e) (SanitizedFrame_fields (SanitizedNode_codec k)) (SanitizedFrame_fields (SanitizedNode_codec k'))"
    by (simp add: SanitizedFrame_fields_def agree_refl agree_required)
  then show ?thesis by (simp add: Suc SanitizedFrame_codec_def agree_struct)
qed

section \<open>Soundness and round trips of the parts\<close>

lemma sound_parts [codec_sound]:
  "sound Bounds_codec" "sound DeviceMetadata_codec" "sound ForegroundApp_codec" "sound DecisionMetadata_codec" "sound IntentMetadata_codec" "sound ActionMetadata_codec" "sound UISettleMetadata_codec" "sound RedactionBox_codec" "sound ScreenshotRef_codec" "sound SanitizerMetadata_codec" "sound SignatureMetadata_codec"
  by (simp_all add: Bounds_codec_def DeviceMetadata_codec_def ForegroundApp_codec_def DecisionMetadata_codec_def IntentMetadata_codec_def ActionMetadata_codec_def UISettleMetadata_codec_def RedactionBox_codec_def ScreenshotRef_codec_def SanitizerMetadata_codec_def SignatureMetadata_codec_def codec_sound)

lemma sound_RawNode [codec_sound]: "sound (RawNode_codec k)"
  by (induction k) (simp_all add: RawNode_fields_def codec_sound)

lemma sound_SanitizedNode [codec_sound]: "sound (SanitizedNode_codec k)"
  by (induction k) (simp_all add: SanitizedNode_fields_def codec_sound)

lemma sound_RawFrame [codec_sound]: "sound (RawFrame_codec k)"
  by (simp add: RawFrame_codec_def RawFrame_fields_def codec_sound)

lemma sound_SanitizedFrame [codec_sound]: "sound (SanitizedFrame_codec k)"
  by (simp add: SanitizedFrame_codec_def SanitizedFrame_fields_def codec_sound)

lemma faithful_Bounds [codec_faithful]: "faithful Bounds_codec zero_Bounds (Suc d) b"
  unfolding Bounds_codec_def
  by (rule faithful_struct, (rule copies_intros)+) (simp_all add: zero_Bounds_def codec_faithful ascii_def)

lemma faithful_DeviceMetadata [codec_faithful]: "valid_DeviceMetadata x \<Longrightarrow> faithful DeviceMetadata_codec zero_DeviceMetadata (Suc d) x"
  unfolding DeviceMetadata_codec_def valid_DeviceMetadata_def
  by (rule faithful_struct, (rule copies_intros)+) (simp_all add: zero_DeviceMetadata_def codec_faithful list_all_iff ascii_def)

lemma faithful_ForegroundApp [codec_faithful]: "valid_ForegroundApp x \<Longrightarrow> faithful ForegroundApp_codec zero_ForegroundApp (Suc d) x"
  unfolding ForegroundApp_codec_def valid_ForegroundApp_def
  by (rule faithful_struct, (rule copies_intros)+) (simp_all add: zero_ForegroundApp_def codec_faithful list_all_iff ascii_def)

lemma faithful_DecisionMetadata [codec_faithful]: "valid_DecisionMetadata x \<Longrightarrow> faithful DecisionMetadata_codec zero_DecisionMetadata (Suc (Suc d)) x"
  unfolding DecisionMetadata_codec_def valid_DecisionMetadata_def
  by (rule faithful_struct, (rule copies_intros)+) (simp_all add: zero_DecisionMetadata_def codec_faithful list_all_iff ascii_def)

lemma faithful_IntentMetadata [codec_faithful]: "valid_IntentMetadata x \<Longrightarrow> faithful IntentMetadata_codec zero_IntentMetadata (Suc (Suc d)) x"
  unfolding IntentMetadata_codec_def valid_IntentMetadata_def
  by (rule faithful_struct, (rule copies_intros)+) (simp_all add: zero_IntentMetadata_def codec_faithful list_all_iff ascii_def)

lemma faithful_ActionMetadata [codec_faithful]: "valid_ActionMetadata x \<Longrightarrow> faithful ActionMetadata_codec zero_ActionMetadata (Suc (Suc d)) x"
  unfolding ActionMetadata_codec_def valid_ActionMetadata_def
  by (rule faithful_struct, (rule copies_intros)+) (simp_all add: zero_ActionMetadata_def codec_faithful list_all_iff ascii_def)

lemma faithful_UISettleMetadata [codec_faithful]: "valid_UISettleMetadata x \<Longrightarrow> faithful UISettleMetadata_codec zero_UISettleMetadata (Suc d) x"
  unfolding UISettleMetadata_codec_def valid_UISettleMetadata_def
  by (rule faithful_struct, (rule copies_intros)+) (simp_all add: zero_UISettleMetadata_def codec_faithful list_all_iff ascii_def)

lemma faithful_RedactionBox [codec_faithful]: "valid_RedactionBox x \<Longrightarrow> faithful RedactionBox_codec zero_RedactionBox (Suc (Suc d)) x"
  unfolding RedactionBox_codec_def valid_RedactionBox_def
  by (rule faithful_struct, (rule copies_intros)+) (simp_all add: zero_RedactionBox_def codec_faithful list_all_iff ascii_def)

lemma faithful_ScreenshotRef [codec_faithful]: "valid_ScreenshotRef x \<Longrightarrow> faithful ScreenshotRef_codec zero_ScreenshotRef (Suc (Suc (Suc (Suc d)))) x"
  unfolding ScreenshotRef_codec_def valid_ScreenshotRef_def
  by (rule faithful_struct, (rule copies_intros)+) (simp_all add: zero_ScreenshotRef_def codec_faithful list_all_iff ascii_def)

lemma faithful_SanitizerMetadata [codec_faithful]: "valid_SanitizerMetadata x \<Longrightarrow> faithful SanitizerMetadata_codec zero_SanitizerMetadata (Suc (Suc d)) x"
  unfolding SanitizerMetadata_codec_def valid_SanitizerMetadata_def
  by (rule faithful_struct, (rule copies_intros)+) (simp_all add: zero_SanitizerMetadata_def codec_faithful list_all_iff ascii_def)

lemma faithful_SignatureMetadata [codec_faithful]: "valid_SignatureMetadata x \<Longrightarrow> faithful SignatureMetadata_codec zero_SignatureMetadata (Suc d) x"
  unfolding SignatureMetadata_codec_def valid_SignatureMetadata_def
  by (rule faithful_struct, (rule copies_intros)+) (simp_all add: zero_SignatureMetadata_def codec_faithful list_all_iff ascii_def)

section \<open>Round trips of trees and frames\<close>

lemma RawNode_rep_abs: "RawNode_abs (RawNode_rep n) = n"
  by (cases n) (simp add: RawNode_abs_def RawNode_rep_def)

lemma faithful_RawNode [codec_faithful]:
  "raw_height n \<le> k \<Longrightarrow> list_all valid_RawNode (raw_nodes n) \<Longrightarrow> faithful (RawNode_codec k) zero_RawNode (2 * k) n"
proof (induction k arbitrary: n)
  case (Suc k)
  have kids: "\<forall>c\<in>set (rn_Children n). faithful (RawNode_codec k) zero_RawNode (2 * k) c"
    using Suc by (auto simp: raw_height_le list_all_iff raw_nodes_unfold [of n])
  have n: "valid_RawNode n" using Suc.prems(2) raw_nodes_unfold [of n] by simp
  have "faithful (struct_codec (RawNode_fields (RawNode_codec k))) (RawNode_rep zero_RawNode) (Suc (Suc (2 * k))) (RawNode_rep n)"
    unfolding RawNode_fields_def
    by (rule faithful_struct, (rule copies_intros)+)
      (use n kids in \<open>simp_all add: RawNode_rep_def valid_RawNode_def zero_RawNode_def codec_faithful ascii_def\<close>)
  then show ?case using RawNode_rep_abs by (simp add: faithful_iso)
qed (use raw_height_pos in simp)

lemma SanitizedNode_rep_abs: "SanitizedNode_abs (SanitizedNode_rep n) = n"
  by (cases n) (simp add: SanitizedNode_abs_def SanitizedNode_rep_def)

lemma faithful_SanitizedNode [codec_faithful]:
  "sanitized_height n \<le> k \<Longrightarrow> list_all valid_SanitizedNode (sanitized_nodes n) \<Longrightarrow> faithful (SanitizedNode_codec k) zero_SanitizedNode (2 * k) n"
proof (induction k arbitrary: n)
  case (Suc k)
  have kids: "\<forall>c\<in>set (sn_Children n). faithful (SanitizedNode_codec k) zero_SanitizedNode (2 * k) c"
    using Suc by (auto simp: sanitized_height_le list_all_iff sanitized_nodes_unfold [of n])
  have n: "valid_SanitizedNode n" using Suc.prems(2) sanitized_nodes_unfold [of n] by simp
  have "faithful (struct_codec (SanitizedNode_fields (SanitizedNode_codec k))) (SanitizedNode_rep zero_SanitizedNode) (Suc (Suc (2 * k))) (SanitizedNode_rep n)"
    unfolding SanitizedNode_fields_def
    by (rule faithful_struct, (rule copies_intros)+)
      (use n kids in \<open>simp_all add: SanitizedNode_rep_def valid_SanitizedNode_def zero_SanitizedNode_def codec_faithful ascii_def\<close>)
  then show ?case using SanitizedNode_rep_abs by (simp add: faithful_iso)
qed (use sanitized_height_pos in simp)

lemma faithful_RawFrame:
  assumes "valid_RawFrame f" and "raw_height (rf_UIRoot f) \<le> k" and "2 * k \<le> Suc (Suc (Suc (Suc d)))"
  shows "faithful (RawFrame_codec k) zero_RawFrame (Suc (Suc (Suc (Suc (Suc d))))) f"
proof -
  have "faithful (RawNode_codec k) zero_RawNode (Suc (Suc (Suc (Suc d)))) (rf_UIRoot f)"
    using assms by (auto simp: valid_RawFrame_def text_RawFrame_def intro: faithful_RawNode faithful_mono)
  then show ?thesis
    unfolding RawFrame_codec_def RawFrame_fields_def
    by - (rule faithful_struct, (rule copies_intros)+,
      use assms(1) in \<open>simp_all add: valid_RawFrame_def text_RawFrame_def zero_RawFrame_def codec_faithful list_all_iff ascii_def\<close>)
qed

lemma faithful_SanitizedFrame:
  assumes "valid_SanitizedFrame f" and "sanitized_height (sf_UIRoot f) \<le> k" and "2 * k \<le> Suc (Suc (Suc (Suc d)))"
  shows "faithful (SanitizedFrame_codec k) zero_SanitizedFrame (Suc (Suc (Suc (Suc (Suc d))))) f"
proof -
  have "faithful (SanitizedNode_codec k) zero_SanitizedNode (Suc (Suc (Suc (Suc d)))) (sf_UIRoot f)"
    using assms by (auto simp: valid_SanitizedFrame_def intro: faithful_SanitizedNode faithful_mono)
  then show ?thesis
    unfolding SanitizedFrame_codec_def SanitizedFrame_fields_def
    by - (rule faithful_struct, (rule copies_intros)+,
      use assms(1) in \<open>simp_all add: valid_SanitizedFrame_def zero_SanitizedFrame_def codec_faithful list_all_iff ascii_def\<close>)
qed

section \<open>Marshal and Unmarshal\<close>

definition RawFrame_Marshal :: "RawFrame \<Rightarrow> string + bytes" where
  "RawFrame_Marshal f =
     (case cd_enc (RawFrame_codec (raw_height (rf_UIRoot f))) f of
        None \<Rightarrow> Inl ''json: error calling MarshalJSON for type time.Time''
      | Some j \<Rightarrow> Inr (json_print j))"

definition RawFrame_Unmarshal :: "bytes \<Rightarrow> string + RawFrame" where
  "RawFrame_Unmarshal data =
     (case json_parse data of
        None \<Rightarrow> Inl ''invalid JSON''
      | Some j \<Rightarrow>
          (case cd_dec (RawFrame_codec (Suc (json_depth j))) j zero_RawFrame of
             None \<Rightarrow> Inl ''cannot unmarshal into RawFrame''
           | Some f \<Rightarrow> Inr f))"

definition SanitizedFrame_Marshal :: "SanitizedFrame \<Rightarrow> string + bytes" where
  "SanitizedFrame_Marshal f =
     (case cd_enc (SanitizedFrame_codec (sanitized_height (sf_UIRoot f))) f of
        None \<Rightarrow> Inl ''json: error calling MarshalJSON for type time.Time''
      | Some j \<Rightarrow> Inr (json_print j))"

definition SanitizedFrame_Unmarshal :: "bytes \<Rightarrow> string + SanitizedFrame" where
  "SanitizedFrame_Unmarshal data =
     (case json_parse data of
        None \<Rightarrow> Inl ''invalid JSON''
      | Some j \<Rightarrow>
          (case cd_dec (SanitizedFrame_codec (Suc (json_depth j))) j zero_SanitizedFrame of
             None \<Rightarrow> Inl ''cannot unmarshal into SanitizedFrame''
           | Some f \<Rightarrow> Inr f))"

lemma RawFrame_roundtrip:
  assumes "valid_RawFrame f" and "2 * raw_height (rf_UIRoot f) < maxNestingDepth"
  shows "\<exists>line. RawFrame_Marshal f = Inr line \<and> RawFrame_Unmarshal line = Inr f"
proof -
  let ?h = "raw_height (rf_UIRoot f)"
  obtain d where d: "Suc (Suc (Suc (Suc (Suc d)))) = maxNestingDepth" by (rule that [of 9995]) (simp add: maxNestingDepth_def)
  have "faithful (RawFrame_codec ?h) zero_RawFrame (Suc (Suc (Suc (Suc (Suc d))))) f"
    using assms d by (intro faithful_RawFrame) auto
  then obtain j where j: "cd_enc (RawFrame_codec ?h) f = Some j" "json_depth j \<le> maxNestingDepth"
    unfolding d by (auto simp: faithful_def)
  define k where "k = Suc (?h + json_depth j)"
  have "faithful (RawFrame_codec k) zero_RawFrame (Suc (Suc (Suc (Suc (Suc (2 * k)))))) f"
    using assms(1) by (intro faithful_RawFrame) (auto simp: k_def)
  moreover have "cd_enc (RawFrame_codec k) f = Some j"
    using RawFrame_enc_fuel [of f ?h k] j(1) by (simp add: k_def)
  ultimately have "cd_dec (RawFrame_codec k) j zero_RawFrame = Some f" by (simp add: faithful_def)
  moreover have "agree (json_depth j) (RawFrame_codec (Suc (json_depth j))) (RawFrame_codec k)"
    by (rule RawFrame_dec_fuel) (simp_all add: k_def)
  ultimately have dec: "cd_dec (RawFrame_codec (Suc (json_depth j))) j zero_RawFrame = Some f" by (simp add: agree_def)
  have "json_wf j" using sound_RawFrame j(1) by (auto simp: sound_def)
  then have "json_parse (json_print j) = Some j" using j(2) by (rule json_parse_print)
  with dec j(1) show ?thesis by (simp add: RawFrame_Marshal_def RawFrame_Unmarshal_def)
qed

lemma SanitizedFrame_roundtrip:
  assumes "valid_SanitizedFrame f" and "2 * sanitized_height (sf_UIRoot f) < maxNestingDepth"
  shows "\<exists>line. SanitizedFrame_Marshal f = Inr line \<and> SanitizedFrame_Unmarshal line = Inr f"
proof -
  let ?h = "sanitized_height (sf_UIRoot f)"
  obtain d where d: "Suc (Suc (Suc (Suc (Suc d)))) = maxNestingDepth" by (rule that [of 9995]) (simp add: maxNestingDepth_def)
  have "faithful (SanitizedFrame_codec ?h) zero_SanitizedFrame (Suc (Suc (Suc (Suc (Suc d))))) f"
    using assms d by (intro faithful_SanitizedFrame) auto
  then obtain j where j: "cd_enc (SanitizedFrame_codec ?h) f = Some j" "json_depth j \<le> maxNestingDepth"
    unfolding d by (auto simp: faithful_def)
  define k where "k = Suc (?h + json_depth j)"
  have "faithful (SanitizedFrame_codec k) zero_SanitizedFrame (Suc (Suc (Suc (Suc (Suc (2 * k)))))) f"
    using assms(1) by (intro faithful_SanitizedFrame) (auto simp: k_def)
  moreover have "cd_enc (SanitizedFrame_codec k) f = Some j"
    using SanitizedFrame_enc_fuel [of f ?h k] j(1) by (simp add: k_def)
  ultimately have "cd_dec (SanitizedFrame_codec k) j zero_SanitizedFrame = Some f" by (simp add: faithful_def)
  moreover have "agree (json_depth j) (SanitizedFrame_codec (Suc (json_depth j))) (SanitizedFrame_codec k)"
    by (rule SanitizedFrame_dec_fuel) (simp_all add: k_def)
  ultimately have dec: "cd_dec (SanitizedFrame_codec (Suc (json_depth j))) j zero_SanitizedFrame = Some f" by (simp add: agree_def)
  have "json_wf j" using sound_SanitizedFrame j(1) by (auto simp: sound_def)
  then have "json_parse (json_print j) = Some j" using j(2) by (rule json_parse_print)
  with dec j(1) show ?thesis by (simp add: SanitizedFrame_Marshal_def SanitizedFrame_Unmarshal_def)
qed

section \<open>When encoding fails\<close>

lemma writes_parts [codec_writes]:
  "writes Bounds_codec x0" "writes DeviceMetadata_codec x1" "writes ForegroundApp_codec x2" "writes DecisionMetadata_codec x3" "writes IntentMetadata_codec x4" "writes ActionMetadata_codec x5" "writes UISettleMetadata_codec x6" "writes RedactionBox_codec x7" "writes ScreenshotRef_codec x8" "writes SanitizerMetadata_codec x9" "writes SignatureMetadata_codec x10"
  by (simp_all add: Bounds_codec_def DeviceMetadata_codec_def ForegroundApp_codec_def DecisionMetadata_codec_def IntentMetadata_codec_def ActionMetadata_codec_def UISettleMetadata_codec_def RedactionBox_codec_def ScreenshotRef_codec_def SanitizerMetadata_codec_def SignatureMetadata_codec_def codec_writes)

lemma writes_RawNode: "raw_height n \<le> k \<Longrightarrow> writes (RawNode_codec k) n"
proof (induction k arbitrary: n)
  case (Suc k)
  then have "\<forall>c\<in>set (rn_Children n). writes (RawNode_codec k) c" by (auto simp: raw_height_le)
  then show ?case by (simp add: RawNode_fields_def RawNode_rep_def codec_writes)
qed (use raw_height_pos in simp)

text \<open>Encoding a frame fails only on a time outside the range of RFC 3339.\<close>

lemma RawFrame_Marshal_ok_iff: "is_ok (RawFrame_Marshal f) \<longleftrightarrow> json_timestamp (rf_EventTimestamp f)"
proof -
  have "writes (RawFrame_codec (raw_height (rf_UIRoot f))) f \<longleftrightarrow> json_timestamp (rf_EventTimestamp f)"
    using writes_RawNode [of "rf_UIRoot f" "raw_height (rf_UIRoot f)"]
    by (simp add: RawFrame_codec_def RawFrame_fields_def codec_writes)
  then show ?thesis by (auto simp: RawFrame_Marshal_def writes_def split: option.splits)
qed

text \<open>The text of a frame is one line without control characters.\<close>

lemma RawFrame_Marshal_printable:
  assumes "RawFrame_Marshal f = Inr line"
  shows "list_all printable line"
proof -
  obtain j where j: "cd_enc (RawFrame_codec (raw_height (rf_UIRoot f))) f = Some j" "line = json_print j"
    using assms by (auto simp: RawFrame_Marshal_def split: option.splits)
  have "json_wf j" using sound_RawFrame j(1) by (auto simp: sound_def)
  then show ?thesis unfolding j(2) by (rule print_printable(1))
qed

lemma writes_SanitizedNode: "sanitized_height n \<le> k \<Longrightarrow> writes (SanitizedNode_codec k) n"
proof (induction k arbitrary: n)
  case (Suc k)
  then have "\<forall>c\<in>set (sn_Children n). writes (SanitizedNode_codec k) c" by (auto simp: sanitized_height_le)
  then show ?case by (simp add: SanitizedNode_fields_def SanitizedNode_rep_def codec_writes)
qed (use sanitized_height_pos in simp)

text \<open>Encoding a frame fails only on a time outside the range of RFC 3339.\<close>

lemma SanitizedFrame_Marshal_ok_iff: "is_ok (SanitizedFrame_Marshal f) \<longleftrightarrow> json_timestamp (sf_EventTimestamp f) \<and> json_timestamp (in_UTC (sf_SanitizedAt f))"
proof -
  have "writes (SanitizedFrame_codec (sanitized_height (sf_UIRoot f))) f \<longleftrightarrow> json_timestamp (sf_EventTimestamp f) \<and> json_timestamp (in_UTC (sf_SanitizedAt f))"
    using writes_SanitizedNode [of "sf_UIRoot f" "sanitized_height (sf_UIRoot f)"]
    by (simp add: SanitizedFrame_codec_def SanitizedFrame_fields_def codec_writes)
  then show ?thesis by (auto simp: SanitizedFrame_Marshal_def writes_def split: option.splits)
qed

text \<open>The text of a frame is one line without control characters.\<close>

lemma SanitizedFrame_Marshal_printable:
  assumes "SanitizedFrame_Marshal f = Inr line"
  shows "list_all printable line"
proof -
  obtain j where j: "cd_enc (SanitizedFrame_codec (sanitized_height (sf_UIRoot f))) f = Some j" "line = json_print j"
    using assms by (auto simp: SanitizedFrame_Marshal_def split: option.splits)
  have "json_wf j" using sound_SanitizedFrame j(1) by (auto simp: sound_def)
  then show ?thesis unfolding j(2) by (rule print_printable(1))
qed

section \<open>What a decoded frame satisfies\<close>

lemma keeps_DeviceMetadata: "keeps valid_DeviceMetadata DeviceMetadata_codec"
  unfolding DeviceMetadata_codec_def
  by (rule keeps_struct) (auto intro!: keeps_text_fields keeps_fields [OF keeps_True [where cd = Bounds_codec]] simp: valid_DeviceMetadata_def)

lemma keeps_ForegroundApp: "keeps valid_ForegroundApp ForegroundApp_codec"
  unfolding ForegroundApp_codec_def
  by (rule keeps_struct) (auto intro!: keeps_text_fields keeps_fields [OF keeps_True [where cd = Bounds_codec]] simp: valid_ForegroundApp_def)

lemma keeps_DecisionMetadata: "keeps valid_DecisionMetadata DecisionMetadata_codec"
  unfolding DecisionMetadata_codec_def
  by (rule keeps_struct) (auto intro!: keeps_text_fields keeps_fields [OF keeps_True [where cd = Bounds_codec]] simp: valid_DecisionMetadata_def)

lemma keeps_IntentMetadata: "keeps valid_IntentMetadata IntentMetadata_codec"
  unfolding IntentMetadata_codec_def
  by (rule keeps_struct) (auto intro!: keeps_text_fields keeps_fields [OF keeps_True [where cd = Bounds_codec]] simp: valid_IntentMetadata_def)

lemma keeps_ActionMetadata: "keeps valid_ActionMetadata ActionMetadata_codec"
  unfolding ActionMetadata_codec_def
  by (rule keeps_struct) (auto intro!: keeps_text_fields keeps_fields [OF keeps_True [where cd = Bounds_codec]] simp: valid_ActionMetadata_def)

lemma keeps_UISettleMetadata: "keeps valid_UISettleMetadata UISettleMetadata_codec"
  unfolding UISettleMetadata_codec_def
  by (rule keeps_struct) (auto intro!: keeps_text_fields keeps_fields [OF keeps_True [where cd = Bounds_codec]] simp: valid_UISettleMetadata_def)

lemma keeps_RedactionBox: "keeps valid_RedactionBox RedactionBox_codec"
  unfolding RedactionBox_codec_def
  by (rule keeps_struct) (auto intro!: keeps_text_fields keeps_fields [OF keeps_True [where cd = Bounds_codec]] simp: valid_RedactionBox_def)

lemma zero_valid: "valid_utf8 []" "valid_RedactionBox zero_RedactionBox"
  by (simp_all add: valid_RedactionBox_def zero_RedactionBox_def)

lemma keeps_ScreenshotRef: "keeps valid_ScreenshotRef ScreenshotRef_codec"
  unfolding ScreenshotRef_codec_def
  by (rule keeps_struct) (auto intro!: keeps_text_fields keeps_fields [OF keeps_True [where cd = Bounds_codec]] keeps_fields [OF keeps_slice [OF keeps_RedactionBox zero_valid(2)]] simp: valid_ScreenshotRef_def)

lemma keeps_SanitizerMetadata: "keeps valid_SanitizerMetadata SanitizerMetadata_codec"
  unfolding SanitizerMetadata_codec_def
  by (rule keeps_struct) (auto intro!: keeps_text_fields keeps_fields [OF keeps_True [where cd = Bounds_codec]] simp: valid_SanitizerMetadata_def)

lemma keeps_SignatureMetadata: "keeps valid_SignatureMetadata SignatureMetadata_codec"
  unfolding SignatureMetadata_codec_def
  by (rule keeps_struct) (auto intro!: keeps_text_fields keeps_fields [OF keeps_True [where cd = Bounds_codec]] simp: valid_SignatureMetadata_def)

lemma RawNode_abs_valid:
  "list_all valid_RawNode (raw_nodes (RawNode_abs s)) \<longleftrightarrow>
     valid_RawNode (RawNode_abs s) \<and> list_all (\<lambda>c. list_all valid_RawNode (raw_nodes c)) (rs_Children s)"
  by (subst raw_nodes_unfold) (auto simp: list_all_iff RawNode_abs_def)

lemmas valid_RawNode_abs = valid_RawNode_def [of "RawNode_abs s" for s, unfolded RawNode_abs_def, simplified, folded RawNode_abs_def]

lemma zero_RawNode_valid: "list_all valid_RawNode (raw_nodes zero_RawNode)"
  by (simp add: zero_RawNode_def valid_RawNode_def)

lemma keeps_RawNode: "keeps (\<lambda>n. list_all valid_RawNode (raw_nodes n)) (RawNode_codec k)"
proof (induction k)
  case (Suc k)
  have "keeps (\<lambda>s. list_all valid_RawNode (raw_nodes (RawNode_abs s))) (struct_codec (RawNode_fields (RawNode_codec k)))"
    unfolding RawNode_abs_valid RawNode_fields_def
    by (rule keeps_struct)
      (auto intro!: keeps_text_fields keeps_fields [OF keeps_True [where cd = Bounds_codec]] keeps_fields [OF keeps_slice [OF Suc zero_RawNode_valid]]
        simp: valid_RawNode_abs)
  then show ?case by (auto intro!: keeps_iso simp: RawNode_rep_abs)
qed (simp add: keeps_fail)

lemma keeps_RawFrame: "keeps text_RawFrame (RawFrame_codec k)"
  unfolding RawFrame_codec_def RawFrame_fields_def
  by (rule keeps_struct)
    (auto intro!: keeps_text_fields keeps_fields [OF keeps_True [where cd = Bounds_codec]] keeps_fields [OF keeps_time] keeps_fields [OF keeps_RawNode]
      keeps_fields [OF keeps_DeviceMetadata]
      keeps_fields [OF keeps_ForegroundApp]
      keeps_fields [OF keeps_IntentMetadata]
      keeps_fields [OF keeps_ActionMetadata]
      keeps_fields [OF keeps_UISettleMetadata]
      keeps_fields [OF keeps_ScreenshotRef]
      keeps_fields [OF keeps_SignatureMetadata]
      simp: text_RawFrame_def)

lemma decoded_text:
  assumes "RawFrame_Unmarshal data = Inr f"
  shows "text_RawFrame f"
proof -
  obtain k j where "cd_dec (RawFrame_codec k) j zero_RawFrame = Some f"
    using assms by (auto simp: RawFrame_Unmarshal_def split: option.splits)
  moreover have "text_RawFrame zero_RawFrame"
    using zero_RawNode_valid
    by (simp add: text_RawFrame_def zero_RawFrame_def in_UTC_def zero_DeviceMetadata_def valid_DeviceMetadata_def
        zero_ForegroundApp_def valid_ForegroundApp_def zero_IntentMetadata_def valid_IntentMetadata_def
        zero_ActionMetadata_def valid_ActionMetadata_def zero_UISettleMetadata_def valid_UISettleMetadata_def
        zero_ScreenshotRef_def valid_ScreenshotRef_def zero_SignatureMetadata_def valid_SignatureMetadata_def)
  ultimately show ?thesis using keeps_RawFrame by (auto simp: keeps_def)
qed

text \<open>The time of a decoded frame lies in a year that can be written.\<close>

definition year_writable :: "RawFrame \<Rightarrow> bool" where
  "year_writable f \<longleftrightarrow> 0 \<le> local_year (rf_EventTimestamp f) \<and> local_year (rf_EventTimestamp f) \<le> 9999"

lemma keeps_year_writable: "keeps year_writable (RawFrame_codec k)"
proof -
  have year: "0 \<le> local_year ts' \<and> local_year ts' \<le> 9999"
    if "cd_dec time_codec j ts = Some ts'" "0 \<le> local_year ts" "local_year ts \<le> 9999" for j ts ts'
    using that keeps_time_year unfolding keeps_def by blast
  have "list_all (keeps_field year_writable) (RawFrame_fields (RawNode_codec k))"
    by (auto simp: RawFrame_fields_def keeps_field_def required_def omitempty_def field_def year_writable_def
        simp del: split_paired_All split_paired_Ex dest: year)
  then show ?thesis unfolding RawFrame_codec_def by (rule keeps_struct)
qed

lemma decoded_writable_iff:
  assumes "RawFrame_Unmarshal data = Inr f"
  shows "json_timestamp (rf_EventTimestamp f) \<longleftrightarrow> \<bar>snd (rf_EventTimestamp f)\<bar> < 86400"
proof -
  obtain k j where "cd_dec (RawFrame_codec k) j zero_RawFrame = Some f"
    using assms by (auto simp: RawFrame_Unmarshal_def split: option.splits)
  moreover have "local_year (in_UTC 0) = 1" by code_simp
  then have "year_writable zero_RawFrame" by (simp add: year_writable_def zero_RawFrame_def)
  ultimately have "year_writable f" using keeps_year_writable by (auto simp: keeps_def)
  then show ?thesis by (simp add: json_timestamp_def year_writable_def)
qed

end
