(* ===== verification/Go_Path.thy ===== *)
theory Go_Path
  imports Go_Strings
begin

text \<open>
  What the program uses of Go's \<open>path/filepath\<close> package on Unix: lexical cleaning of a path,
  its directory, base name and extension, and joining. The file system of the storage sink
  identifies a file by its cleaned path.
\<close>

abbreviation slash :: char where "slash \<equiv> CHR ''/''"
abbreviation dot :: char where "dot \<equiv> CHR ''.''"

fun split_on :: "char \<Rightarrow> string \<Rightarrow> string list" where
  "split_on c [] = [[]]"
| "split_on c (x # xs) =
     (if x = c then [] # split_on c xs
      else (case split_on c xs of [] \<Rightarrow> [[x]] | y # ys \<Rightarrow> (x # y) # ys))"

fun join_with :: "string \<Rightarrow> string list \<Rightarrow> string" where
  "join_with sep [] = []"
| "join_with sep [x] = x"
| "join_with sep (x # y # ys) = x @ sep @ join_with sep (y # ys)"

text \<open>The elements of a cleaned path; \<open>out\<close> holds the elements kept so far, last first.\<close>

fun clean_elems :: "bool \<Rightarrow> string list \<Rightarrow> string list \<Rightarrow> string list" where
  "clean_elems rooted out [] = rev out"
| "clean_elems rooted out (e # es) =
     (if e = [] \<or> e = [dot] then clean_elems rooted out es
      else if e = [dot, dot] then
        (case out of
           o' # out' \<Rightarrow> if o' = [dot, dot] then clean_elems rooted ([dot, dot] # out) es
                       else clean_elems rooted out' es
         | [] \<Rightarrow> if rooted then clean_elems rooted [] es else clean_elems rooted [[dot, dot]] es)
      else clean_elems rooted (e # out) es)"

definition Clean :: "string \<Rightarrow> string" where
  "Clean path =
     (let rooted = (case path of [] \<Rightarrow> False | c # _ \<Rightarrow> c = slash);
          elems = clean_elems rooted [] (split_on slash path);
          body = join_with [slash] elems
      in if rooted then slash # body else if body = [] then [dot] else body)"

text \<open>The part up to and including the last slash, and the part after it.\<close>

definition after_last_slash :: "string \<Rightarrow> string" where
  "after_last_slash path = rev (takeWhile (\<lambda>c. c \<noteq> slash) (rev path))"

definition upto_last_slash :: "string \<Rightarrow> string" where
  "upto_last_slash path = rev (dropWhile (\<lambda>c. c \<noteq> slash) (rev path))"

definition Dir :: "string \<Rightarrow> string" where
  "Dir path = Clean (upto_last_slash path)"

definition Base :: "string \<Rightarrow> string" where
  "Base path =
     (if path = [] then [dot]
      else let path = rev (dropWhile (\<lambda>c. c = slash) (rev path));
               base = after_last_slash path
           in if base = [] then [slash] else base)"

definition Ext :: "string \<Rightarrow> string" where
  "Ext path =
     (let base = after_last_slash path
      in if dot \<in> set base then dot # rev (takeWhile (\<lambda>c. c \<noteq> dot) (rev base)) else [])"

definition Join :: "string list \<Rightarrow> string" where
  "Join elems =
     (case dropWhile (\<lambda>e. e = []) elems of [] \<Rightarrow> [] | es \<Rightarrow> Clean (join_with [slash] es))"

definition TrimSuffix :: "string \<Rightarrow> string \<Rightarrow> string" where
  "TrimSuffix s suffix =
     (if length suffix \<le> length s \<and> drop (length s - length suffix) s = suffix
      then take (length s - length suffix) s else s)"

lemma path_examples:
  "map Clean [''a//b/../c/./d'', ''/../a'', ''../../a/..'', [], ''/'', ''./x'', ''a/..''] =
     [''a/c/d'', ''/a'', ''../..'', ''.'', ''/'', ''x'', ''.'']"
  "map Dir [''data/frames.jsonl'', ''frames.jsonl'', ''/x'', ''/a/b/''] = [''data'', ''.'', ''/'', ''/a/b'']"
  "map Ext [''frames.jsonl'', ''a.b/c'', ''x.'', ''.jsonl''] = [''.jsonl'', [], ''.'', ''.jsonl'']"
  "map Base [''data/frames.jsonl'', ''/'', ''a/b//''] = [''frames.jsonl'', ''/'', ''b'']"
  by code_simp+

end
