(* ===== verification/Storage.thy ===== *)
theory Storage
  imports Trajectory Go_Path "HOL-Library.Sublist"
begin

text \<open>
  \<open>internal/storage/storage.go\<close>: the JSON-lines sink with rotation. The file system is a map
  from cleaned paths to files; the sink's open handle is the path of the file it was opened
  on, which is sound because the sink closes the file before it renames it and one process
  owns the directory. What the operating system does during one call is an environment: the
  clock, and which of the calls fail; the three places that call \<open>os.Stat\<close> fail independently.
  \<open>json.Marshal\<close> on the frame type is an argument. Sizes are integers without a bound: the
  source's \<open>int64\<close> sums of a file size and the length of a line wrap only for files of
  8 exbibytes, which no file system holds.
\<close>

section \<open>Files\<close>

record os_file =
  fl_content :: bytes
  fl_mtime :: time

type_synonym fs = "string \<rightharpoonup> os_file"

record os_env =
  oe_Now :: time
  oe_CtxErr :: bool
  oe_StatErr :: bool  \<comment> \<open>of the sink's path, in \<open>ensureWriter\<close>\<close>
  oe_RotateStatErr :: bool  \<comment> \<open>of the sink's path, in \<open>rotatePathLocked\<close>\<close>
  oe_ArchiveStatErr :: "string \<Rightarrow> bool"  \<comment> \<open>of an archive name\<close>
  oe_RenameErr :: bool
  oe_OpenErr :: bool
  oe_FStatErr :: bool
  oe_CloseErr :: bool
  oe_WriteErr :: "nat option"  \<comment> \<open>the number of bytes written before the failure\<close>
  oe_SyncErr :: bool

datatype stat_result = StatOk os_file | StatNotExist | StatErr

definition os_Stat :: "bool \<Rightarrow> fs \<Rightarrow> string \<Rightarrow> stat_result" where
  "os_Stat fault fs path =
     (if fault then StatErr
      else case fs (Clean path) of None \<Rightarrow> StatNotExist | Some f \<Rightarrow> StatOk f)"

definition os_Rename :: "fs \<Rightarrow> string \<Rightarrow> string \<Rightarrow> fs" where
  "os_Rename fs old new = (fs(Clean old := None))(Clean new := fs (Clean old))"

text \<open>\<open>O_CREATE | O_WRONLY | O_APPEND\<close>, and a write through the handle.\<close>

definition open_append :: "time \<Rightarrow> fs \<Rightarrow> string \<Rightarrow> fs" where
  "open_append now fs path =
     (case fs (Clean path) of None \<Rightarrow> fs(Clean path \<mapsto> \<lparr>fl_content = [], fl_mtime = now\<rparr>) | Some _ \<Rightarrow> fs)"

definition append_bytes :: "time \<Rightarrow> fs \<Rightarrow> string \<Rightarrow> bytes \<Rightarrow> fs" where
  "append_bytes now fs handle bs =
     fs(handle \<mapsto> \<lparr>fl_content = (case fs handle of None \<Rightarrow> [] | Some f \<Rightarrow> fl_content f) @ bs, fl_mtime = now\<rparr>)"

section \<open>The sink\<close>

datatype storage_error =
    ErrUnsafeFrame
  | ErrContext
  | ErrStorage string

record JSONLOptions =
  jo_MaxBytes :: int
  jo_RotateDaily :: bool
  jo_Sync :: bool

definition DefaultJSONLOptions :: JSONLOptions where
  "DefaultJSONLOptions = \<lparr>jo_MaxBytes = 0, jo_RotateDaily = False, jo_Sync = True\<rparr>"

record JSONLSink =
  js_path :: string
  js_opts :: JSONLOptions
  js_file :: "string option"
  js_size :: int
  js_day :: string
  js_now :: "(time \<Rightarrow> time)"  \<comment> \<open>the clock, as a function of the system time\<close>

definition NewJSONLSinkWithOptions :: "bool \<Rightarrow> string \<Rightarrow> JSONLOptions \<Rightarrow> storage_error + JSONLSink" where
  "NewJSONLSinkWithOptions mkdir_fails path opts =
     (if path = [] then Inl (ErrStorage ''storage path is required'')
      else if mkdir_fails then Inl (ErrStorage ''create storage directory'')
      else if jo_MaxBytes opts < 0 then Inl (ErrStorage ''storage max bytes must be non-negative'')
      else Inr \<lparr>js_path = path, js_opts = opts, js_file = None, js_size = 0, js_day = [], js_now = id\<rparr>)"

definition NewJSONLSink :: "bool \<Rightarrow> string \<Rightarrow> storage_error + JSONLSink" where
  "NewJSONLSink mkdir_fails path = NewJSONLSinkWithOptions mkdir_fails path DefaultJSONLOptions"

definition SetNowForTest :: "JSONLSink \<Rightarrow> (time \<Rightarrow> time) option \<Rightarrow> JSONLSink" where
  "SetNowForTest s now = s\<lparr>js_now := (case now of None \<Rightarrow> id | Some f \<Rightarrow> f)\<rparr>"

definition sink_Path :: "JSONLSink \<Rightarrow> string" where
  "sink_Path s = js_path s"

definition validateSanitizedFrame :: "SanitizedFrame \<Rightarrow> storage_error option" where
  "validateSanitizedFrame frame =
     (if sm_SanitizerVersion (sf_Sanitizer frame) = [] \<or> sm_Decision (sf_Sanitizer frame) \<noteq> DecisionAccept
      then Some ErrUnsafeFrame
      else if IsZero (sf_SanitizedAt frame) then Some ErrUnsafeFrame
      else None)"

section \<open>Rotation\<close>

definition archiveStamp :: "string \<Rightarrow> time \<Rightarrow> bool \<Rightarrow> string" where
  "archiveStamp dataDay now dayBoundary =
     (if dayBoundary \<and> dataDay \<noteq> [] then dataDay else format_stamp now)"

definition rotatedPath :: "string \<Rightarrow> string \<Rightarrow> string" where
  "rotatedPath path stamp =
     (let dir = Dir path;
          base = Base path;
          ext = Ext base;
          name = TrimSuffix base ext;
          ext = (if ext = [] then ''.jsonl'' else ext)
      in Join [dir, name @ ''-'' @ stamp @ ext])"

definition closeFile :: "os_env \<Rightarrow> JSONLSink \<Rightarrow> storage_error option \<times> JSONLSink" where
  "closeFile env s =
     (case js_file s of
        None \<Rightarrow> (None, s)
      | Some _ \<Rightarrow>
          (if oe_CloseErr env then Some (ErrStorage ''close'') else None,
           s\<lparr>js_file := None, js_size := 0, js_day := []\<rparr>))"

definition archive_candidate :: "string \<Rightarrow> nat \<Rightarrow> string" where
  "archive_candidate dest i = (if 0 < i then dest @ ''.'' @ format_dec i else dest)"

function rotate_loop :: "os_env \<Rightarrow> fs \<Rightarrow> string \<Rightarrow> string \<Rightarrow> nat \<Rightarrow> storage_error option \<times> fs" where
  "rotate_loop env fs path dest i =
     (if i < 100
      then (case os_Stat (oe_ArchiveStatErr env (Clean (archive_candidate dest i))) fs (archive_candidate dest i) of
              StatNotExist \<Rightarrow>
                if oe_RenameErr env then (Some (ErrStorage ''rotate storage sink''), fs)
                else (None, os_Rename fs path (archive_candidate dest i))
            | StatErr \<Rightarrow> (Some (ErrStorage ''stat rotated sink''), fs)
            | StatOk _ \<Rightarrow> rotate_loop env fs path dest (i + 1))
      else (Some (ErrStorage ''rotate storage sink: could not find free archive name''), fs))"
  by pat_completeness auto
termination by (relation "measure (\<lambda>(env, fs, path, dest, i). 100 - i)") auto

declare rotate_loop.simps [simp del]

definition rotatePathLocked :: "os_env \<Rightarrow> JSONLSink \<Rightarrow> fs \<Rightarrow> string \<Rightarrow> storage_error option \<times> fs" where
  "rotatePathLocked env s fs stamp =
     (case os_Stat (oe_RotateStatErr env) fs (js_path s) of
        StatNotExist \<Rightarrow> (None, fs)
      | StatErr \<Rightarrow> (Some (ErrStorage ''stat storage sink for rotate''), fs)
      | StatOk _ \<Rightarrow> rotate_loop env fs (js_path s) (rotatedPath (js_path s) stamp) 0)"

definition rotateLocked :: "os_env \<Rightarrow> JSONLSink \<Rightarrow> fs \<Rightarrow> string \<Rightarrow> storage_error option \<times> JSONLSink \<times> fs" where
  "rotateLocked env s fs stamp =
     (case closeFile env s of
        (Some err, s) \<Rightarrow> (Some err, s, fs)
      | (None, s) \<Rightarrow> (let (err, fs) = rotatePathLocked env s fs stamp in (err, s, fs)))"

section \<open>Opening and writing\<close>

text \<open>The second half of \<open>ensureWriter\<close>: opening the file for appending.\<close>

definition open_writer :: "os_env \<Rightarrow> JSONLSink \<Rightarrow> fs \<Rightarrow> string \<Rightarrow> storage_error option \<times> JSONLSink \<times> fs" where
  "open_writer env s fs day =
     (if oe_OpenErr env then (Some (ErrStorage ''open storage sink''), s, fs)
      else
        let fs = open_append (oe_Now env) fs (js_path s);
            handle = Clean (js_path s);
            size = (if oe_FStatErr env then 0
                    else case fs handle of None \<Rightarrow> 0 | Some f \<Rightarrow> int (length (fl_content f)))
        in (None, s\<lparr>js_file := Some handle, js_size := size, js_day := day\<rparr>, fs))"

text \<open>Rotating a file that a previous process left behind: by its modification day, then by size.\<close>

definition rotate_existing ::
  "os_env \<Rightarrow> JSONLSink \<Rightarrow> fs \<Rightarrow> int \<Rightarrow> time \<Rightarrow> string \<Rightarrow> storage_error option \<times> fs" where
  "rotate_existing env s fs nextWriteBytes now day =
     (case os_Stat (oe_StatErr env) fs (js_path s) of
        StatNotExist \<Rightarrow> (None, fs)
      | StatErr \<Rightarrow> (Some (ErrStorage ''stat storage sink''), fs)
      | StatOk info \<Rightarrow>
          let size = int (length (fl_content info));
              fileDay = format_day (fl_mtime info)
          in if jo_RotateDaily (js_opts s) \<and> fileDay \<noteq> day \<and> 0 < size
             then rotatePathLocked env s fs (archiveStamp fileDay now True)
             else if 0 < jo_MaxBytes (js_opts s) \<and> jo_MaxBytes (js_opts s) < size + nextWriteBytes \<and> 0 < size
             then rotatePathLocked env s fs (archiveStamp [] now False)
             else (None, fs))"

text \<open>Rotating the file that is open: at a day boundary or when the next write would exceed the limit.\<close>

definition rotate_open ::
  "os_env \<Rightarrow> JSONLSink \<Rightarrow> fs \<Rightarrow> int \<Rightarrow> time \<Rightarrow> string \<Rightarrow> storage_error option \<times> JSONLSink \<times> fs" where
  "rotate_open env s fs nextWriteBytes now day =
     (case js_file s of
        None \<Rightarrow> (None, s, fs)
      | Some _ \<Rightarrow>
          let dayBoundary = jo_RotateDaily (js_opts s) \<and> js_day s \<noteq> [] \<and> day \<noteq> js_day s;
              sizeLimit = 0 < jo_MaxBytes (js_opts s) \<and> jo_MaxBytes (js_opts s) < js_size s + nextWriteBytes
          in if dayBoundary \<or> sizeLimit
             then rotateLocked env s fs (archiveStamp (js_day s) now dayBoundary)
             else (None, s, fs))"

definition ensureWriter :: "os_env \<Rightarrow> JSONLSink \<Rightarrow> fs \<Rightarrow> int \<Rightarrow> storage_error option \<times> JSONLSink \<times> fs" where
  "ensureWriter env s fs nextWriteBytes =
     (let now = js_now s (oe_Now env);
          day = format_day now
      in case rotate_open env s fs nextWriteBytes now day of
           (Some e, s, fs) \<Rightarrow> (Some e, s, fs)
         | (None, s, fs) \<Rightarrow>
             (case js_file s of
                Some _ \<Rightarrow> (None, s, fs)
              | None \<Rightarrow>
                  (case rotate_existing env s fs nextWriteBytes now day of
                     (Some e, fs) \<Rightarrow> (Some e, s, fs)
                   | (None, fs) \<Rightarrow> open_writer env s fs day)))"

definition write_payload ::
  "os_env \<Rightarrow> JSONLSink \<Rightarrow> fs \<Rightarrow> bytes \<Rightarrow> storage_error option \<times> JSONLSink \<times> fs" where
  "write_payload env s fs payload =
     (case js_file s of
        None \<Rightarrow> (Some (ErrStorage ''write sanitized frame''), s, fs)
      | Some handle \<Rightarrow>
          (case oe_WriteErr env of
             Some n \<Rightarrow> (Some (ErrStorage ''write sanitized frame''), s,
                        append_bytes (oe_Now env) fs handle (take n payload))
           | None \<Rightarrow>
               let fs = append_bytes (oe_Now env) fs handle payload;
                   s = s\<lparr>js_size := js_size s + int (length payload)\<rparr>
               in if jo_Sync (js_opts s) \<and> oe_SyncErr env
                  then (Some (ErrStorage ''sync sanitized frame''), s, fs)
                  else (None, s, fs)))"

definition WriteSanitizedFrame ::
  "(SanitizedFrame \<Rightarrow> string + bytes) \<Rightarrow> os_env \<Rightarrow> JSONLSink \<Rightarrow> fs \<Rightarrow> SanitizedFrame \<Rightarrow>
     storage_error option \<times> JSONLSink \<times> fs" where
  "WriteSanitizedFrame Marshal env s fs frame =
     (if oe_CtxErr env then (Some ErrContext, s, fs)
      else
        (case validateSanitizedFrame frame of
           Some err \<Rightarrow> (Some err, s, fs)
         | None \<Rightarrow>
             (case Marshal frame of
                Inl _ \<Rightarrow> (Some (ErrStorage ''marshal sanitized frame''), s, fs)
              | Inr line \<Rightarrow>
                  let payload = line @ [CHR 0x0A]
                  in (case ensureWriter env s fs (int (length payload)) of
                        (Some err, s, fs) \<Rightarrow> (Some err, s, fs)
                      | (None, s, fs) \<Rightarrow> write_payload env s fs payload))))"

definition sink_Close :: "os_env \<Rightarrow> JSONLSink \<Rightarrow> storage_error option \<times> JSONLSink" where
  "sink_Close env s = closeFile env s"

section \<open>What every operation keeps\<close>

text \<open>
  Two invariants of all file operations on a sink whose file is \<open>k\<close>. Other files never
  change. The bytes of the sink's own file stay where they are, at the start of the file, or
  move to a name that was free.
\<close>

definition keeps_data :: "string \<Rightarrow> fs \<Rightarrow> fs \<Rightarrow> bool" where
  "keeps_data k fs fs' \<longleftrightarrow>
     (\<forall>a f. a \<noteq> k \<longrightarrow> fs a = Some f \<longrightarrow> fs' a = Some f) \<and>
     (\<forall>f. fs k = Some f \<longrightarrow> (\<exists>a f'. (a = k \<or> fs a = None) \<and> fs' a = Some f' \<and> prefix (fl_content f) (fl_content f')))"

definition sink_wf :: "JSONLSink \<Rightarrow> bool" where
  "sink_wf s \<longleftrightarrow> js_file s \<in> {None, Some (Clean (js_path s))}"

lemma keeps_data_refl [simp, intro]: "keeps_data k fs fs"
  unfolding keeps_data_def by (auto intro!: exI [of _ k])

lemma keeps_data_trans:
  assumes "keeps_data k fs fs1" and "keeps_data k fs1 fs2"
  shows "keeps_data k fs fs2"
  unfolding keeps_data_def
proof (intro conjI allI impI)
  show "fs2 a = Some f" if "a \<noteq> k" "fs a = Some f" for a f
    using that assms unfolding keeps_data_def by blast
  fix f assume f: "fs k = Some f"
  with assms(1) obtain a f1 where 1: "a = k \<or> fs a = None" "fs1 a = Some f1" "prefix (fl_content f) (fl_content f1)"
    unfolding keeps_data_def by blast
  show "\<exists>a f'. (a = k \<or> fs a = None) \<and> fs2 a = Some f' \<and> prefix (fl_content f) (fl_content f')"
  proof (cases "a = k")
    case False
    with 1 assms(2) have "fs2 a = Some f1" unfolding keeps_data_def by blast
    with 1 False show ?thesis by blast
  next
    case True
    with 1 assms(2) obtain b f2 where 2: "b = k \<or> fs1 b = None" "fs2 b = Some f2" "prefix (fl_content f1) (fl_content f2)"
      unfolding keeps_data_def by blast
    have "b = k \<or> fs b = None"
    proof (rule ccontr)
      assume "\<not> ?thesis"
      with assms(1) have "fs1 b \<noteq> None" unfolding keeps_data_def by blast
      with 2 \<open>\<not> ?thesis\<close> show False by blast
    qed
    with 1 2 show ?thesis by (blast intro: prefix_order.trans)
  qed
qed

lemma keeps_data_rename:
  assumes "fs (Clean new) = None"
  shows "keeps_data (Clean old) fs (os_Rename fs old new)"
  using assms unfolding keeps_data_def os_Rename_def by (auto intro!: exI [of _ "Clean new"])

lemma keeps_data_open [simp]: "keeps_data (Clean path) fs (open_append now fs path)"
  unfolding keeps_data_def open_append_def by (auto split: option.split intro!: exI [of _ "Clean path"])

lemma keeps_data_append [simp]: "keeps_data k fs (append_bytes now fs k bs)"
  unfolding keeps_data_def append_bytes_def by (auto intro!: exI [of _ k])

lemma os_Stat_NotExist: "os_Stat fault fs path = StatNotExist \<longleftrightarrow> \<not> fault \<and> fs (Clean path) = None"
  by (auto simp: os_Stat_def split: option.splits)

text \<open>
  The rotation loop stops at the first free name: either it moves the file there, or it
  fails and changes nothing.
\<close>

lemma rotate_loop_cases:
  "(\<exists>j. j < 100 \<and> i \<le> j \<and> fs (Clean (archive_candidate dest j)) = None \<and>
      rotate_loop env fs path dest i = (None, os_Rename fs path (archive_candidate dest j))) \<or>
   (\<exists>err. rotate_loop env fs path dest i = (Some err, fs))"
proof (induction env fs path dest i rule: rotate_loop.induct)
  case (1 env fs path dest i)
  show ?case
  proof (cases "i < 100")
    case False
    then show ?thesis by (simp add: rotate_loop.simps [of env fs path dest i])
  next
    case True
    show ?thesis
    proof (cases "os_Stat (oe_ArchiveStatErr env (Clean (archive_candidate dest i))) fs (archive_candidate dest i)")
      case (StatOk f)
      from "1.IH" [OF True StatOk] have "(\<exists>j. j < 100 \<and> i + 1 \<le> j \<and> fs (Clean (archive_candidate dest j)) = None \<and>
          rotate_loop env fs path dest (i + 1) = (None, os_Rename fs path (archive_candidate dest j))) \<or>
        (\<exists>err. rotate_loop env fs path dest (i + 1) = (Some err, fs))" .
      moreover have "rotate_loop env fs path dest i = rotate_loop env fs path dest (i + 1)"
        by (subst rotate_loop.simps) (simp add: True StatOk)
      ultimately show ?thesis by (metis add_leD1)
    next
      case StatNotExist
      then have free: "fs (Clean (archive_candidate dest i)) = None" by (simp add: os_Stat_NotExist)
      show ?thesis
        using True free by (subst (1 2) rotate_loop.simps) (auto simp: StatNotExist)
    next
      case StatErr
      then show ?thesis by (subst (1 2) rotate_loop.simps) (simp add: True)
    qed
  qed
qed

lemma rotatePathLocked_cases:
  obtains (moved) new where "fs (Clean (js_path s)) \<noteq> None" "fs (Clean new) = None"
      "rotatePathLocked env s fs stamp = (None, os_Rename fs (js_path s) new)"
  | (absent) "fs (Clean (js_path s)) = None" "rotatePathLocked env s fs stamp = (None, fs)"
  | (failed) err where "rotatePathLocked env s fs stamp = (Some err, fs)"
proof (cases "os_Stat (oe_RotateStatErr env) fs (js_path s)")
  case (StatOk f)
  then have "fs (Clean (js_path s)) \<noteq> None" by (auto simp: os_Stat_def split: if_splits option.splits)
  with rotate_loop_cases [of 0 fs "rotatedPath (js_path s) stamp" env "js_path s"] StatOk that show ?thesis
    by (auto simp: rotatePathLocked_def)
next
  case StatNotExist
  with that show ?thesis by (simp add: rotatePathLocked_def os_Stat_NotExist)
next
  case StatErr
  with that show ?thesis by (simp add: rotatePathLocked_def)
qed

lemma rotatePathLocked_keeps: "keeps_data (Clean (js_path s)) fs (snd (rotatePathLocked env s fs stamp))"
  by (rule rotatePathLocked_cases [of fs s env stamp]) (simp_all add: keeps_data_rename)

text \<open>A rotation that reports success leaves no file at the sink's path.\<close>

lemma rotatePathLocked_gone:
  assumes "rotatePathLocked env s fs stamp = (None, fs')"
  shows "fs' (Clean (js_path s)) = None"
  using assms by (cases rule: rotatePathLocked_cases [of fs s env stamp]) (auto simp: os_Rename_def)

section \<open>The writer\<close>

text \<open>
  What a successful \<open>ensureWriter\<close> establishes: the handle is open on the sink's path, and
  either the file is empty or the next write fits.
\<close>

definition active_content :: "fs \<Rightarrow> string \<Rightarrow> bytes" where
  "active_content fs k = (case fs k of None \<Rightarrow> [] | Some f \<Rightarrow> fl_content f)"

definition size_accurate :: "JSONLSink \<Rightarrow> fs \<Rightarrow> bool" where
  "size_accurate s fs \<longleftrightarrow> js_file s = None \<or> js_size s = int (length (active_content fs (Clean (js_path s))))"

definition fits :: "JSONLSink \<Rightarrow> fs \<Rightarrow> int \<Rightarrow> bool" where
  "fits s fs n \<longleftrightarrow> (let c = active_content fs (Clean (js_path s)) in
     0 < jo_MaxBytes (js_opts s) \<longrightarrow> c = [] \<or> int (length c) + n \<le> jo_MaxBytes (js_opts s))"

lemma rotate_existing_keeps: "keeps_data (Clean (js_path s)) fs (snd (rotate_existing env s fs n now day))"
  by (auto simp: rotate_existing_def Let_def rotatePathLocked_keeps split: stat_result.split)

lemma rotate_existing_fits:
  assumes "rotate_existing env s fs n now day = (None, fs')"
  shows "fits s fs' n"
proof (cases "os_Stat (oe_StatErr env) fs (js_path s)")
  case StatNotExist
  with assms show ?thesis by (simp add: rotate_existing_def fits_def active_content_def os_Stat_NotExist)
next
  case StatErr
  with assms show ?thesis by (simp add: rotate_existing_def)
next
  case (StatOk f)
  then have f: "fs (Clean (js_path s)) = Some f" by (auto simp: os_Stat_def split: if_splits option.splits)
  have gone: "fits s fs' n" if "rotatePathLocked env s fs st = (None, fs')" for st
    using rotatePathLocked_gone [OF that] by (simp add: fits_def active_content_def)
  show ?thesis
  proof (cases "fs' = fs")
    case True
    with assms StatOk f gone show ?thesis
      by (auto simp: rotate_existing_def fits_def active_content_def Let_def not_less split: if_splits)
  next
    case False
    with assms StatOk gone show ?thesis by (auto simp: rotate_existing_def Let_def split: if_splits)
  qed
qed

lemma rotate_existing_content:
  assumes "rotate_existing env s fs n now day = (None, fs')"
  shows "active_content fs' (Clean (js_path s)) \<in> {active_content fs (Clean (js_path s)), []}"
  using assms rotatePathLocked_gone [of env s fs _ fs']
  by (auto simp: rotate_existing_def Let_def active_content_def split: stat_result.splits if_splits)

lemma open_writer_ok:
  assumes "open_writer env s fs day = (None, s', fs')"
  shows "js_path s' = js_path s" "js_opts s' = js_opts s" "js_now s' = js_now s"
    "js_file s' = Some (Clean (js_path s))" "fs' = open_append (oe_Now env) fs (js_path s)"
    "\<not> oe_FStatErr env \<Longrightarrow> size_accurate s' fs'"
    "active_content fs' (Clean (js_path s)) = active_content fs (Clean (js_path s))"
  using assms
  by (auto simp: open_writer_def Let_def open_append_def active_content_def size_accurate_def
      split: if_splits option.splits)

lemma rotateLocked_cases:
  assumes "rotateLocked env s fs stamp = (err, s', fs')"
  shows "js_path s' = js_path s" "js_opts s' = js_opts s" "js_now s' = js_now s" "js_file s' = None"
    "keeps_data (Clean (js_path s)) fs fs'"
    "err = None \<Longrightarrow> fs' (Clean (js_path s)) = None"
proof -
  have close: "js_path (snd (closeFile env s)) = js_path s \<and> js_opts (snd (closeFile env s)) = js_opts s \<and>
      js_now (snd (closeFile env s)) = js_now s \<and> js_file (snd (closeFile env s)) = None"
    by (simp add: closeFile_def split: option.split)
  show "js_path s' = js_path s" "js_opts s' = js_opts s" "js_now s' = js_now s" "js_file s' = None"
    using assms close by (auto simp: rotateLocked_def split: prod.splits option.splits)
  show "keeps_data (Clean (js_path s)) fs fs'"
    using assms close rotatePathLocked_keeps [of "snd (closeFile env s)" fs env stamp]
    by (auto simp: rotateLocked_def split: prod.splits option.splits)
  show "fs' (Clean (js_path s)) = None" if "err = None"
    using assms close that rotatePathLocked_gone [of env "snd (closeFile env s)" fs stamp fs']
    by (auto simp: rotateLocked_def split: prod.splits option.splits)
qed

lemma rotate_open_spec:
  assumes "sink_wf s" and "rotate_open env s fs n now day = (err, s', fs')"
  shows "js_path s' = js_path s" "js_opts s' = js_opts s" "js_now s' = js_now s" "sink_wf s'"
    "keeps_data (Clean (js_path s)) fs fs'"
    "size_accurate s fs \<Longrightarrow> size_accurate s' fs'"
    "err = None \<Longrightarrow> js_file s' \<noteq> None \<Longrightarrow> size_accurate s fs \<Longrightarrow> fits s' fs' n"
    "err = None \<Longrightarrow> active_content fs' (Clean (js_path s)) \<in> {active_content fs (Clean (js_path s)), []}"
  using assms rotateLocked_cases [of env s fs _ err s' fs']
  by (auto simp: rotate_open_def Let_def sink_wf_def size_accurate_def fits_def active_content_def
      split: option.splits if_splits)

text \<open>\<open>ensureWriter\<close> as a whole.\<close>

lemma ensureWriter_spec:
  assumes "sink_wf s" and "ensureWriter env s fs n = (err, s', fs')"
  shows "js_path s' = js_path s" "js_opts s' = js_opts s" "js_now s' = js_now s" "sink_wf s'"
    "keeps_data (Clean (js_path s)) fs fs'"
    "size_accurate s fs \<Longrightarrow> \<not> oe_FStatErr env \<Longrightarrow> size_accurate s' fs'"
    "err = None \<Longrightarrow> js_file s' = Some (Clean (js_path s))"
    "err = None \<Longrightarrow> size_accurate s fs \<Longrightarrow> fits s' fs' n"
    "err = None \<Longrightarrow> active_content fs' (Clean (js_path s)) \<in> {active_content fs (Clean (js_path s)), []}"
proof -
  let ?now = "js_now s (oe_Now env)" and ?k = "Clean (js_path s)"
  obtain err1 s1 fs1 where r: "rotate_open env s fs n ?now (format_day ?now) = (err1, s1, fs1)"
    by (cases "rotate_open env s fs n ?now (format_day ?now)")
  note ro = rotate_open_spec [OF assms(1) r]
  obtain err2 fs2 where e: "rotate_existing env s1 fs1 n ?now (format_day ?now) = (err2, fs2)"
    by (cases "rotate_existing env s1 fs1 n ?now (format_day ?now)")
  have k12: "keeps_data ?k fs fs2"
    using keeps_data_trans [OF ro(5)] rotate_existing_keeps [of s1 fs1 env n ?now "format_day ?now"] e ro(1) by simp
  consider (fail1) "err1 \<noteq> None" "(err, s', fs') = (err1, s1, fs1)"
    | (open1) "err1 = None" "js_file s1 \<noteq> None" "(err, s', fs') = (None, s1, fs1)"
    | (fail2) "err1 = None" "js_file s1 = None" "err2 \<noteq> None" "(err, s', fs') = (err2, s1, fs2)"
    | (open2) "err1 = None" "js_file s1 = None" "err2 = None" "open_writer env s1 fs2 (format_day ?now) = (err, s', fs')"
    using assms(2) r e by (auto simp: ensureWriter_def Let_def split: option.splits)
  then have "js_path s' = js_path s \<and> js_opts s' = js_opts s \<and> js_now s' = js_now s \<and> sink_wf s' \<and>
      keeps_data ?k fs fs' \<and> (size_accurate s fs \<longrightarrow> \<not> oe_FStatErr env \<longrightarrow> size_accurate s' fs') \<and>
      (err = None \<longrightarrow> js_file s' = Some ?k \<and> (size_accurate s fs \<longrightarrow> fits s' fs' n) \<and>
        active_content fs' ?k \<in> {active_content fs ?k, []})"
  proof cases
    case fail1
    with ro show ?thesis by auto
  next
    case open1
    then have "js_file s1 = Some ?k" using ro(1,4) by (auto simp: sink_wf_def)
    with open1 ro show ?thesis by simp
  next
    case fail2
    with ro k12 show ?thesis by (auto simp: size_accurate_def)
  next
    case open2
    show ?thesis
    proof (cases err)
      case (Some x)
      with open2 have "s' = s1 \<and> fs' = fs2" by (auto simp: open_writer_def Let_def split: if_splits)
      with open2 ro k12 Some show ?thesis by (simp add: size_accurate_def)
    next
      case None
      with open2 have o: "open_writer env s1 fs2 (format_day ?now) = (None, s', fs')" by simp
      note ow = open_writer_ok [OF o]
      have "fits s1 fs2 n" using e open2 by (auto intro: rotate_existing_fits)
      then have "fits s' fs' n" using ow(1,2,7) by (simp add: fits_def)
      moreover have "active_content fs' ?k \<in> {active_content fs ?k, []}"
        using ow(7) rotate_existing_content [of env s1 fs1 n ?now "format_day ?now" fs2] e open2 ro(1,8) by auto
      moreover have "keeps_data ?k fs fs'" using keeps_data_trans [OF k12] ow(5) ro(1) by simp
      ultimately show ?thesis using ow ro by (simp add: sink_wf_def)
    qed
  qed
  then show "js_path s' = js_path s" "js_opts s' = js_opts s" "js_now s' = js_now s" "sink_wf s'"
    "keeps_data ?k fs fs'" "size_accurate s fs \<Longrightarrow> \<not> oe_FStatErr env \<Longrightarrow> size_accurate s' fs'"
    "err = None \<Longrightarrow> js_file s' = Some ?k" "err = None \<Longrightarrow> size_accurate s fs \<Longrightarrow> fits s' fs' n"
    "err = None \<Longrightarrow> active_content fs' ?k \<in> {active_content fs ?k, []}"
    by blast+
qed

lemma active_content_append [simp]: "active_content (append_bytes now fs k bs) k = active_content fs k @ bs"
  by (simp add: active_content_def append_bytes_def)

text \<open>One call: it keeps all data, and a call that reports success has appended the frame's line.\<close>

lemma Write_spec:
  assumes "sink_wf s" and "WriteSanitizedFrame Marshal env s fs frame = (err, s', fs')"
  shows "js_path s' = js_path s" "js_opts s' = js_opts s" "sink_wf s'"
    "keeps_data (Clean (js_path s)) fs fs'"
    "err = None \<Longrightarrow> validateSanitizedFrame frame = None \<and> (\<exists>line c. Marshal frame = Inr line \<and>
       c \<in> {active_content fs (Clean (js_path s)), []} \<and>
       active_content fs' (Clean (js_path s)) = c @ line @ [CHR 0x0A] \<and>
       (0 < jo_MaxBytes (js_opts s) \<longrightarrow> size_accurate s fs \<longrightarrow>
          c = [] \<or> int (length (c @ line @ [CHR 0x0A])) \<le> jo_MaxBytes (js_opts s)))"
    "size_accurate s fs \<Longrightarrow> \<not> oe_FStatErr env \<Longrightarrow> oe_WriteErr env = None \<Longrightarrow> size_accurate s' fs'"
proof -
  let ?k = "Clean (js_path s)"
  consider (early) "err \<noteq> None" "s' = s" "fs' = fs"
    | (go) line err1 s1 fs1 where "validateSanitizedFrame frame = None" "Marshal frame = Inr line"
        "ensureWriter env s fs (int (length (line @ [CHR 0x0A]))) = (err1, s1, fs1)"
        "(err, s', fs') = (case err1 of Some e \<Rightarrow> (Some e, s1, fs1) | None \<Rightarrow> write_payload env s1 fs1 (line @ [CHR 0x0A]))"
    using assms(2)
    by (cases "validateSanitizedFrame frame"; cases "Marshal frame";
        auto simp: WriteSanitizedFrame_def Let_def split: if_splits option.splits prod.splits; metis)
  then have "js_path s' = js_path s \<and> js_opts s' = js_opts s \<and> sink_wf s' \<and> keeps_data ?k fs fs' \<and>
    (err = None \<longrightarrow> validateSanitizedFrame frame = None \<and> (\<exists>line c. Marshal frame = Inr line \<and>
       c \<in> {active_content fs ?k, []} \<and> active_content fs' ?k = c @ line @ [CHR 0x0A] \<and>
       (0 < jo_MaxBytes (js_opts s) \<longrightarrow> size_accurate s fs \<longrightarrow>
          c = [] \<or> int (length (c @ line @ [CHR 0x0A])) \<le> jo_MaxBytes (js_opts s)))) \<and>
    (size_accurate s fs \<longrightarrow> \<not> oe_FStatErr env \<longrightarrow> oe_WriteErr env = None \<longrightarrow> size_accurate s' fs')"
  proof cases
    case early
    with assms(1) show ?thesis by auto
  next
    case go
    note ew = ensureWriter_spec [OF assms(1) go(3)]
    show ?thesis
    proof (cases err1)
      case (Some e)
      with go ew show ?thesis by simp
    next
      case None
      then have w: "write_payload env s1 fs1 (line @ [CHR 0x0A]) = (err, s', fs')" using go(4) by simp
      have handle: "js_file s1 = Some ?k" using ew(7) None by simp
      have kd: "keeps_data ?k fs (append_bytes now fs1 ?k bs)" for now bs
        by (rule keeps_data_trans [OF ew(5)]) simp
      have same: "js_path s' = js_path s \<and> js_opts s' = js_opts s \<and> js_file s' = Some ?k \<and> keeps_data ?k fs fs'"
        using w handle ew(1,2) kd by (auto simp: write_payload_def Let_def split: option.splits if_splits)
      have content: "active_content fs' ?k = active_content fs1 ?k @ line @ [CHR 0x0A]" if "err = None"
        using w handle that by (auto simp: write_payload_def Let_def split: option.splits if_splits)
      have acc: "size_accurate s' fs'" if "size_accurate s1 fs1" "oe_WriteErr env = None"
        using w handle that same ew(1) by (auto simp: write_payload_def size_accurate_def Let_def split: if_splits)
      have fit: "size_accurate s fs \<Longrightarrow> fits s1 fs1 (int (length (line @ [CHR 0x0A])))" using ew(8) None by simp
      show ?thesis
        using same content acc go(1,2) ew(1,2,6,9) None fit
        by (auto simp: sink_wf_def fits_def Let_def)
    qed
  qed
  then show "js_path s' = js_path s" "js_opts s' = js_opts s" "sink_wf s'" "keeps_data ?k fs fs'"
    "err = None \<Longrightarrow> validateSanitizedFrame frame = None \<and> (\<exists>line c. Marshal frame = Inr line \<and>
       c \<in> {active_content fs ?k, []} \<and> active_content fs' ?k = c @ line @ [CHR 0x0A] \<and>
       (0 < jo_MaxBytes (js_opts s) \<longrightarrow> size_accurate s fs \<longrightarrow>
          c = [] \<or> int (length (c @ line @ [CHR 0x0A])) \<le> jo_MaxBytes (js_opts s)))"
    "size_accurate s fs \<Longrightarrow> \<not> oe_FStatErr env \<Longrightarrow> oe_WriteErr env = None \<Longrightarrow> size_accurate s' fs'"
    by blast+
qed

section \<open>File contents\<close>

definition contents :: "fs \<Rightarrow> bytes set" where
  "contents fs = fl_content ` ran fs"

lemma contents_rename: "contents (os_Rename fs old new) \<subseteq> contents fs"
  by (auto simp: contents_def os_Rename_def ran_def split: if_splits)

lemma contents_open: "contents (open_append now fs path) \<subseteq> insert [] (contents fs)"
  by (auto simp: contents_def open_append_def ran_def split: option.split if_splits)

lemma contents_append: "contents (append_bytes now fs k bs) \<subseteq> insert (active_content fs k @ bs) (contents fs)"
  by (auto simp: contents_def append_bytes_def active_content_def ran_def split: if_splits)

lemma active_content_in: "active_content fs k \<in> insert [] (contents fs)"
  by (auto simp: active_content_def contents_def ran_def split: option.split)

lemma rotatePathLocked_contents: "contents (snd (rotatePathLocked env s fs stamp)) \<subseteq> contents fs"
  by (rule rotatePathLocked_cases [of fs s env stamp]) (simp_all add: contents_rename)

lemma rotateLocked_contents: "contents (snd (snd (rotateLocked env s fs stamp))) \<subseteq> contents fs"
  using rotatePathLocked_contents [of env _ fs stamp]
  by (auto simp: rotateLocked_def split: prod.split option.split) (metis snd_conv subsetD)

lemma ensureWriter_contents: "contents (snd (snd (ensureWriter env s fs n))) \<subseteq> insert [] (contents fs)"
proof -
  let ?now = "js_now s (oe_Now env)"
  obtain err1 s1 fs1 where r: "rotate_open env s fs n ?now (format_day ?now) = (err1, s1, fs1)"
    by (cases "rotate_open env s fs n ?now (format_day ?now)")
  obtain err2 fs2 where e: "rotate_existing env s1 fs1 n ?now (format_day ?now) = (err2, fs2)"
    by (cases "rotate_existing env s1 fs1 n ?now (format_day ?now)")
  have 1: "contents fs1 \<subseteq> contents fs"
    using r rotateLocked_contents [of env s fs]
    by (auto simp: rotate_open_def Let_def split: option.splits if_splits) (metis snd_conv subsetD)+
  have 2: "contents fs2 \<subseteq> contents fs1"
    using e rotatePathLocked_contents [of env s1 fs1]
    by (auto simp: rotate_existing_def Let_def split: stat_result.splits if_splits) (metis snd_conv subsetD)+
  have 3: "contents (snd (snd (open_writer env s1 fs2 d))) \<subseteq> insert [] (contents fs2)" for d
    using contents_open by (auto simp: open_writer_def Let_def)
  show ?thesis
    using r e 1 2 3 by (auto simp: ensureWriter_def Let_def split: option.split)
qed

lemma Write_contents:
  assumes "WriteSanitizedFrame Marshal env s fs frame = (err, s', fs')" and "oe_WriteErr env = None"
    and "x \<in> contents fs'"
  shows "x \<in> insert [] (contents fs) \<or>
    (\<exists>line c. Marshal frame = Inr line \<and> validateSanitizedFrame frame = None \<and>
       c \<in> insert [] (contents fs) \<and> x = c @ line @ [CHR 0x0A])"
proof -
  have w: "contents (snd (snd (write_payload env s1 fs1 bs))) \<subseteq>
      insert [] (contents fs1) \<union> {c @ bs |c. c \<in> insert [] (contents fs1)}" for s1 fs1 bs
    using contents_append [of "oe_Now env" fs1 _ bs] active_content_in [of fs1] assms(2)
    by (auto simp: write_payload_def Let_def split: option.split)
  show ?thesis
  proof (cases "Marshal frame")
    case (Inl e)
    with assms show ?thesis by (auto simp: WriteSanitizedFrame_def split: if_splits option.splits)
  next
    case (Inr line)
    obtain err1 s1 fs1 where e: "ensureWriter env s fs (int (length (line @ [CHR 0x0A]))) = (err1, s1, fs1)"
      by (cases "ensureWriter env s fs (int (length (line @ [CHR 0x0A])))")
    have e1: "contents fs1 \<subseteq> insert [] (contents fs)" using ensureWriter_contents [of env s fs] e by (metis snd_conv)
    consider "fs' = fs" | "fs' = fs1"
      | "validateSanitizedFrame frame = None" "fs' = snd (snd (write_payload env s1 fs1 (line @ [CHR 0x0A])))"
      using assms(1) Inr e
      by (auto simp: WriteSanitizedFrame_def Let_def split: if_splits option.splits)
    then show ?thesis
    proof cases
      case 1
      with assms(3) show ?thesis by simp
    next
      case 2
      with assms(3) e1 show ?thesis by blast
    next
      case 3
      from 3(2) w [of s1 fs1 "line @ [CHR 0x0A]"] assms(3)
      have "x \<in> insert [] (contents fs1) \<union> {c @ line @ [CHR 0x0A] |c. c \<in> insert [] (contents fs1)}" by blast
      with e1 3(1) Inr show ?thesis by blast
    qed
  qed
qed

section \<open>Runs of the sink\<close>

text \<open>
  The operations on a sink: writing a frame, closing, and a restart of the process, which
  opens a new sink with the same path and options.
\<close>

datatype sink_op = OpWrite os_env SanitizedFrame | OpClose os_env | OpRestart

definition restart :: "JSONLSink \<Rightarrow> JSONLSink" where
  "restart s = \<lparr>js_path = js_path s, js_opts = js_opts s, js_file = None, js_size = 0, js_day = [], js_now = id\<rparr>"

fun sink_run :: "(SanitizedFrame \<Rightarrow> string + bytes) \<Rightarrow> JSONLSink \<Rightarrow> fs \<Rightarrow> sink_op list \<Rightarrow>
    SanitizedFrame list \<times> JSONLSink \<times> fs" where
  "sink_run Marshal s fs [] = ([], s, fs)"
| "sink_run Marshal s fs (OpWrite env frame # ops) =
     (case WriteSanitizedFrame Marshal env s fs frame of
        (None, s, fs) \<Rightarrow> (let (stored, s, fs) = sink_run Marshal s fs ops in (frame # stored, s, fs))
      | (Some _, s, fs) \<Rightarrow> sink_run Marshal s fs ops)"
| "sink_run Marshal s fs (OpClose env # ops) = sink_run Marshal (snd (sink_Close env s)) fs ops"
| "sink_run Marshal s fs (OpRestart # ops) = sink_run Marshal (restart s) fs ops"

lemma close_wf: "js_path (snd (sink_Close env s)) = js_path s" "sink_wf s \<Longrightarrow> sink_wf (snd (sink_Close env s))"
  by (auto simp: sink_Close_def closeFile_def sink_wf_def split: option.split)

lemma restart_wf: "js_path (restart s) = js_path s" "sink_wf (restart s)"
  by (simp_all add: restart_def sink_wf_def)

lemma new_sink_wf: "NewJSONLSinkWithOptions b path opts = Inr s \<Longrightarrow> sink_wf s \<and> js_path s = path \<and> js_opts s = opts"
  by (auto simp: NewJSONLSinkWithOptions_def sink_wf_def split: if_splits)

lemma sink_run_keeps:
  "sink_wf s \<Longrightarrow> sink_run Marshal s fs ops = (stored, s', fs') \<Longrightarrow> keeps_data (Clean (js_path s)) fs fs'"
proof (induction Marshal s fs ops arbitrary: stored rule: sink_run.induct)
  case (1 Marshal s fs)
  then show ?case by simp
next
  case (2 Marshal s fs env frame ops)
  obtain err s1 fs1 where w: "WriteSanitizedFrame Marshal env s fs frame = (err, s1, fs1)"
    by (cases "WriteSanitizedFrame Marshal env s fs frame")
  note ws = Write_spec [OF "2.prems"(1) w]
  from "2.prems"(2) w obtain stored1 where "sink_run Marshal s1 fs1 ops = (stored1, s', fs')"
    by (auto split: option.splits prod.splits)
  then have "keeps_data (Clean (js_path s1)) fs1 fs'"
    using "2.IH" w ws(3) by (cases err) auto
  with ws show ?case by (auto intro: keeps_data_trans)
next
  case (3 Marshal s fs env ops)
  then show ?case by (simp add: close_wf)
next
  case (4 Marshal s fs ops)
  then show ?case by (simp add: restart_wf)
qed

text \<open>
  A file has a line: the line and its line break stand at the start of the file or after a
  line break. A file consists of whole lines when it is empty or ends with a line break.
\<close>

definition whole_lines :: "bytes \<Rightarrow> bool" where
  "whole_lines c \<longleftrightarrow> c = [] \<or> last c = CHR 0x0A"

definition has_line :: "bytes \<Rightarrow> bytes \<Rightarrow> bool" where
  "has_line c line \<longleftrightarrow> (\<exists>before after. c = before @ line @ CHR 0x0A # after \<and> whole_lines before)"

definition holds_line :: "fs \<Rightarrow> bytes \<Rightarrow> bool" where
  "holds_line fs line \<longleftrightarrow> (\<exists>c \<in> contents fs. has_line c line)"

definition whole_files :: "fs \<Rightarrow> bool" where
  "whole_files fs \<longleftrightarrow> (\<forall>c \<in> contents fs. whole_lines c)"

lemma keeps_data_contents:
  assumes "keeps_data k fs fs'" and "c \<in> contents fs"
  obtains c' where "c' \<in> contents fs'" "prefix c c'"
proof -
  from assms(2) obtain a f where f: "fs a = Some f" "c = fl_content f" by (auto simp: contents_def ran_def)
  obtain b f' where "fs' b = Some f'" "prefix (fl_content f) (fl_content f')"
    using assms(1) f(1) unfolding keeps_data_def by (cases "a = k") (blast, metis prefix_order.order_refl)
  with f(2) that show thesis by (auto simp: contents_def ran_def)
qed

lemma keeps_data_line:
  assumes "keeps_data k fs fs'" and "holds_line fs line"
  shows "holds_line fs' line"
proof -
  from assms(2) obtain c where c: "c \<in> contents fs" "has_line c line" by (auto simp: holds_line_def)
  obtain c' where "c' \<in> contents fs'" "prefix c c'" by (rule keeps_data_contents [OF assms(1) c(1)])
  moreover from this c(2) have "has_line c' line" by (fastforce simp: has_line_def prefix_def)
  ultimately show ?thesis by (auto simp: holds_line_def)
qed

text \<open>A successful write to a file of whole lines adds a line.\<close>

lemma Write_line:
  assumes "sink_wf s" and "WriteSanitizedFrame Marshal env s fs frame = (None, s', fs')"
    and "whole_lines (active_content fs (Clean (js_path s)))"
  shows "\<exists>line. Marshal frame = Inr line \<and> holds_line fs' line"
proof -
  from Write_spec(5) [OF assms(1,2)] assms(3) obtain line c where 1: "Marshal frame = Inr line" "whole_lines c"
    "active_content fs' (Clean (js_path s)) = c @ line @ [CHR 0x0A]" by (auto simp: whole_lines_def)
  then have "active_content fs' (Clean (js_path s)) \<in> contents fs'"
    using active_content_in [of fs' "Clean (js_path s)"] by auto
  with 1 show ?thesis by (auto simp: holds_line_def has_line_def)
qed

lemma whole_files_active: "whole_files fs \<Longrightarrow> whole_lines (active_content fs k)"
  using active_content_in [of fs k] by (auto simp: whole_files_def whole_lines_def)

lemma Write_ok_complete: "WriteSanitizedFrame Marshal env s fs frame = (None, s', fs') \<Longrightarrow> oe_WriteErr env = None"
  by (auto simp: WriteSanitizedFrame_def write_payload_def Let_def split: if_splits option.splits sum.splits prod.splits)

text \<open>Writes that are not cut short keep the files whole.\<close>

lemma Write_whole_files:
  assumes "WriteSanitizedFrame Marshal env s fs frame = (err, s', fs')" and "oe_WriteErr env = None" and "whole_files fs"
  shows "whole_files fs'"
  using Write_contents [OF assms(1,2)] assms(3) by (fastforce simp: whole_files_def whole_lines_def)

text \<open>A file holds the bytes of a line and its line break somewhere.\<close>

definition holds_bytes :: "fs \<Rightarrow> bytes \<Rightarrow> bool" where
  "holds_bytes fs line \<longleftrightarrow> (\<exists>c \<in> contents fs. sublist (line @ [CHR 0x0A]) c)"

lemma keeps_data_bytes:
  assumes "keeps_data k fs fs'" and "holds_bytes fs line"
  shows "holds_bytes fs' line"
proof -
  from assms(2) obtain c where c: "c \<in> contents fs" "sublist (line @ [CHR 0x0A]) c" by (auto simp: holds_bytes_def)
  obtain c' where "c' \<in> contents fs'" "prefix c c'" by (rule keeps_data_contents [OF assms(1) c(1)])
  with c(2) show ?thesis unfolding holds_bytes_def by (meson prefix_imp_sublist sublist_order.order.trans)
qed

lemma Write_bytes:
  assumes "sink_wf s" and "WriteSanitizedFrame Marshal env s fs frame = (None, s', fs')"
  shows "\<exists>line. Marshal frame = Inr line \<and> holds_bytes fs' line \<and> validateSanitizedFrame frame = None"
proof -
  from Write_spec(5) [OF assms] obtain line c where 1: "Marshal frame = Inr line"
    "active_content fs' (Clean (js_path s)) = c @ line @ [CHR 0x0A]" "validateSanitizedFrame frame = None" by auto
  then have "active_content fs' (Clean (js_path s)) \<in> contents fs'"
    using active_content_in [of fs' "Clean (js_path s)"] by auto
  with 1 show ?thesis unfolding holds_bytes_def by (metis sublist_append_leftI sublist_order.order_refl)
qed

lemma sink_run_stored:
  "sink_wf s \<Longrightarrow> sink_run Marshal s fs ops = (stored, s', fs') \<Longrightarrow> frame \<in> set stored \<Longrightarrow>
     \<exists>line. Marshal frame = Inr line \<and> holds_bytes fs' line \<and> validateSanitizedFrame frame = None"
proof (induction Marshal s fs ops arbitrary: stored rule: sink_run.induct)
  case (1 Marshal s fs)
  then show ?case by simp
next
  case (2 Marshal s fs env fr ops)
  obtain err s1 fs1 where w: "WriteSanitizedFrame Marshal env s fs fr = (err, s1, fs1)"
    by (cases "WriteSanitizedFrame Marshal env s fs fr")
  note ws = Write_spec [OF "2.prems"(1) w]
  from "2.prems"(2) w obtain stored1 where run: "sink_run Marshal s1 fs1 ops = (stored1, s', fs')"
    and stored: "stored = (if err = None then fr # stored1 else stored1)"
    by (auto split: option.splits prod.splits)
  show ?case
  proof (cases "frame \<in> set stored1")
    case True
    with "2.IH" w ws(3) run show ?thesis by (cases err) auto
  next
    case False
    with "2.prems"(3) stored have "err = None" "frame = fr" by (auto split: if_splits)
    with Write_bytes [OF "2.prems"(1)] w sink_run_keeps [OF ws(3) run] show ?thesis
      by (blast intro: keeps_data_bytes)
  qed
next
  case (3 Marshal s fs env ops)
  then show ?case by (simp add: close_wf)
next
  case (4 Marshal s fs ops)
  then show ?case by (simp add: restart_wf)
qed

section \<open>Properties\<close>

text \<open>An environment without faults, and a frame and an encoder for the examples.\<close>

definition good_os :: "time \<Rightarrow> os_env" where
  "good_os now = \<lparr>oe_Now = now, oe_CtxErr = False, oe_StatErr = False, oe_RotateStatErr = False, oe_ArchiveStatErr = (\<lambda>_. False), oe_RenameErr = False,
     oe_OpenErr = False, oe_FStatErr = False, oe_CloseErr = False, oe_WriteErr = None, oe_SyncErr = False\<rparr>"

definition sample_stored :: "string \<Rightarrow> SanitizedFrame" where
  "sample_stored frameID = zero_SanitizedFrame\<lparr>sf_FrameID := frameID, sf_SanitizedAt := 1,
     sf_Sanitizer := zero_SanitizerMetadata\<lparr>sm_SanitizerVersion := ''sanitize-v0.1.0'', sm_Decision := DecisionAccept\<rparr>\<rparr>"

definition sample_marshal :: "SanitizedFrame \<Rightarrow> string + bytes" where
  "sample_marshal frame = Inr (sf_FrameID frame)"

definition sample_sink :: JSONLSink where
  "sample_sink = \<lparr>js_path = ''frames.jsonl'', js_opts = DefaultJSONLOptions, js_file = None, js_size = 0,
     js_day = [], js_now = id\<rparr>"

lemma sample_new: "NewJSONLSinkWithOptions False ''frames.jsonl'' DefaultJSONLOptions = Inr sample_sink"
  by (simp add: NewJSONLSinkWithOptions_def DefaultJSONLOptions_def sample_sink_def)

lemma Clean_sample [simp]: "Clean ''frames.jsonl'' = ''frames.jsonl''"
  by code_simp

lemma valid_sample: "validateSanitizedFrame (sample_stored frameID) = None"
  by (simp add: validateSanitizedFrame_def sample_stored_def IsZero_def)

lemmas storage_eval =
  WriteSanitizedFrame_def ensureWriter_def rotate_open_def rotate_existing_def open_writer_def write_payload_def
  os_Stat_def open_append_def append_bytes_def valid_sample sample_marshal_def good_os_def DefaultJSONLOptions_def
  sample_sink_def Let_def

lemma sample_write:
  "WriteSanitizedFrame sample_marshal (good_os 0) sample_sink Map.empty (sample_stored ''f1'') =
     (None, sample_sink\<lparr>js_file := Some ''frames.jsonl'', js_size := 3, js_day := format_day 0\<rparr>,
      [''frames.jsonl'' \<mapsto> \<lparr>fl_content = ''f1'' @ [CHR 0x0A], fl_mtime = 0\<rparr>])"
  by (simp add: storage_eval) (simp add: sample_stored_def)

text \<open>Claim C9: no operation of the sink ever loses or changes stored bytes. Over any sequence of
  writes, closes and restarts, with any operating-system faults, every other file in the
  directory (the archives among them) keeps its content, and what was in the sink's file is
  still there or has moved to a name that was free.\<close>

theorem stored_data_never_lost:
  assumes "NewJSONLSinkWithOptions b path opts = Inr s"
    and "sink_run Marshal s fs ops = (stored, s', fs')"
  shows "keeps_data (Clean path) fs fs'"
  using new_sink_wf [OF assms(1)] sink_run_keeps [OF _ assms(2)] by auto

theorem stored_data_never_lost_witness:
  "\<exists>stored s' fs'. sink_run sample_marshal sample_sink
       [''frames.jsonl'' \<mapsto> \<lparr>fl_content = ''old'', fl_mtime = 0\<rparr>, ''other'' \<mapsto> \<lparr>fl_content = ''x'', fl_mtime = 0\<rparr>]
       [OpWrite (good_os 0) (sample_stored ''f1'')] = (stored, s', fs') \<and> stored = [sample_stored ''f1''] \<and>
     keeps_data ''frames.jsonl''
       [''frames.jsonl'' \<mapsto> \<lparr>fl_content = ''old'', fl_mtime = 0\<rparr>, ''other'' \<mapsto> \<lparr>fl_content = ''x'', fl_mtime = 0\<rparr>] fs'"
proof -
  let ?fs = "[''frames.jsonl'' \<mapsto> \<lparr>fl_content = ''old'', fl_mtime = 0\<rparr>, ''other'' \<mapsto> \<lparr>fl_content = ''x'', fl_mtime = 0\<rparr>]"
  obtain s' fs' where run: "sink_run sample_marshal sample_sink ?fs [OpWrite (good_os 0) (sample_stored ''f1'')] =
      ([sample_stored ''f1''], s', fs')" by (simp add: storage_eval)
  from stored_data_never_lost [OF sample_new run] run show ?thesis by auto
qed

text \<open>A frame that the sink reported as stored is valid (it carries a sanitizer version,
  the accept decision and a sanitizing time), and the bytes of its line are found in some file
  at the end of the run, whatever writes, rotations, faults and restarts follow.\<close>

lemma stored_frames_stay_stored:
  assumes "NewJSONLSinkWithOptions b path opts = Inr s"
    and "sink_run Marshal s fs ops = (stored, s', fs')" and "frame \<in> set stored"
  shows "validateSanitizedFrame frame = None \<and> (\<exists>line. Marshal frame = Inr line \<and> holds_bytes fs' line)"
  using sink_run_stored [OF _ assms(2,3)] new_sink_wf [OF assms(1)] by blast

lemma stored_frames_stay_stored_witness:
  "validateSanitizedFrame (sample_stored ''f1'') = None \<and>
   (\<exists>line. sample_marshal (sample_stored ''f1'') = Inr line \<and>
      holds_bytes [''frames.jsonl'' \<mapsto> \<lparr>fl_content = ''f1'' @ [CHR 0x0A], fl_mtime = 0\<rparr>] line)"
proof -
  have 1: "sink_run sample_marshal sample_sink Map.empty [OpWrite (good_os 0) (sample_stored ''f1'')] =
    ([sample_stored ''f1''], sample_sink\<lparr>js_file := Some ''frames.jsonl'', js_size := 3, js_day := format_day 0\<rparr>,
      [''frames.jsonl'' \<mapsto> \<lparr>fl_content = ''f1'' @ [CHR 0x0A], fl_mtime = 0\<rparr>])"
    by (simp add: sample_write)
  have 2: "sample_stored ''f1'' \<in> set [sample_stored ''f1'']" by simp
  from stored_frames_stay_stored [OF sample_new 1 2] show ?thesis .
qed

text \<open>A frame that does not carry a sanitizer version, the accept decision and a
  sanitizing time is refused, and neither the sink nor any file changes.\<close>

lemma unsafe_frame_not_written:
  assumes "sm_SanitizerVersion (sf_Sanitizer frame) = [] \<or>
    sm_Decision (sf_Sanitizer frame) \<noteq> DecisionAccept \<or> sf_SanitizedAt frame = 0"
  shows "WriteSanitizedFrame Marshal env s fs frame =
    (Some (if oe_CtxErr env then ErrContext else ErrUnsafeFrame), s, fs)"
  using assms by (auto simp: WriteSanitizedFrame_def validateSanitizedFrame_def IsZero_def)

lemma unsafe_frame_not_written_witness:
  "fst (WriteSanitizedFrame sample_marshal (good_os 0) sample_sink Map.empty zero_SanitizedFrame) = Some ErrUnsafeFrame"
proof -
  have "sm_SanitizerVersion (sf_Sanitizer zero_SanitizedFrame) = [] \<or>
    sm_Decision (sf_Sanitizer zero_SanitizedFrame) \<noteq> DecisionAccept \<or> sf_SanitizedAt zero_SanitizedFrame = 0"
    by (simp add: zero_SanitizedFrame_def)
  from unsafe_frame_not_written [OF this] show ?thesis by (simp add: good_os_def)
qed

text \<open>Claim C27: rotation keeps the file small. With a size limit and an accurate size count, a
  successful write leaves the sink's file no larger than the limit, unless the line alone is
  larger, in which case it is the only line of the file. Without write and stat faults the
  size count stays accurate.\<close>

theorem active_file_bounded:
  assumes "sink_wf s" and "size_accurate s fs"
    and "WriteSanitizedFrame Marshal env s fs frame = (None, s', fs')"
    and "0 < jo_MaxBytes (js_opts s)" and "Marshal frame = Inr line"
  shows "int (length (active_content fs' (Clean (js_path s)))) \<le>
      max (jo_MaxBytes (js_opts s)) (int (length line) + 1) \<and>
    (jo_MaxBytes (js_opts s) < int (length (active_content fs' (Clean (js_path s)))) \<longrightarrow>
      active_content fs' (Clean (js_path s)) = line @ [CHR 0x0A]) \<and>
    (oe_WriteErr env = None \<and> \<not> oe_FStatErr env \<longrightarrow> size_accurate s' fs')"
proof -
  from Write_spec(5) [OF assms(1,3)] assms(2,4,5) obtain c where
    c: "active_content fs' (Clean (js_path s)) = c @ line @ [CHR 0x0A]"
      "c = [] \<or> int (length (c @ line @ [CHR 0x0A])) \<le> jo_MaxBytes (js_opts s)" by auto
  then have "int (length (active_content fs' (Clean (js_path s)))) \<le>
      max (jo_MaxBytes (js_opts s)) (int (length line) + 1)" by auto
  moreover have "active_content fs' (Clean (js_path s)) = line @ [CHR 0x0A]"
    if "jo_MaxBytes (js_opts s) < int (length (active_content fs' (Clean (js_path s))))" using that c by auto
  ultimately show ?thesis using Write_spec(6) [OF assms(1,3,2)] by blast
qed

theorem active_file_bounded_witness:
  "\<exists>s' fs'. WriteSanitizedFrame sample_marshal (good_os 0) (sample_sink\<lparr>js_opts := DefaultJSONLOptions\<lparr>jo_MaxBytes := 4\<rparr>\<rparr>)
      Map.empty (sample_stored ''f1'') = (None, s', fs') \<and>
    int (length (active_content fs' ''frames.jsonl'')) \<le> max 4 3"
proof -
  let ?s = "sample_sink\<lparr>js_opts := DefaultJSONLOptions\<lparr>jo_MaxBytes := 4\<rparr>\<rparr>"
  obtain s' fs' where w: "WriteSanitizedFrame sample_marshal (good_os 0) ?s Map.empty (sample_stored ''f1'') = (None, s', fs')"
    by (simp add: storage_eval)
  have wf: "sink_wf ?s" and acc: "size_accurate ?s Map.empty"
    by (simp_all add: sink_wf_def size_accurate_def sample_sink_def)
  have pos: "0 < jo_MaxBytes (js_opts ?s)" and m: "sample_marshal (sample_stored ''f1'') = Inr ''f1''"
    and k: "Clean (js_path ?s) = ''frames.jsonl''" and opts: "jo_MaxBytes (js_opts ?s) = 4"
    by (simp_all add: sample_sink_def sample_marshal_def sample_stored_def)
  from active_file_bounded [OF wf acc w pos m] have "int (length (active_content fs' ''frames.jsonl'')) \<le> max 4 3"
    unfolding k opts by simp
  with w show ?thesis by blast
qed

text \<open>Files that consist of complete lines.\<close>

definition write_complete :: "sink_op \<Rightarrow> bool" where
  "write_complete x \<longleftrightarrow> (case x of OpWrite env _ \<Rightarrow> oe_WriteErr env = None | _ \<Rightarrow> True)"

text \<open>What a complete write keeps true of the contents of all files.\<close>

lemma sink_run_contents:
  assumes "Q []"
    and "\<And>c frame line. Q c \<Longrightarrow> P frame \<Longrightarrow> validateSanitizedFrame frame = None \<Longrightarrow> Marshal frame = Inr line \<Longrightarrow>
      Q (c @ line @ [CHR 0x0A])"
    and "list_all write_complete ops" and "\<forall>env frame. OpWrite env frame \<in> set ops \<longrightarrow> P frame"
    and "\<forall>c \<in> contents fs. Q c" and "sink_run Marshal s fs ops = (stored, s', fs')"
  shows "\<forall>c \<in> contents fs'. Q c"
  using assms(3-6)
proof (induction ops arbitrary: s fs stored)
  case (Cons x ops)
  then have ops: "list_all write_complete ops" "\<forall>env frame. OpWrite env frame \<in> set ops \<longrightarrow> P frame" by auto
  show ?case
  proof (cases x)
    case (OpWrite env fr)
    obtain err s1 fs1 where w: "WriteSanitizedFrame Marshal env s fs fr = (err, s1, fs1)"
      by (cases "WriteSanitizedFrame Marshal env s fs fr")
    with Cons.prems(4) OpWrite obtain stored1 where run: "sink_run Marshal s1 fs1 ops = (stored1, s', fs')"
      by (auto split: option.splits prod.splits)
    have fr: "oe_WriteErr env = None" "P fr" using Cons.prems(1,2) OpWrite by (auto simp: write_complete_def)
    have "\<forall>c \<in> contents fs1. Q c"
      using Write_contents [OF w fr(1)] Cons.prems(3) assms(2) [OF _ fr(2)] assms(1) by blast
    from Cons.IH [OF ops this run] show ?thesis .
  next
    case (OpClose env)
    then show ?thesis using Cons.IH [OF ops Cons.prems(3)] Cons.prems(4) by simp
  next
    case OpRestart
    then show ?thesis using Cons.IH [OF ops Cons.prems(3)] Cons.prems(4) by simp
  qed
qed simp

lemma sink_run_whole_lines:
  "list_all write_complete ops \<Longrightarrow> \<forall>c \<in> contents fs. whole_lines c \<Longrightarrow>
     sink_run Marshal s fs ops = (stored, s', fs') \<Longrightarrow> \<forall>c \<in> contents fs'. whole_lines c"
  by (rule sink_run_contents [where P = "\<lambda>_. True"]) (simp_all add: whole_lines_def)

text \<open>As long as every write goes through completely, all files consist of complete
  lines: each ends with a line break or is empty.\<close>

lemma files_hold_whole_lines:
  assumes "list_all write_complete ops" and "\<forall>c \<in> contents fs. whole_lines c"
    and "sink_run Marshal s fs ops = (stored, s', fs')"
  shows "\<forall>c \<in> contents fs'. whole_lines c"
  by (rule sink_run_whole_lines [OF assms])

lemma files_hold_whole_lines_witness: "whole_lines (''f1'' @ [CHR 0x0A])"
proof -
  have 1: "list_all write_complete [OpWrite (good_os 0) (sample_stored ''f1'')]"
    by (simp add: write_complete_def good_os_def)
  have 2: "\<forall>c \<in> contents Map.empty. whole_lines c" by (simp add: contents_def)
  have 3: "sink_run sample_marshal sample_sink Map.empty [OpWrite (good_os 0) (sample_stored ''f1'')] =
    ([sample_stored ''f1''], sample_sink\<lparr>js_file := Some ''frames.jsonl'', js_size := 3, js_day := format_day 0\<rparr>,
      [''frames.jsonl'' \<mapsto> \<lparr>fl_content = ''f1'' @ [CHR 0x0A], fl_mtime = 0\<rparr>])"
    by (simp add: sample_write)
  from files_hold_whole_lines [OF 1 2 3] show ?thesis by (simp add: contents_def)
qed

text \<open>Claim C28: after a write that fails part-way, the next frame is appended to the unfinished
  line, here on an open sink without rotation. The sink neither removes the partial bytes nor starts a new line, so the line of a
  frame that is then reported as stored begins with the remains of another, and the size
  count misses the partial bytes.\<close>

theorem partial_write_joins_frames:
  assumes "js_opts s = DefaultJSONLOptions" and "js_file s = Some (Clean (js_path s))"
    and "validateSanitizedFrame frame1 = None" and "validateSanitizedFrame frame2 = None"
    and "Marshal frame1 = Inr line1" and "Marshal frame2 = Inr line2" and "n \<le> length line1"
    and "size_accurate s fs"
    and "WriteSanitizedFrame Marshal ((good_os t)\<lparr>oe_WriteErr := Some n\<rparr>) s fs frame1 = (err1, s1, fs1)"
    and "WriteSanitizedFrame Marshal (good_os t) s1 fs1 frame2 = (err2, s2, fs2)"
  shows "err1 \<noteq> None \<and> err2 = None \<and>
    active_content fs2 (Clean (js_path s)) =
      active_content fs (Clean (js_path s)) @ take n line1 @ line2 @ [CHR 0x0A] \<and>
    js_size s2 = int (length (active_content fs2 (Clean (js_path s)))) - int n"
proof -
  let ?k = "Clean (js_path s)"
  have 1: "err1 \<noteq> None" "s1 = s" "fs1 = append_bytes t fs ?k (take n line1)"
    using assms(1-3,5,7,9)
    by (auto simp: WriteSanitizedFrame_def ensureWriter_def rotate_open_def write_payload_def good_os_def
        DefaultJSONLOptions_def Let_def)
  have 2: "err2 = None" "fs2 = append_bytes t fs1 ?k (line2 @ [CHR 0x0A])"
    "js_size s2 = js_size s + int (length line2) + 1"
    using assms(1,2,4,6,10) 1(2)
    by (auto simp: WriteSanitizedFrame_def ensureWriter_def rotate_open_def write_payload_def good_os_def
        DefaultJSONLOptions_def Let_def)
  with 1 assms(2,7,8) show ?thesis by (simp add: size_accurate_def)
qed

theorem partial_write_joins_frames_witness:
  "let s = sample_sink\<lparr>js_file := Some ''frames.jsonl''\<rparr>;
       fs1 = snd (snd (WriteSanitizedFrame sample_marshal ((good_os 0)\<lparr>oe_WriteErr := Some 2\<rparr>) s Map.empty (sample_stored ''aaa'')));
       s1 = fst (snd (WriteSanitizedFrame sample_marshal ((good_os 0)\<lparr>oe_WriteErr := Some 2\<rparr>) s Map.empty (sample_stored ''aaa'')));
       fs2 = snd (snd (WriteSanitizedFrame sample_marshal (good_os 0) s1 fs1 (sample_stored ''bbb'')))
   in active_content fs2 ''frames.jsonl'' = ''aabbb'' @ [CHR 0x0A]"
proof -
  let ?s = "sample_sink\<lparr>js_file := Some ''frames.jsonl''\<rparr>"
  obtain err1 s1 fs1 where w1: "WriteSanitizedFrame sample_marshal ((good_os 0)\<lparr>oe_WriteErr := Some 2\<rparr>) ?s Map.empty
      (sample_stored ''aaa'') = (err1, s1, fs1)" by (metis prod_cases3)
  obtain err2 s2 fs2 where w2: "WriteSanitizedFrame sample_marshal (good_os 0) s1 fs1 (sample_stored ''bbb'') = (err2, s2, fs2)"
    by (metis prod_cases3)
  have h: "js_opts ?s = DefaultJSONLOptions" "js_file ?s = Some (Clean (js_path ?s))"
    "sample_marshal (sample_stored ''aaa'') = Inr ''aaa''" "sample_marshal (sample_stored ''bbb'') = Inr ''bbb''"
    "2 \<le> length ''aaa''" "size_accurate ?s Map.empty"
    by (simp_all add: sample_sink_def sample_marshal_def sample_stored_def size_accurate_def active_content_def)
  have "Clean (js_path ?s) = ''frames.jsonl''" by (simp add: sample_sink_def)
  with partial_write_joins_frames [OF h(1,2) valid_sample valid_sample h(3-6) w1 w2] w1 w2 show ?thesis
    by (simp add: Let_def active_content_def)
qed

text \<open>Claim C29: when the UTC day changes while the file is open, the rotated file is named after the
  day its frames belong to, not after the day of the rotation, with a number added if that
  name is taken; the archive has exactly the content of the closed file.\<close>

theorem day_rotation_names_data_day:
  assumes "js_file s = Some (Clean (js_path s))" and "jo_RotateDaily (js_opts s)" and "js_day s \<noteq> []"
    and "format_day now \<noteq> js_day s"
    and "rotate_open env s fs n now (format_day now) = (None, s', fs')"
    and "fs (Clean (js_path s)) = Some f"
  shows "\<exists>i < 100. fs' (Clean (archive_candidate (rotatedPath (js_path s) (js_day s)) i)) = Some f \<and>
    fs (Clean (archive_candidate (rotatedPath (js_path s) (js_day s)) i)) = None"
proof -
  let ?d = "rotatedPath (js_path s) (js_day s)"
  from assms have loop: "rotate_loop env fs (js_path s) ?d 0 = (None, fs')"
    by (auto simp: rotate_open_def rotateLocked_def closeFile_def rotatePathLocked_def archiveStamp_def Let_def
        os_Stat_def split: if_splits prod.splits option.splits)
  with rotate_loop_cases [of 0 fs ?d env "js_path s"] assms(6) show ?thesis
    by (auto simp: os_Rename_def)
qed

theorem day_rotation_names_data_day_witness:
  "let f = \<lparr>fl_content = ''f1'' @ [CHR 0x0A], fl_mtime = 0\<rparr>;
       s = sample_sink\<lparr>js_opts := DefaultJSONLOptions\<lparr>jo_RotateDaily := True\<rparr>, js_file := Some ''frames.jsonl'',
         js_size := 3, js_day := ''20260722''\<rparr>;
       fs' = snd (snd (rotate_open (good_os 0) s [''frames.jsonl'' \<mapsto> f] 3 0 (format_day 0)))
   in \<exists>i < 100. fs' (Clean (archive_candidate (rotatedPath (js_path s) ''20260722'') i)) = Some f"
proof -
  let ?f = "\<lparr>fl_content = ''f1'' @ [CHR 0x0A], fl_mtime = 0\<rparr>"
  let ?s = "sample_sink\<lparr>js_opts := DefaultJSONLOptions\<lparr>jo_RotateDaily := True\<rparr>, js_file := Some ''frames.jsonl'',
         js_size := 3, js_day := ''20260722''\<rparr>"
  have day: "format_day 0 \<noteq> ''20260722''" by code_simp
  have rp: "rotatedPath ''frames.jsonl'' ''20260722'' = ''frames-20260722.jsonl''" by code_simp
  have cl: "Clean ''frames-20260722.jsonl'' = ''frames-20260722.jsonl''" by code_simp
  obtain s' fs' where r: "rotate_open (good_os 0) ?s [''frames.jsonl'' \<mapsto> ?f] 3 0 (format_day 0) = (None, s', fs')"
    using day
    by (simp add: rotate_open_def rotateLocked_def closeFile_def rotatePathLocked_def os_Stat_def good_os_def
        sample_sink_def archiveStamp_def rp rotate_loop.simps [of _ _ _ _ 0] archive_candidate_def cl)
  have h: "js_file ?s = Some (Clean (js_path ?s))" "jo_RotateDaily (js_opts ?s)" "js_day ?s \<noteq> []"
    "format_day 0 \<noteq> js_day ?s" "[''frames.jsonl'' \<mapsto> ?f] (Clean (js_path ?s)) = Some ?f"
    using day by (simp_all add: sample_sink_def)
  from day_rotation_names_data_day [OF h(1-4) r h(5)] r show ?thesis by (auto simp: Let_def)
qed

subsection \<open>The rotation loop\<close>

definition archive_names :: "string \<Rightarrow> string list" where
  "archive_names dest = map (archive_candidate dest) [0..<100]"

definition name_taken :: "os_env \<Rightarrow> fs \<Rightarrow> string \<Rightarrow> bool" where
  "name_taken env fs name \<longleftrightarrow> (case os_Stat (oe_ArchiveStatErr env (Clean name)) fs name of StatOk _ \<Rightarrow> True | _ \<Rightarrow> False)"

definition rotate_to :: "os_env \<Rightarrow> fs \<Rightarrow> string \<Rightarrow> string list \<Rightarrow> storage_error option \<times> fs" where
  "rotate_to env fs path names =
     (case dropWhile (name_taken env fs) names of
        [] \<Rightarrow> (Some (ErrStorage ''rotate storage sink: could not find free archive name''), fs)
      | name # _ \<Rightarrow>
          if oe_ArchiveStatErr env (Clean name) then (Some (ErrStorage ''stat rotated sink''), fs)
          else if oe_RenameErr env then (Some (ErrStorage ''rotate storage sink''), fs)
          else (None, os_Rename fs path name))"

lemma rotate_loop_reference:
  "rotate_loop env fs path dest i = rotate_to env fs path (map (archive_candidate dest) [i..<100])"
proof (induction env fs path dest i rule: rotate_loop.induct)
  case (1 env fs path dest i)
  show ?case
  proof (cases "i < 100")
    case False
    then show ?thesis by (simp add: rotate_loop.simps [of env fs path dest i] rotate_to_def)
  next
    case True
    then have up: "[i..<100] = i # [i + 1..<100]" by (simp add: upt_conv_Cons)
    show ?thesis
    proof (cases "os_Stat (oe_ArchiveStatErr env (Clean (archive_candidate dest i))) fs (archive_candidate dest i)")
      case (StatOk f)
      then have "name_taken env fs (archive_candidate dest i)" by (simp add: name_taken_def)
      with "1.IH" [OF True StatOk] True StatOk show ?thesis
        by (simp add: rotate_loop.simps [of env fs path dest i] rotate_to_def up)
    next
      case StatNotExist
      then have "\<not> name_taken env fs (archive_candidate dest i)" by (simp add: name_taken_def)
      moreover from StatNotExist have "\<not> oe_ArchiveStatErr env (Clean (archive_candidate dest i))" by (simp add: os_Stat_NotExist)
      ultimately show ?thesis using True StatNotExist
        by (simp add: rotate_loop.simps [of env fs path dest i] rotate_to_def up)
    next
      case StatErr
      then have "\<not> name_taken env fs (archive_candidate dest i)" "oe_ArchiveStatErr env (Clean (archive_candidate dest i))"
        by (simp_all add: name_taken_def os_Stat_def split: if_splits option.splits)
      with True StatErr show ?thesis
        by (simp add: rotate_loop.simps [of env fs path dest i] rotate_to_def up)
    qed
  qed
qed

text \<open>Claim C30: the rotation loop always stops with a definite result: it tries the archive name and
  then the names with suffix 1 to 99, moves the file to the first one that is not taken, and
  fails, leaving every file as it was, when all are taken, when the first untaken name cannot
  be examined, or when the rename fails.\<close>

theorem rotation_stops_at_first_free:
  "rotate_loop env fs path dest 0 = rotate_to env fs path (archive_names dest) \<and>
   length (archive_names dest) = 100 \<and> distinct (archive_names dest)"
proof (intro conjI)
  show "rotate_loop env fs path dest 0 = rotate_to env fs path (archive_names dest)"
    unfolding archive_names_def by (rule rotate_loop_reference)
  show "length (archive_names dest) = 100" by (simp add: archive_names_def)
  have "inj (archive_candidate dest)"
    by (auto simp: inj_def archive_candidate_def split: if_splits)
  then show "distinct (archive_names dest)"
    by (simp add: archive_names_def distinct_map inj_on_subset [OF _ subset_UNIV])
qed

end
