(* ===== verification/Json_Store.thy ===== *)
theory Json_Store
  imports Json_Frames Storage
begin

text \<open>
  The storage file as a file of JSON lines: \<open>WriteSanitizedFrame\<close> with \<open>json.Marshal\<close> in place of
  the encoder. Since the text of a frame never contains a line break, the lines of a file are
  the texts that were written, and reading them back gives the frames.
\<close>

section \<open>Lines\<close>

text \<open>The lines of a file, the way \<open>bufio.Scanner\<close> splits it.\<close>

function split_lines :: "bytes \<Rightarrow> bytes list" where
  "split_lines s =
     (if s = [] then []
      else takeWhile (\<lambda>c. c \<noteq> CHR 0x0A) s # split_lines (drop 1 (dropWhile (\<lambda>c. c \<noteq> CHR 0x0A) s)))"
  by pat_completeness auto
termination
proof (relation "measure length", goal_cases)
  case (2 s)
  then have "length (dropWhile (\<lambda>c. c \<noteq> CHR 0x0A) s) \<le> length s" by (simp add: length_dropWhile_le)
  with 2 show ?case by (cases s) auto
qed simp

declare split_lines.simps [simp del]

lemma split_lines_Nil [simp]: "split_lines [] = []"
  by (simp add: split_lines.simps)

lemma split_lines_line: "CHR 0x0A \<notin> set l \<Longrightarrow> split_lines (l @ CHR 0x0A # r) = l # split_lines r"
proof -
  assume "CHR 0x0A \<notin> set l"
  then have "takeWhile (\<lambda>c. c \<noteq> CHR 0x0A) (l @ CHR 0x0A # r) = l" "dropWhile (\<lambda>c. c \<noteq> CHR 0x0A) (l @ CHR 0x0A # r) = CHR 0x0A # r"
    by (auto simp: takeWhile_append dropWhile_append)
  then show ?thesis by (subst split_lines.simps) simp
qed

text \<open>A text that ends with a line break starts with a line and continues with such a text.\<close>

lemma whole_lines_cases:
  assumes "whole_lines c" and "c \<noteq> []"
  obtains l r where "c = l @ CHR 0x0A # r" "CHR 0x0A \<notin> set l" "whole_lines r" "length r < length c"
proof -
  have "CHR 0x0A \<in> set c" using assms unfolding whole_lines_def by (metis last_in_set)
  then obtain l r where c: "c = l @ CHR 0x0A # r" "CHR 0x0A \<notin> set l" by (metis split_list_first)
  moreover have "whole_lines r" using assms(1) by (auto simp: c whole_lines_def split: if_splits)
  ultimately show thesis using that by simp
qed

lemma split_lines_append: "whole_lines c \<Longrightarrow> split_lines (c @ x) = split_lines c @ split_lines x"
proof (induction c rule: length_induct)
  case (1 c)
  show ?case
  proof (cases "c = []")
    case False
    with "1.prems" obtain l r where c: "c = l @ CHR 0x0A # r" "CHR 0x0A \<notin> set l" "whole_lines r" "length r < length c"
      by (rule whole_lines_cases)
    with "1.IH" have "split_lines (r @ x) = split_lines r @ split_lines x" by blast
    with c show ?thesis by (simp add: split_lines_line)
  qed simp
qed

section \<open>Files of frames\<close>

definition reads_frame :: "bytes \<Rightarrow> bool" where
  "reads_frame line \<longleftrightarrow> (case SanitizedFrame_Unmarshal line of Inl _ \<Rightarrow> False | Inr f \<Rightarrow> validateSanitizedFrame f = None)"

definition frame_file :: "bytes \<Rightarrow> bool" where
  "frame_file c \<longleftrightarrow> whole_lines c \<and> list_all reads_frame (split_lines c)"

text \<open>Frames whose text reads back: valid UTF-8, a zone of whole minutes, and no deeper than the decoder allows.\<close>

definition readable :: "SanitizedFrame \<Rightarrow> bool" where
  "readable f \<longleftrightarrow> valid_SanitizedFrame f \<and> 2 * sanitized_height (sf_UIRoot f) < maxNestingDepth"

lemma printable_no_break: "list_all printable s \<Longrightarrow> CHR 0x0A \<notin> set s"
  by (auto simp: list_all_iff printable_def)

lemma readable_line:
  assumes "readable f" and "SanitizedFrame_Marshal f = Inr line"
  shows "SanitizedFrame_Unmarshal line = Inr f"
  using SanitizedFrame_roundtrip [of f] assms by (auto simp: readable_def)

lemma line_appended:
  assumes "whole_lines c" and "SanitizedFrame_Marshal f = Inr line"
  shows "split_lines (c @ line @ [CHR 0x0A]) = split_lines c @ [line]"
  using split_lines_append [OF assms(1)] printable_no_break [OF SanitizedFrame_Marshal_printable [OF assms(2)]]
  by (simp add: split_lines_line)

definition written_frame :: "bytes \<Rightarrow> SanitizedFrame \<Rightarrow> bool" where
  "written_frame c f \<longleftrightarrow> Inr f \<in> SanitizedFrame_Unmarshal ` set (split_lines c)"

text \<open>A line of a file is among its split lines.\<close>

lemma has_line_split:
  assumes "has_line c line" and "SanitizedFrame_Marshal f = Inr line"
  shows "line \<in> set (split_lines c)"
proof -
  obtain before after where c: "c = before @ line @ CHR 0x0A # after" "whole_lines before" using assms(1) by (auto simp: has_line_def)
  with split_lines_append [OF c(2)] printable_no_break [OF SanitizedFrame_Marshal_printable [OF assms(2)]] show ?thesis
    by (simp add: split_lines_line)
qed

lemma held_line_written:
  assumes "holds_line fs line" and "SanitizedFrame_Marshal f = Inr line" and "SanitizedFrame_Unmarshal line = Inr f"
  shows "\<exists>c\<in>contents fs. written_frame c f"
  using assms has_line_split [OF _ assms(2)] by (force simp: holds_line_def written_frame_def)

lemma sink_run_lines:
  assumes "sink_wf s" and "list_all write_complete ops" and "whole_files fs"
    and "sink_run SanitizedFrame_Marshal s fs ops = (stored, s', fs')" and "frame \<in> set stored"
  shows "\<exists>line. SanitizedFrame_Marshal frame = Inr line \<and> holds_line fs' line"
  using assms
proof (induction ops arbitrary: s fs stored)
  case (Cons x ops)
  then have ops: "list_all write_complete ops" by simp
  show ?case
  proof (cases x)
    case (OpWrite env fr)
    obtain err s1 fs1 where w: "WriteSanitizedFrame SanitizedFrame_Marshal env s fs fr = (err, s1, fs1)"
      by (cases "WriteSanitizedFrame SanitizedFrame_Marshal env s fs fr")
    note ws = Write_spec [OF Cons.prems(1) w]
    obtain stored1 where run: "sink_run SanitizedFrame_Marshal s1 fs1 ops = (stored1, s', fs')"
      and stored: "stored = (if err = None then fr # stored1 else stored1)"
      using Cons.prems(4) w OpWrite by (auto split: option.splits prod.splits)
    have "oe_WriteErr env = None" using Cons.prems(2) OpWrite by (simp add: write_complete_def)
    note whole = Write_whole_files [OF w this Cons.prems(3)]
    show ?thesis
    proof (cases "frame \<in> set stored1")
      case True
      from Cons.IH [OF ws(3) ops whole run this] show ?thesis .
    next
      case False
      with Cons.prems(5) stored have "err = None" "frame = fr" by (auto split: if_splits)
      with Write_line [OF Cons.prems(1) _ whole_files_active [OF Cons.prems(3)]] w keeps_data_line [OF sink_run_keeps [OF ws(3) run]]
      show ?thesis by blast
    qed
  next
    case (OpClose env)
    then show ?thesis using Cons.IH [OF close_wf(2) [OF Cons.prems(1)] ops Cons.prems(3)] Cons.prems(4,5) by simp
  next
    case OpRestart
    then show ?thesis using Cons.IH [OF restart_wf(2) ops Cons.prems(3)] Cons.prems(4,5) by simp
  qed
qed simp

section \<open>Properties\<close>

lemma stored_written: "sink_run Marshal s fs ops = (stored, s', fs') \<Longrightarrow> frame \<in> set stored \<Longrightarrow> \<exists>env. OpWrite env frame \<in> set ops"
proof (induction ops arbitrary: s fs stored)
  case (Cons x ops)
  show ?case
  proof (cases x)
    case (OpWrite env fr)
    then show ?thesis using Cons by (fastforce split: prod.splits option.splits)
  qed (use Cons in auto)
qed simp

text \<open>Claim C13: the storage files are readable. Over any sequence of complete writes of frames whose
  strings are valid UTF-8, whose times can be written and have zones of whole minutes, and
  whose trees are not deeper than the decoder allows, of rotations, closes and restarts, every line of every file parses to a sanitized frame
  that passes the sink's own check, and every frame that was reported as stored is among the
  parsed ones.\<close>

theorem stored_frames_read_back:
  assumes "NewJSONLSinkWithOptions b path opts = Inr s" and "list_all write_complete ops"
    and "\<forall>env frame. OpWrite env frame \<in> set ops \<longrightarrow> readable frame" and "\<forall>c\<in>contents fs. frame_file c"
    and "sink_run SanitizedFrame_Marshal s fs ops = (stored, s', fs')"
  shows "(\<forall>c\<in>contents fs'. frame_file c) \<and> (\<forall>frame\<in>set stored. \<exists>c\<in>contents fs'. written_frame c frame)"
proof
  show "\<forall>c\<in>contents fs'. frame_file c"
  proof (rule sink_run_contents [where Q = frame_file, OF _ _ assms(2,3,4,5)])
    fix c frame line
    assume "frame_file c" "readable frame" "validateSanitizedFrame frame = None" "SanitizedFrame_Marshal frame = Inr line"
    then show "frame_file (c @ line @ [CHR 0x0A])"
      by (simp add: frame_file_def line_appended reads_frame_def readable_line whole_lines_def)
  qed (simp add: frame_file_def whole_lines_def)
  show "\<forall>frame\<in>set stored. \<exists>c\<in>contents fs'. written_frame c frame"
  proof
    fix frame assume f: "frame \<in> set stored"
    have whole: "whole_files fs" using assms(4) by (simp add: frame_file_def whole_files_def)
    have "sink_wf s" using new_sink_wf [OF assms(1)] by simp
    from sink_run_lines [OF this assms(2) whole assms(5) f]
    obtain line where l: "SanitizedFrame_Marshal frame = Inr line" "holds_line fs' line" by blast
    have "readable frame" using assms(3) stored_written [OF assms(5) f] by blast
    from held_line_written [OF l(2,1) readable_line [OF this l(1)]] show "\<exists>c\<in>contents fs'. written_frame c frame" .
  qed
qed

text \<open>From here on, literals are shown to be valid by being ASCII.\<close>

declare valid_utf8.simps(2) [simp del]

lemma ascii_simps [simp]:
  "ascii []" "ascii (c # s) \<longleftrightarrow> byte_val c < 128 \<and> ascii s" "ascii (s @ t) \<longleftrightarrow> ascii s \<and> ascii t"
  by (simp_all add: ascii_def)

lemma sample_readable: "readable (sample_stored ''f1'')"
proof -
  have "json_timestamp (in_UTC 1)" "json_timestamp (in_UTC 0)" by code_simp+
  then show ?thesis
    by (simp add: readable_def valid_SanitizedFrame_def sample_stored_def zero_SanitizedFrame_def in_UTC_def
        zero_DeviceMetadata_def valid_DeviceMetadata_def zero_ForegroundApp_def valid_ForegroundApp_def
        zero_DecisionMetadata_def valid_DecisionMetadata_def zero_SanitizedNode_def valid_SanitizedNode_def
        zero_IntentMetadata_def valid_IntentMetadata_def zero_ActionMetadata_def valid_ActionMetadata_def
        zero_UISettleMetadata_def valid_UISettleMetadata_def zero_ScreenshotRef_def valid_ScreenshotRef_def
        zero_SanitizerMetadata_def valid_SanitizerMetadata_def zero_SignatureMetadata_def valid_SignatureMetadata_def
        DecisionAccept_def maxNestingDepth_def ascii_valid)
qed

theorem stored_frames_read_back_witness:
  "\<exists>s' fs'. sink_run SanitizedFrame_Marshal sample_sink Map.empty [OpWrite (good_os 0) (sample_stored ''f1'')] =
      ([sample_stored ''f1''], s', fs') \<and>
    (\<exists>c\<in>contents fs'. written_frame c (sample_stored ''f1''))"
proof -
  let ?ops = "[OpWrite (good_os 0) (sample_stored ''f1'')]"
  obtain line where "SanitizedFrame_Marshal (sample_stored ''f1'') = Inr line"
    using SanitizedFrame_roundtrip [of "sample_stored ''f1''"] sample_readable by (auto simp: readable_def)
  then obtain s' fs' where run: "sink_run SanitizedFrame_Marshal sample_sink Map.empty ?ops = ([sample_stored ''f1''], s', fs')"
    by (simp add: storage_eval)
  have 1: "list_all write_complete ?ops" by (simp add: write_complete_def good_os_def)
  have 2: "\<forall>env frame. OpWrite env frame \<in> set ?ops \<longrightarrow> readable frame" using sample_readable by simp
  have 3: "\<forall>c\<in>contents Map.empty. frame_file c" by (simp add: contents_def)
  from stored_frames_read_back [OF sample_new 1 2 3 run] run show ?thesis by simp
qed

end
