(* ===== verification/Wire.thy ===== *)
theory Wire
  imports Trajectory
begin

text \<open>
  The messages of \<open>gen/golem/v1/telemetry.pb.go\<close> that travel over gRPC, with their
  nil-safe getters. A message pointer is an option; \<open>nil\<close> is \<^const>\<open>None\<close>. The timestamp
  message belongs to the protobuf library, which is not part of the repository, so its
  type is a type variable and its conversions are parameters of the functions that use them.
  The wire enum \<open>Decision\<close> is an open \<open>int32\<close>.
\<close>

section \<open>The wire enum\<close>

type_synonym pbDecision = i32

definition DECISION_UNSPECIFIED :: pbDecision where "DECISION_UNSPECIFIED = 0"
definition DECISION_ACCEPT :: pbDecision where "DECISION_ACCEPT = 1"
definition DECISION_DROP :: pbDecision where "DECISION_DROP = 2"
definition DECISION_QUARANTINE :: pbDecision where "DECISION_QUARANTINE = 3"

lemmas wire_decision_defs =
  DECISION_UNSPECIFIED_def DECISION_ACCEPT_def DECISION_DROP_def DECISION_QUARANTINE_def

section \<open>Messages\<close>

record 'ts SignatureEnvelope =
  pe_ProtocolVersion :: string
  pe_DeviceId :: string
  pe_TrajectoryId :: string
  pe_FrameId :: string
  pe_Sequence :: u64
  pe_SignedAt :: "'ts option"
  pe_CanonicalPayload :: bytes
  pe_DetachedSignature :: bytes
  pe_PayloadSha256Hex :: string
  pe_SignatureAlg :: string
  pe_PublicKeyId :: string
  pe_ClientCertFingerprintSha256 :: string

record 'ts IngestFrameRequest =
  rq_Envelope :: "'ts SignatureEnvelope option"

record IngestFrameResponse =
  rs_RequestId :: string
  rs_Decision :: pbDecision
  rs_ReasonCodes :: "string list"
  rs_SanitizerVersion :: string

definition zero_IngestFrameResponse :: IngestFrameResponse where
  "zero_IngestFrameResponse = \<lparr>rs_RequestId = [], rs_Decision = DECISION_UNSPECIFIED,
     rs_ReasonCodes = [], rs_SanitizerVersion = []\<rparr>"

section \<open>Getters\<close>

definition GetEnvelope :: "'ts IngestFrameRequest option \<Rightarrow> 'ts SignatureEnvelope option" where
  "GetEnvelope x = (case x of None \<Rightarrow> None | Some r \<Rightarrow> rq_Envelope r)"

definition GetRequestId :: "IngestFrameResponse option \<Rightarrow> string" where
  "GetRequestId x = (case x of None \<Rightarrow> [] | Some r \<Rightarrow> rs_RequestId r)"
definition GetDecision :: "IngestFrameResponse option \<Rightarrow> pbDecision" where
  "GetDecision x = (case x of None \<Rightarrow> DECISION_UNSPECIFIED | Some r \<Rightarrow> rs_Decision r)"
definition GetReasonCodes :: "IngestFrameResponse option \<Rightarrow> string list" where
  "GetReasonCodes x = (case x of None \<Rightarrow> [] | Some r \<Rightarrow> rs_ReasonCodes r)"
definition GetSanitizerVersion :: "IngestFrameResponse option \<Rightarrow> string" where
  "GetSanitizerVersion x = (case x of None \<Rightarrow> [] | Some r \<Rightarrow> rs_SanitizerVersion r)"

definition GetProtocolVersion :: "'ts SignatureEnvelope option \<Rightarrow> string" where
  "GetProtocolVersion x = (case x of None \<Rightarrow> [] | Some e \<Rightarrow> pe_ProtocolVersion e)"
definition GetDeviceId :: "'ts SignatureEnvelope option \<Rightarrow> string" where
  "GetDeviceId x = (case x of None \<Rightarrow> [] | Some e \<Rightarrow> pe_DeviceId e)"
definition GetTrajectoryId :: "'ts SignatureEnvelope option \<Rightarrow> string" where
  "GetTrajectoryId x = (case x of None \<Rightarrow> [] | Some e \<Rightarrow> pe_TrajectoryId e)"
definition GetFrameId :: "'ts SignatureEnvelope option \<Rightarrow> string" where
  "GetFrameId x = (case x of None \<Rightarrow> [] | Some e \<Rightarrow> pe_FrameId e)"
definition GetSequence :: "'ts SignatureEnvelope option \<Rightarrow> u64" where
  "GetSequence x = (case x of None \<Rightarrow> 0 | Some e \<Rightarrow> pe_Sequence e)"
definition GetCanonicalPayload :: "'ts SignatureEnvelope option \<Rightarrow> bytes" where
  "GetCanonicalPayload x = (case x of None \<Rightarrow> [] | Some e \<Rightarrow> pe_CanonicalPayload e)"
definition GetDetachedSignature :: "'ts SignatureEnvelope option \<Rightarrow> bytes" where
  "GetDetachedSignature x = (case x of None \<Rightarrow> [] | Some e \<Rightarrow> pe_DetachedSignature e)"
definition GetPayloadSha256Hex :: "'ts SignatureEnvelope option \<Rightarrow> string" where
  "GetPayloadSha256Hex x = (case x of None \<Rightarrow> [] | Some e \<Rightarrow> pe_PayloadSha256Hex e)"
definition GetSignatureAlg :: "'ts SignatureEnvelope option \<Rightarrow> string" where
  "GetSignatureAlg x = (case x of None \<Rightarrow> [] | Some e \<Rightarrow> pe_SignatureAlg e)"
definition GetPublicKeyId :: "'ts SignatureEnvelope option \<Rightarrow> string" where
  "GetPublicKeyId x = (case x of None \<Rightarrow> [] | Some e \<Rightarrow> pe_PublicKeyId e)"
definition GetClientCertFingerprintSha256 :: "'ts SignatureEnvelope option \<Rightarrow> string" where
  "GetClientCertFingerprintSha256 x = (case x of None \<Rightarrow> [] | Some e \<Rightarrow> pe_ClientCertFingerprintSha256 e)"

lemmas getter_defs =
  GetEnvelope_def GetRequestId_def GetDecision_def GetReasonCodes_def GetSanitizerVersion_def
  GetProtocolVersion_def GetDeviceId_def GetTrajectoryId_def GetFrameId_def GetSequence_def
  GetCanonicalPayload_def GetDetachedSignature_def GetPayloadSha256Hex_def GetSignatureAlg_def
  GetPublicKeyId_def GetClientCertFingerprintSha256_def

end
