(* ===== verification/Sha256.thy ===== *)
theory Sha256
  imports Go_Strings
begin

unbundle bit_operations_syntax

text \<open>
  The SHA-256 digest of \<open>crypto/sha256\<close>, which the program applies to payloads, raw UI
  text, identifiers and peer certificates: the padding, the message schedule and the
  compression function of FIPS 180-4 on 32-bit words. The lemmas the program's models use
  are that a digest has 32 bytes and its hexadecimal form 64 hexadecimal digits; collision
  resistance is a cryptographic assumption and appears as an explicit hypothesis wherever a
  property needs it.
\<close>

definition sha_K :: "u32 list" where
  "sha_K = [
      1116352408, 1899447441, 3049323471, 3921009573, 961987163, 1508970993, 2453635748, 2870763221,
      3624381080, 310598401, 607225278, 1426881987, 1925078388, 2162078206, 2614888103, 3248222580,
      3835390401, 4022224774, 264347078, 604807628, 770255983, 1249150122, 1555081692, 1996064986,
      2554220882, 2821834349, 2952996808, 3210313671, 3336571891, 3584528711, 113926993, 338241895,
      666307205, 773529912, 1294757372, 1396182291, 1695183700, 1986661051, 2177026350, 2456956037,
      2730485921, 2820302411, 3259730800, 3345764771, 3516065817, 3600352804, 4094571909, 275423344,
      430227734, 506948616, 659060556, 883997877, 958139571, 1322822218, 1537002063, 1747873779,
      1955562222, 2024104815, 2227730452, 2361852424, 2428436474, 2756734187, 3204031479, 3329325298]"

type_synonym sha_state = "u32 \<times> u32 \<times> u32 \<times> u32 \<times> u32 \<times> u32 \<times> u32 \<times> u32"

definition sha_H0 :: sha_state where
  "sha_H0 = (1779033703, 3144134277, 1013904242, 2773480762, 1359893119, 2600822924, 528734635, 1541459225)"

definition sha_ch :: "u32 \<Rightarrow> u32 \<Rightarrow> u32 \<Rightarrow> u32" where
  "sha_ch x y z = ((x AND y) XOR (NOT x AND z))"

definition sha_maj :: "u32 \<Rightarrow> u32 \<Rightarrow> u32 \<Rightarrow> u32" where
  "sha_maj x y z = ((x AND y) XOR (x AND z) XOR (y AND z))"

definition rotr :: "nat \<Rightarrow> u32 \<Rightarrow> u32" where
  "rotr n x = (drop_bit n x OR push_bit (32 - n) x)"

definition sha_S0 :: "u32 \<Rightarrow> u32" where
  "sha_S0 x = (rotr 2 x XOR rotr 13 x XOR rotr 22 x)"
definition sha_S1 :: "u32 \<Rightarrow> u32" where
  "sha_S1 x = (rotr 6 x XOR rotr 11 x XOR rotr 25 x)"
definition sha_s0 :: "u32 \<Rightarrow> u32" where
  "sha_s0 x = (rotr 7 x XOR rotr 18 x XOR drop_bit 3 x)"
definition sha_s1 :: "u32 \<Rightarrow> u32" where
  "sha_s1 x = (rotr 17 x XOR rotr 19 x XOR drop_bit 10 x)"

text \<open>
  The message schedule as a sliding window of the last sixteen words: each round uses the
  first word of the window and appends the next scheduled one.
\<close>

definition sha_round :: "u32 \<Rightarrow> u32 \<Rightarrow> sha_state \<Rightarrow> sha_state" where
  "sha_round k w st =
     (let (a, b, c, d, e, f, g, h) = st;
          t1 = h + sha_S1 e + sha_ch e f g + k + w;
          t2 = sha_S0 a + sha_maj a b c
      in (t1 + t2, a, b, c, d + t1, e, f, g))"

fun sha_rounds :: "u32 list \<Rightarrow> u32 list \<Rightarrow> sha_state \<Rightarrow> sha_state" where
  "sha_rounds (k # ks) (w0 # ws) st =
     sha_rounds ks (ws @ [sha_s1 (ws ! 13) + ws ! 8 + sha_s0 (ws ! 0) + w0]) (sha_round k w0 st)"
| "sha_rounds _ _ st = st"

definition sha_add :: "sha_state \<Rightarrow> sha_state \<Rightarrow> sha_state" where
  "sha_add s t =
     (let (a, b, c, d, e, f, g, h) = s; (a', b', c', d', e', f', g', h') = t
      in (a + a', b + b', c + c', d + d', e + e', f + f', g + g', h + h'))"

definition sha_block :: "sha_state \<Rightarrow> u32 list \<Rightarrow> sha_state" where
  "sha_block h w = sha_add h (sha_rounds sha_K w h)"

definition be_word :: "char \<Rightarrow> char \<Rightarrow> char \<Rightarrow> char \<Rightarrow> u32" where
  "be_word a b c d = of_char a * 2 ^ 24 + of_char b * 2 ^ 16 + of_char c * 2 ^ 8 + of_char d"

fun words_of :: "bytes \<Rightarrow> u32 list" where
  "words_of (a # b # c # d # bs) = be_word a b c d # words_of bs"
| "words_of _ = []"

text \<open>The bit \<open>1\<close>, zeros up to 56 bytes modulo 64, and the length in bits, big-endian.\<close>

definition be_bytes :: "nat \<Rightarrow> nat \<Rightarrow> bytes" where
  "be_bytes k n = rev (map (\<lambda>i. char_of (n div 256 ^ i mod 256)) [0..<k])"

definition sha_pad :: "bytes \<Rightarrow> bytes" where
  "sha_pad m = m @ [CHR 0x80] @ replicate ((119 - length m mod 64) mod 64) (CHR 0x00) @
     be_bytes 8 (8 * length m)"

fun sha_blocks :: "sha_state \<Rightarrow> u32 list \<Rightarrow> sha_state" where
  "sha_blocks h ws = (if length ws < 16 then h else sha_blocks (sha_block h (take 16 ws)) (drop 16 ws))"

declare sha_blocks.simps [simp del]

definition word_bytes :: "u32 \<Rightarrow> bytes" where
  "word_bytes w = be_bytes 4 (unat w)"

definition state_words :: "sha_state \<Rightarrow> u32 list" where
  "state_words st = (let (a, b, c, d, e, f, g, h) = st in [a, b, c, d, e, f, g, h])"

text \<open>\<open>sha256.Sum256\<close>\<close>

definition sha256_Sum256 :: "bytes \<Rightarrow> bytes" where
  "sha256_Sum256 m = concat (map word_bytes (state_words (sha_blocks sha_H0 (words_of (sha_pad m)))))"

lemma length_be_bytes [simp]: "length (be_bytes k n) = k"
  by (simp add: be_bytes_def)

lemma length_sha256 [simp, bytes_simps]: "length (sha256_Sum256 m) = 32"
proof -
  have "length (concat (map word_bytes ws)) = 4 * length ws" for ws
    by (induction ws) (simp_all add: word_bytes_def)
  moreover have "length (state_words st) = 8" for st
    by (simp add: state_words_def split: prod.split)
  ultimately show ?thesis by (simp add: sha256_Sum256_def)
qed

text \<open>The padded message is a whole number of 64-byte blocks.\<close>

lemma length_sha_pad: "length (sha_pad m) mod 64 = 0"
proof -
  define r where "r = length m mod 64"
  have r: "r < 64" by (simp add: r_def)
  have "(119 - r) mod 64 = (if r < 56 then 55 - r else 119 - r)"
    using r by (simp add: mod_if)
  then have "(r + (9 + (119 - r) mod 64)) mod 64 = 0" using r by (cases "r < 56") simp_all
  then have "(length m + (9 + (119 - r) mod 64)) mod 64 = 0" by (simp add: r_def mod_add_left_eq)
  then show ?thesis by (simp add: sha_pad_def r_def add.commute add.left_commute)
qed

text \<open>The hexadecimal digest, the form in which the program stores and compares digests.\<close>

definition sha256_hex :: "bytes \<Rightarrow> string" where
  "sha256_hex m = EncodeToString (sha256_Sum256 m)"

lemma length_sha256_hex [simp, bytes_simps]: "length (sha256_hex m) = 64"
  by (simp add: sha256_hex_def)

lemma sha256_hex_ne [simp]: "sha256_hex m \<noteq> []"
  using length_sha256_hex [of m] by (metis length_greater_0_conv zero_less_numeral)

lemma sha256_hex_chars: "c \<in> set (sha256_hex m) \<Longrightarrow> is_hex_digit c"
  by (auto simp: sha256_hex_def dest: EncodeToString_set)

lemma sha256_hex_eq_iff: "sha256_hex a = sha256_hex b \<longleftrightarrow> sha256_Sum256 a = sha256_Sum256 b"
  by (auto simp: sha256_hex_def dest: EncodeToString_inj)

end
