(* ===== verification/Signing.thy ===== *)
theory Signing
  imports Wire Sha256
begin

text \<open>
  \<open>pkg/signing\<close>: the signed envelope, the canonical bytes a device signs, signing, and the
  conversions between the domain envelope and the wire message.

  The signature scheme itself (\<open>crypto/ed25519\<close>) is a parameter, a record of its four
  operations; \<open>ed25519_law\<close> is what the program relies on of it: a key made from a seed of 32
  bytes has 64 bytes, its public key 32, a signature 64, and a signature made with such a key
  verifies under its public key. Nothing is assumed of 64 bytes that no seed gives, such as a
  key whose two halves do not belong together.
\<close>

section \<open>Errors\<close>

text \<open>
  The sentinel errors of \<open>pkg/signing\<close> and \<open>internal/auth\<close>. \<open>errors.Is\<close> on a wrapped sentinel
  looks at the constructor; the text added by \<open>fmt.Errorf("%w: ...")\<close> is kept for
  \<open>ErrMalformed\<close>. \<open>ErrOther\<close> is an error that wraps no sentinel, and \<open>GoPanic\<close> stands for a
  run-time panic of the call.
\<close>

datatype error =
    ErrMissingSignature
  | ErrInvalidSignature
  | ErrMalformed string
  | ErrExpiredPayload
  | ErrFuturePayload
  | ErrOversizedPayload
  | ErrUnauthorized
  | ErrReplay
  | ErrReplayStateFull
  | ErrCertMismatch
  | ErrOther string
  | GoPanic string

definition is_panic :: "error \<Rightarrow> bool" where
  "is_panic e \<longleftrightarrow> (case e of GoPanic _ \<Rightarrow> True | _ \<Rightarrow> False)"

lemma is_panic_simps [simp]:
  "is_panic (GoPanic m)" "\<not> is_panic ErrMissingSignature" "\<not> is_panic ErrInvalidSignature"
  "\<not> is_panic (ErrMalformed m)" "\<not> is_panic ErrExpiredPayload" "\<not> is_panic ErrFuturePayload"
  "\<not> is_panic ErrOversizedPayload" "\<not> is_panic ErrUnauthorized" "\<not> is_panic ErrReplay"
  "\<not> is_panic ErrReplayStateFull" "\<not> is_panic ErrCertMismatch" "\<not> is_panic (ErrOther m)"
  by (simp_all add: is_panic_def)

section \<open>The signature scheme\<close>

record ed25519 =
  ed_NewKeyFromSeed :: "bytes \<Rightarrow> bytes"
  ed_Public :: "bytes \<Rightarrow> bytes"
  ed_Sign :: "bytes \<Rightarrow> bytes \<Rightarrow> bytes"
  ed_Verify :: "bytes \<Rightarrow> bytes \<Rightarrow> bytes \<Rightarrow> bool"

definition ed_SeedSize :: nat where "ed_SeedSize = 32"
definition ed_PublicKeySize :: nat where "ed_PublicKeySize = 32"
definition ed_PrivateKeySize :: nat where "ed_PrivateKeySize = 64"
definition ed_SignatureSize :: nat where "ed_SignatureSize = 64"

text \<open>The private keys that the package makes.\<close>

definition genuine_key :: "ed25519 \<Rightarrow> bytes \<Rightarrow> bool" where
  "genuine_key ed sk \<longleftrightarrow> (\<exists>seed. length seed = ed_SeedSize \<and> sk = ed_NewKeyFromSeed ed seed)"

definition ed25519_law :: "ed25519 \<Rightarrow> bool" where
  "ed25519_law ed \<longleftrightarrow>
     (\<forall>sk m. genuine_key ed sk \<longrightarrow>
        length sk = ed_PrivateKeySize \<and>
        length (ed_Public ed sk) = ed_PublicKeySize \<and>
        length (ed_Sign ed sk m) = ed_SignatureSize \<and>
        ed_Verify ed (ed_Public ed sk) m (ed_Sign ed sk m))"

section \<open>Envelopes and their canonical bytes\<close>

definition SignatureAlgEd25519 :: string where "SignatureAlgEd25519 = ''Ed25519''"

record SignedEnvelope =
  se_ProtocolVersion :: string
  se_DeviceID :: string
  se_TrajectoryID :: string
  se_FrameID :: string
  se_Sequence :: u64
  se_SignedAt :: time
  se_Payload :: bytes
  se_DetachedSignature :: bytes
  se_PayloadSHA256Hex :: string
  se_SignatureAlg :: string
  se_PublicKeyID :: string
  se_ClientCertFingerprintSHA256 :: string

abbreviation nl :: char where "nl \<equiv> CHR 0x0A"

definition canonical_prefix :: "SignedEnvelope \<Rightarrow> string" where
  "canonical_prefix e =
     ''golem-harness-signature-v2'' @ [nl] @
     ''protocol_version='' @ se_ProtocolVersion e @ [nl] @
     ''device_id='' @ se_DeviceID e @ [nl] @
     ''trajectory_id='' @ se_TrajectoryID e @ [nl] @
     ''frame_id='' @ se_FrameID e @ [nl] @
     ''sequence='' @ FormatUint (se_Sequence e) @ [nl] @
     ''signed_at='' @ format_RFC3339Nano (se_SignedAt e) @ [nl] @
     ''payload_sha256_hex='' @ se_PayloadSHA256Hex e @ [nl] @
     ''signature_alg='' @ se_SignatureAlg e @ [nl] @
     ''public_key_id='' @ se_PublicKeyID e @ [nl] @
     ''client_cert_fingerprint_sha256='' @ se_ClientCertFingerprintSHA256 e @ [nl, nl]"

definition CanonicalBytes :: "SignedEnvelope \<Rightarrow> error + bytes" where
  "CanonicalBytes e =
     (if se_ProtocolVersion e = [] \<or> se_DeviceID e = [] \<or> se_TrajectoryID e = [] \<or> se_FrameID e = []
      then Inl (ErrMalformed ''canonical envelope fields are required'')
      else if se_PayloadSHA256Hex e = [] then Inl (ErrMalformed ''payload hash is required'')
      else if se_SignatureAlg e = [] then Inl (ErrMalformed ''signature_alg is required'')
      else Inr (canonical_prefix e @ se_Payload e))"

definition HashPayload :: "bytes \<Rightarrow> string" where
  "HashPayload payload = EncodeToString (sha256_Sum256 payload)"

definition SafeHash :: "string \<Rightarrow> string" where
  "SafeHash value = EncodeToString (sha256_Sum256 value)"

definition SignEnvelope :: "ed25519 \<Rightarrow> bytes \<Rightarrow> SignedEnvelope \<Rightarrow> error + SignedEnvelope" where
  "SignEnvelope ed privateKey envelope =
     (if length privateKey \<noteq> ed_PrivateKeySize
      then Inl (ErrOther ''ed25519 private key must be 64 bytes'')
      else
        let envelope = (if se_SignatureAlg envelope = []
                        then envelope\<lparr>se_SignatureAlg := SignatureAlgEd25519\<rparr> else envelope)
        in if se_SignatureAlg envelope \<noteq> SignatureAlgEd25519
           then Inl (ErrMalformed ''unsupported signature algorithm'')
           else
             let envelope = envelope\<lparr>se_PayloadSHA256Hex := HashPayload (se_Payload envelope)\<rparr>
             in case CanonicalBytes envelope of
                  Inl err \<Rightarrow> Inl err
                | Inr canonical \<Rightarrow>
                    Inr (envelope\<lparr>se_DetachedSignature := ed_Sign ed privateKey canonical\<rparr>))"

section \<open>Wire conversions\<close>

definition EnvelopeFromProto ::
  "('ts \<Rightarrow> time) \<Rightarrow> 'ts SignatureEnvelope option \<Rightarrow> error + SignedEnvelope" where
  "EnvelopeFromProto AsTime pb =
     (case pb of
        None \<Rightarrow> Inl (ErrMalformed ''missing envelope'')
      | Some e \<Rightarrow>
          (case pe_SignedAt e of
             None \<Rightarrow> Inl (ErrMalformed ''signed_at is required'')
           | Some ts \<Rightarrow> Inr \<lparr>
               se_ProtocolVersion = GetProtocolVersion pb,
               se_DeviceID = GetDeviceId pb,
               se_TrajectoryID = GetTrajectoryId pb,
               se_FrameID = GetFrameId pb,
               se_Sequence = GetSequence pb,
               se_SignedAt = AsTime ts,
               se_Payload = GetCanonicalPayload pb,
               se_DetachedSignature = GetDetachedSignature pb,
               se_PayloadSHA256Hex = GetPayloadSha256Hex pb,
               se_SignatureAlg = GetSignatureAlg pb,
               se_PublicKeyID = GetPublicKeyId pb,
               se_ClientCertFingerprintSHA256 = GetClientCertFingerprintSha256 pb\<rparr>))"

definition EnvelopeToProto :: "(time \<Rightarrow> 'ts) \<Rightarrow> SignedEnvelope \<Rightarrow> 'ts SignatureEnvelope" where
  "EnvelopeToProto NewTs e = \<lparr>
     pe_ProtocolVersion = se_ProtocolVersion e,
     pe_DeviceId = se_DeviceID e,
     pe_TrajectoryId = se_TrajectoryID e,
     pe_FrameId = se_FrameID e,
     pe_Sequence = se_Sequence e,
     pe_SignedAt = (if IsZero (se_SignedAt e) then None else Some (NewTs (se_SignedAt e))),
     pe_CanonicalPayload = se_Payload e,
     pe_DetachedSignature = se_DetachedSignature e,
     pe_PayloadSha256Hex = se_PayloadSHA256Hex e,
     pe_SignatureAlg = se_SignatureAlg e,
     pe_PublicKeyId = se_PublicKeyID e,
     pe_ClientCertFingerprintSha256 = se_ClientCertFingerprintSHA256 e\<rparr>"

definition DecisionToProto :: "Decision \<Rightarrow> pbDecision" where
  "DecisionToProto d =
     (if d = DecisionAccept then DECISION_ACCEPT
      else if d = DecisionDrop then DECISION_DROP
      else if d = DecisionQuarantine then DECISION_QUARANTINE
      else DECISION_UNSPECIFIED)"

definition DecisionFromProto :: "pbDecision \<Rightarrow> Decision" where
  "DecisionFromProto d =
     (if d = DECISION_ACCEPT then DecisionAccept
      else if d = DECISION_DROP then DecisionDrop
      else if d = DECISION_QUARANTINE then DecisionQuarantine
      else [])"

section \<open>Facts shared by the clients\<close>

lemma CanonicalBytes_DetachedSignature [simp]:
  "CanonicalBytes (e\<lparr>se_DetachedSignature := s\<rparr>) = CanonicalBytes e"
  by (simp add: CanonicalBytes_def canonical_prefix_def)

lemma CanonicalBytes_Inr_iff:
  "CanonicalBytes e = Inr b \<longleftrightarrow>
     se_ProtocolVersion e \<noteq> [] \<and> se_DeviceID e \<noteq> [] \<and> se_TrajectoryID e \<noteq> [] \<and>
     se_FrameID e \<noteq> [] \<and> se_PayloadSHA256Hex e \<noteq> [] \<and> se_SignatureAlg e \<noteq> [] \<and>
     b = canonical_prefix e @ se_Payload e"
  by (auto simp: CanonicalBytes_def)

lemma length_HashPayload [simp, bytes_simps]: "length (HashPayload p) = 64"
  by (simp add: HashPayload_def)

lemma HashPayload_ne [simp]: "HashPayload p \<noteq> []"
  using length_HashPayload [of p] by (metis length_greater_0_conv zero_less_numeral)

lemma length_SafeHash [simp, bytes_simps]: "length (SafeHash v) = 64"
  by (simp add: SafeHash_def)

lemma SignEnvelope_Inr:
  assumes "SignEnvelope ed sk e = Inr e'"
  shows "length sk = ed_PrivateKeySize"
    "e' = e\<lparr>se_SignatureAlg := SignatureAlgEd25519, se_PayloadSHA256Hex := HashPayload (se_Payload e),
            se_DetachedSignature := ed_Sign ed sk (canonical_prefix e' @ se_Payload e)\<rparr>"
    "CanonicalBytes e' = Inr (canonical_prefix e' @ se_Payload e')"
  using assms
  by (auto simp: SignEnvelope_def CanonicalBytes_Inr_iff canonical_prefix_def Let_def
      split: if_splits sum.splits)

section \<open>The canonical bytes as a list of lines\<close>

definition line_of :: "string \<times> string \<Rightarrow> string" where
  "line_of kv = fst kv @ snd kv @ [nl]"

definition canonical_fields :: "SignedEnvelope \<Rightarrow> (string \<times> string) list" where
  "canonical_fields e =
     [(''protocol_version='', se_ProtocolVersion e),
      (''device_id='', se_DeviceID e),
      (''trajectory_id='', se_TrajectoryID e),
      (''frame_id='', se_FrameID e),
      (''sequence='', FormatUint (se_Sequence e)),
      (''signed_at='', format_RFC3339Nano (se_SignedAt e)),
      (''payload_sha256_hex='', se_PayloadSHA256Hex e),
      (''signature_alg='', se_SignatureAlg e),
      (''public_key_id='', se_PublicKeyID e),
      (''client_cert_fingerprint_sha256='', se_ClientCertFingerprintSHA256 e)]"

lemma canonical_prefix_lines:
  "canonical_prefix e =
     ''golem-harness-signature-v2'' @ [nl] @ concat (map line_of (canonical_fields e)) @ [nl]"
  by (simp add: canonical_prefix_def canonical_fields_def line_of_def)

lemma lines_inj:
  assumes "concat (map line_of xs) @ r = concat (map line_of ys) @ r'"
    and "map fst xs = map fst ys"
    and "\<forall>kv\<in>set xs. nl \<notin> set (snd kv)" and "\<forall>kv\<in>set ys. nl \<notin> set (snd kv)"
  shows "xs = ys \<and> r = r'"
  using assms
proof (induction xs arbitrary: ys)
  case Nil
  then show ?case by simp
next
  case (Cons x xs)
  then obtain y ys' where ys: "ys = y # ys'" by (cases ys) auto
  with Cons.prems have "snd x @ nl # (concat (map line_of xs) @ r) = snd y @ nl # (concat (map line_of ys') @ r')"
    by (simp add: line_of_def [of x] line_of_def [of y])
  from append_nl_inj [OF this] Cons.prems ys
  have "snd x = snd y" and "concat (map line_of xs) @ r = concat (map line_of ys') @ r'"
    by simp_all
  with Cons.IH [of ys'] Cons.prems ys show ?case by (auto intro: prod_eqI)
qed

text \<open>An envelope whose text fields contain no line break.\<close>

definition line_clean :: "SignedEnvelope \<Rightarrow> bool" where
  "line_clean e \<longleftrightarrow>
     (\<forall>s\<in>{se_ProtocolVersion e, se_DeviceID e, se_TrajectoryID e, se_FrameID e,
           se_PayloadSHA256Hex e, se_SignatureAlg e, se_PublicKeyID e,
           se_ClientCertFingerprintSHA256 e}. nl \<notin> set s)"

lemma nl_not_formatted: "nl \<notin> set (FormatUint w)" "nl \<notin> set (format_RFC3339Nano t)"
proof -
  have "\<not> is_digit nl" by (simp add: is_digit_def)
  then show "nl \<notin> set (FormatUint w)" "nl \<notin> set (format_RFC3339Nano t)"
    using FormatUint_digits [of nl w] format_RFC3339Nano_chars [of nl t] by auto
qed

lemma canonical_fields_clean: "line_clean e \<Longrightarrow> \<forall>kv\<in>set (canonical_fields e). nl \<notin> set (snd kv)"
  by (simp add: line_clean_def canonical_fields_def nl_not_formatted)

lemma canonical_inj:
  assumes "CanonicalBytes e = Inr b" and "CanonicalBytes e' = Inr b"
    and "line_clean e" and "line_clean e'"
  shows "e' = e\<lparr>se_DetachedSignature := se_DetachedSignature e'\<rparr>"
proof -
  from assms(1,2) have "canonical_prefix e @ se_Payload e = canonical_prefix e' @ se_Payload e'"
    by (simp add: CanonicalBytes_Inr_iff)
  then have eq: "concat (map line_of (canonical_fields e)) @ (nl # se_Payload e) =
      concat (map line_of (canonical_fields e')) @ (nl # se_Payload e')"
    by (simp add: canonical_prefix_lines)
  have keys: "map fst (canonical_fields e) = map fst (canonical_fields e')"
    by (simp add: canonical_fields_def)
  from lines_inj [OF eq keys canonical_fields_clean [OF assms(3)] canonical_fields_clean [OF assms(4)]]
  show ?thesis
    by (auto simp: canonical_fields_def dest: format_RFC3339Nano_inj)
qed

section \<open>Properties\<close>

text \<open>Claim C38: the canonical bytes are unambiguous for envelopes whose text fields contain no
  line break: two such envelopes with the same canonical bytes agree in every field, the
  payload included, apart from the detached signature, which the canonical bytes do not
  cover.\<close>

theorem canonical_bytes_injective:
  assumes "CanonicalBytes e = Inr b" and "CanonicalBytes e' = Inr b"
    and "line_clean e" and "line_clean e'"
  shows "e' = e\<lparr>se_DetachedSignature := se_DetachedSignature e'\<rparr>"
  by (rule canonical_inj [OF assms])

definition sample_envelope :: SignedEnvelope where
  "sample_envelope = \<lparr>se_ProtocolVersion = ''golem.v1'', se_DeviceID = ''test-device'',
     se_TrajectoryID = ''test-trajectory'', se_FrameID = ''frame-1'', se_Sequence = 1,
     se_SignedAt = 63915825600000000000, se_Payload = ''{}'', se_DetachedSignature = [],
     se_PayloadSHA256Hex = ''00'', se_SignatureAlg = SignatureAlgEd25519,
     se_PublicKeyID = ''test-key'', se_ClientCertFingerprintSHA256 = []\<rparr>"

theorem canonical_bytes_injective_witness:
  "\<exists>b. CanonicalBytes sample_envelope = Inr b \<and>
     CanonicalBytes (sample_envelope\<lparr>se_DetachedSignature := ''s''\<rparr>) = Inr b \<and>
     sample_envelope\<lparr>se_DetachedSignature := ''s''\<rparr> =
       sample_envelope\<lparr>se_DetachedSignature := se_DetachedSignature (sample_envelope\<lparr>se_DetachedSignature := ''s''\<rparr>)\<rparr>"
proof -
  let ?e = "sample_envelope" and ?b = "canonical_prefix sample_envelope @ se_Payload sample_envelope"
  have b: "CanonicalBytes ?e = Inr ?b"
    by (simp add: CanonicalBytes_Inr_iff) (simp add: sample_envelope_def SignatureAlgEd25519_def)
  have c: "CanonicalBytes ?e = Inr ?b" "CanonicalBytes (?e\<lparr>se_DetachedSignature := ''s''\<rparr>) = Inr ?b"
    using b by simp_all
  have l: "line_clean ?e" "line_clean (?e\<lparr>se_DetachedSignature := ''s''\<rparr>)"
    by (simp_all add: line_clean_def sample_envelope_def SignatureAlgEd25519_def)
  show ?thesis using canonical_bytes_injective [OF c l] c by blast
qed

text \<open>Without that restriction they are ambiguous: a line break in the trajectory id can be traded
  for one in the frame id.\<close>

lemma canonical_traded:
  assumes "CanonicalBytes e = Inr b" and "se_TrajectoryID e = (c # t) @ [nl] @ ''frame_id='' @ x"
  shows "CanonicalBytes (e\<lparr>se_TrajectoryID := c # t, se_FrameID := x @ [nl] @ ''frame_id='' @ se_FrameID e\<rparr>) = Inr b"
  using assms by (auto simp: CanonicalBytes_def canonical_prefix_def split: if_splits)

text \<open>Converting an envelope to the wire message and back gives the same envelope,
  except that a zero signing time is dropped on the way out and rejected on the way in.\<close>

lemma envelope_wire_roundtrip:
  assumes "\<And>t. AsTime (NewTs t) = t"
  shows "EnvelopeFromProto AsTime (Some (EnvelopeToProto NewTs e)) =
    (if IsZero (se_SignedAt e) then Inl (ErrMalformed ''signed_at is required'') else Inr e)"
  by (simp add: EnvelopeFromProto_def EnvelopeToProto_def getter_defs assms)

lemma envelope_wire_roundtrip_witness:
  "(\<forall>t::int. (\<lambda>(s, n). s * second + n) (t div second, t mod second) = t) \<and>
   EnvelopeFromProto (\<lambda>(s, n). s * second + n)
     (Some (EnvelopeToProto (\<lambda>t. (t div second, t mod second)) sample_envelope)) = Inr sample_envelope"
proof -
  have law: "\<And>t::int. (\<lambda>(s, n). s * second + n) (t div second, t mod second) = t" by simp
  have nz: "\<not> IsZero (se_SignedAt sample_envelope)" by (simp add: IsZero_def sample_envelope_def)
  show ?thesis
    using envelope_wire_roundtrip [of "\<lambda>(s, n). s * second + n" "\<lambda>t. (t div second, t mod second)" sample_envelope, OF law] nz
    by simp
qed

text \<open>The two decision mappings are inverse on the three named decisions; every other
  decision is sent as unspecified, and every other wire value, unknown ones included, is
  read as the empty decision.\<close>

lemma decision_wire_roundtrip:
  "DecisionFromProto (DecisionToProto d) =
     (if d \<in> {DecisionAccept, DecisionDrop, DecisionQuarantine} then d else []) \<and>
   DecisionToProto (DecisionFromProto p) =
     (if p \<in> {DECISION_ACCEPT, DECISION_DROP, DECISION_QUARANTINE} then p else DECISION_UNSPECIFIED)"
  by (simp add: DecisionFromProto_def DecisionToProto_def wire_decision_defs)

end
