(* ===== verification/Replay.thy ===== *)
theory Replay
  imports Signing
begin

text \<open>
  The two replay guards of \<open>internal/auth\<close>: \<open>MemoryReplayGuard\<close> (\<open>auth.go\<close>) and
  \<open>SQLiteReplayGuard\<close> (\<open>replay_sqlite.go\<close>), behind the interface \<open>ReplayGuard\<close>. The
  interface's contract is the locale \<open>replay_guard\<close>; what every sequence of calls
  guarantees is proved there once, and both guards are shown to satisfy the contract. Both
  also refine one abstract specification, so they agree with each other wherever the memory
  guard is not full and the database does not fail.

  A guard call takes the environment of the call as an argument: nothing for the memory
  guard, the faults of the database for the SQLite guard. The mutexes make calls atomic.
\<close>

type_synonym ('e, 'g) check_and_record =
  "'e \<Rightarrow> 'g \<Rightarrow> string \<Rightarrow> string \<Rightarrow> u64 \<Rightarrow> error option \<times> 'g"

section \<open>The memory guard\<close>

record replayState =
  maxSequence :: u64
  seenFrames :: "string set"

record MemoryReplayGuard =
  mg_devices :: "string \<rightharpoonup> replayState"
  mg_maxSeenFrames :: int

definition MaxMemorySeenFrames :: int where "MaxMemorySeenFrames = 100000"

definition NewMemoryReplayGuard :: MemoryReplayGuard where
  "NewMemoryReplayGuard = \<lparr>mg_devices = Map.empty, mg_maxSeenFrames = MaxMemorySeenFrames\<rparr>"

definition SetMaxSeenFramesForTest :: "MemoryReplayGuard option \<Rightarrow> int \<Rightarrow> MemoryReplayGuard option" where
  "SetMaxSeenFramesForTest g n = map_option (\<lambda>g. g\<lparr>mg_maxSeenFrames := n\<rparr>) g"

definition Memory_CheckAndRecord :: "(unit, MemoryReplayGuard) check_and_record" where
  "Memory_CheckAndRecord env g deviceID frameID sequence =
     (if deviceID = [] \<or> frameID = []
      then (Some (ErrMalformed ''device id and frame id are required''), g)
      else
        let state = (case mg_devices g deviceID of
                       None \<Rightarrow> \<lparr>maxSequence = 0, seenFrames = {}\<rparr> | Some st \<Rightarrow> st);
            g = g\<lparr>mg_devices := (mg_devices g)(deviceID \<mapsto> state)\<rparr>
        in if frameID \<in> seenFrames state then (Some ErrReplay, g)
           else if sequence \<le> maxSequence state then (Some ErrReplay, g)
           else
             let limit = (if mg_maxSeenFrames g \<le> 0 then MaxMemorySeenFrames else mg_maxSeenFrames g)
             in if limit \<le> int (card (seenFrames state)) then (Some ErrReplayStateFull, g)
                else (None, g\<lparr>mg_devices := (mg_devices g)(deviceID \<mapsto>
                        \<lparr>maxSequence = sequence, seenFrames = insert frameID (seenFrames state)\<rparr>)\<rparr>))"

section \<open>The SQLite guard\<close>

text \<open>
  The database holds two tables: \<open>device_state\<close>, keyed by device, and \<open>seen_frames\<close>, keyed by
  device and frame. A transaction works on a copy of the tables that \<open>Commit\<close> installs and
  \<open>Rollback\<close> drops. \<open>sql_env\<close> says which statement of a call fails, what a failing commit
  leaves behind, and which \<open>uint64\<close> values the driver accepts as a statement argument.
\<close>

record replay_db =
  device_state :: "string \<rightharpoonup> u64"
  seen_frames :: "(string \<times> string) set"

definition empty_db :: replay_db where
  "empty_db = \<lparr>device_state = Map.empty, seen_frames = {}\<rparr>"

datatype commit_result = Committed | CommitLost | CommitUnreported

record sql_env =
  sq_Begin :: bool
  sq_SelectFrame :: bool
  sq_SelectSequence :: bool
  sq_InsertFrame :: bool
  sq_UpsertSequence :: bool
  sq_Commit :: commit_result
  sq_BindUint64 :: "u64 \<Rightarrow> bool"

datatype db_conn = DbOpen | DbClosed

record SQLiteReplayGuard =
  sg_db :: "db_conn option"

record sqlite_open_env =
  so_MkdirAll :: bool
  so_Open :: bool
  so_WAL :: bool
  so_BusyTimeout :: bool
  so_Schema :: bool

text \<open>\<open>CREATE TABLE IF NOT EXISTS\<close>, on the database files by path.\<close>

definition create_tables :: "string \<Rightarrow> (string \<rightharpoonup> replay_db) \<Rightarrow> (string \<rightharpoonup> replay_db)" where
  "create_tables path disk =
     disk(path \<mapsto> (case disk path of None \<Rightarrow> empty_db | Some db \<Rightarrow> db))"

definition NewSQLiteReplayGuard ::
  "sqlite_open_env \<Rightarrow> string \<Rightarrow> (string \<rightharpoonup> replay_db) \<Rightarrow> (error + SQLiteReplayGuard) \<times> (string \<rightharpoonup> replay_db)" where
  "NewSQLiteReplayGuard env path disk =
     (if path = [] then (Inl (ErrMalformed ''replay path is required''), disk)
      else if so_MkdirAll env then (Inl (ErrOther ''create replay directory''), disk)
      else if so_Open env then (Inl (ErrOther ''open replay db''), disk)
      else if so_WAL env then (Inl (ErrOther ''replay db wal''), disk)
      else if so_BusyTimeout env then (Inl (ErrOther ''replay db busy_timeout''), disk)
      else if so_Schema env then (Inl (ErrOther ''replay db schema''), disk)
      else (Inr \<lparr>sg_db = Some DbOpen\<rparr>, create_tables path disk))"

definition SQLite_Close :: "SQLiteReplayGuard option \<Rightarrow> SQLiteReplayGuard option" where
  "SQLite_Close g = map_option (\<lambda>g. g\<lparr>sg_db := map_option (\<lambda>_. DbClosed) (sg_db g)\<rparr>) g"

text \<open>
  The statements of the transaction. The insert fails when the primary key exists; the
  upsert replaces the sequence; a lookup without a row leaves the variable at zero.
\<close>

definition insert_frame :: "replay_db \<Rightarrow> string \<Rightarrow> string \<Rightarrow> replay_db option" where
  "insert_frame db d f =
     (if (d, f) \<in> seen_frames db then None
      else Some (db\<lparr>seen_frames := insert (d, f) (seen_frames db)\<rparr>))"

definition upsert_sequence :: "replay_db \<Rightarrow> string \<Rightarrow> u64 \<Rightarrow> replay_db" where
  "upsert_sequence db d s = db\<lparr>device_state := (device_state db)(d \<mapsto> s)\<rparr>"

definition SQLite_CheckAndRecord ::
  "SQLiteReplayGuard option \<Rightarrow> (sql_env, replay_db) check_and_record" where
  "SQLite_CheckAndRecord g env db deviceID frameID sequence =
     (if deviceID = [] \<or> frameID = []
      then (Some (ErrMalformed ''device id and frame id are required''), db)
      else case Option.bind g sg_db of
        None \<Rightarrow> (Some (ErrMalformed ''replay guard is not open''), db)
      | Some conn \<Rightarrow>
          if sq_Begin env \<or> conn = DbClosed then (Some (ErrOther ''replay begin''), db)
          else if sq_SelectFrame env then (Some (ErrOther ''replay lookup frame''), db)
          else if (deviceID, frameID) \<in> seen_frames db then (Some ErrReplay, db)
          else if sq_SelectSequence env then (Some (ErrOther ''replay lookup sequence''), db)
          else
            let max_sequence = (case device_state db deviceID of None \<Rightarrow> 0 | Some s \<Rightarrow> s)
            in if sequence \<le> max_sequence then (Some ErrReplay, db)
               else
                 (case (if sq_InsertFrame env then None else insert_frame db deviceID frameID) of
                    None \<Rightarrow> (Some (ErrOther ''replay insert frame''), db)
                  | Some tx \<Rightarrow>
                      if sq_UpsertSequence env \<or> \<not> sq_BindUint64 env sequence
                      then (Some (ErrOther ''replay upsert sequence''), db)
                      else
                        let tx = upsert_sequence tx deviceID sequence
                        in case sq_Commit env of
                             Committed \<Rightarrow> (None, tx)
                           | CommitLost \<Rightarrow> (Some (ErrOther ''replay commit''), db)
                           | CommitUnreported \<Rightarrow> (Some (ErrOther ''replay commit''), tx)))"

section \<open>The abstract specification\<close>

text \<open>
  What a replay guard promises, without storage limits and faults: a set of recorded frames
  and the highest sequence recorded per device.
\<close>

record replay_spec =
  sp_seen :: "(string \<times> string) set"
  sp_max :: "string \<Rightarrow> u64"

definition spec_check :: "replay_spec \<Rightarrow> string \<Rightarrow> string \<Rightarrow> u64 \<Rightarrow> error option \<times> replay_spec" where
  "spec_check sp d f s =
     (if d = [] \<or> f = [] then (Some (ErrMalformed ''device id and frame id are required''), sp)
      else if (d, f) \<in> sp_seen sp \<or> s \<le> sp_max sp d then (Some ErrReplay, sp)
      else (None, \<lparr>sp_seen = insert (d, f) (sp_seen sp), sp_max = (sp_max sp)(d := s)\<rparr>))"

definition memory_abs :: "MemoryReplayGuard \<Rightarrow> replay_spec" where
  "memory_abs g = \<lparr>
     sp_seen = {(d, f). \<exists>st. mg_devices g d = Some st \<and> f \<in> seenFrames st},
     sp_max = (\<lambda>d. case mg_devices g d of None \<Rightarrow> 0 | Some st \<Rightarrow> maxSequence st)\<rparr>"

definition db_abs :: "replay_db \<Rightarrow> replay_spec" where
  "db_abs db = \<lparr>
     sp_seen = seen_frames db,
     sp_max = (\<lambda>d. case device_state db d of None \<Rightarrow> 0 | Some s \<Rightarrow> s)\<rparr>"

section \<open>Runs of guard calls\<close>

text \<open>The calls a guard accepts, in order, and its final state.\<close>

fun guard_run :: "('e, 'g) check_and_record \<Rightarrow> 'g \<Rightarrow> ('e \<times> string \<times> string \<times> u64) list \<Rightarrow>
    (string \<times> string \<times> u64) list \<times> 'g" where
  "guard_run check g [] = ([], g)"
| "guard_run check g ((env, d, f, s) # calls) =
     (case check env g d f s of
        (None, g') \<Rightarrow> (let (acc, g'') = guard_run check g' calls in ((d, f, s) # acc, g''))
      | (Some _, g') \<Rightarrow> guard_run check g' calls)"

text \<open>Of two calls for the same device, the later one has the larger sequence.\<close>

definition per_device_increasing :: "(string \<times> string \<times> u64) list \<Rightarrow> bool" where
  "per_device_increasing acc \<longleftrightarrow> sorted_wrt (\<lambda>(d, f, s) (d', f', s'). d = d' \<longrightarrow> s < s') acc"

section \<open>The contract of a replay guard\<close>

locale replay_guard =
  fixes check :: "('e, 'g) check_and_record"
    and view :: "'g \<Rightarrow> replay_spec"
  assumes accept_fresh: "check env g d f s = (None, g') \<Longrightarrow>
      d \<noteq> [] \<and> f \<noteq> [] \<and> (d, f) \<notin> sp_seen (view g) \<and> sp_max (view g) d < s"
    and accept_records: "check env g d f s = (None, g') \<Longrightarrow>
      view g' = \<lparr>sp_seen = insert (d, f) (sp_seen (view g)), sp_max = (sp_max (view g))(d := s)\<rparr>"
    and reject_keeps: "check env g d f s = (Some e, g') \<Longrightarrow>
      sp_seen (view g) \<subseteq> sp_seen (view g') \<and> sp_max (view g) d' \<le> sp_max (view g') d'"
begin

lemma check_mono:
  assumes "check env g d f s = (r, g')"
  shows "sp_seen (view g) \<subseteq> sp_seen (view g')" and "sp_max (view g) d' \<le> sp_max (view g') d'"
proof -
  have "sp_seen (view g) \<subseteq> sp_seen (view g') \<and> sp_max (view g) d' \<le> sp_max (view g') d'"
  proof (cases r)
    case None
    with assms accept_fresh [of env g d f s g'] accept_records [of env g d f s g']
    show ?thesis by auto
  next
    case (Some e)
    with assms reject_keeps [of env g d f s e g' d'] show ?thesis by simp
  qed
  then show "sp_seen (view g) \<subseteq> sp_seen (view g')" "sp_max (view g) d' \<le> sp_max (view g') d'"
    by simp_all
qed

text \<open>Everything a run accepts is new with respect to the state it starts from.\<close>

lemma run_fresh:
  "(d, f, s) \<in> set (fst (guard_run check g calls)) \<Longrightarrow>
     d \<noteq> [] \<and> f \<noteq> [] \<and> (d, f) \<notin> sp_seen (view g) \<and> sp_max (view g) d < s"
proof (induction calls arbitrary: g)
  case Nil
  then show ?case by simp
next
  case (Cons call calls)
  obtain env d' f' s' where call: "call = (env, d', f', s')" by (cases call)
  obtain r g' where chk: "check env g d' f' s' = (r, g')" by (cases "check env g d' f' s'")
  note mono = check_mono [OF chk]
  show ?case
  proof (cases "r = None \<and> (d, f, s) = (d', f', s')")
    case True
    with chk show ?thesis by (auto dest: accept_fresh)
  next
    case False
    with Cons.prems chk call have "(d, f, s) \<in> set (fst (guard_run check g' calls))"
      by (auto split: option.splits prod.splits)
    from Cons.IH [OF this] mono(1) mono(2) [of d] show ?thesis by auto
  qed
qed

lemma run_once_increasing:
  "distinct (map (\<lambda>(d, f, s). (d, f)) (fst (guard_run check g calls))) \<and>
   per_device_increasing (fst (guard_run check g calls))"
proof (induction calls arbitrary: g)
  case Nil
  then show ?case by (simp add: per_device_increasing_def)
next
  case (Cons call calls)
  obtain env d f s where call: "call = (env, d, f, s)" by (cases call)
  obtain r g' where chk: "check env g d f s = (r, g')" by (cases "check env g d f s")
  show ?case
  proof (cases r)
    case (Some e)
    with chk call Cons.IH [of g'] show ?thesis by simp
  next
    case None
    with chk have v: "view g' = \<lparr>sp_seen = insert (d, f) (sp_seen (view g)), sp_max = (sp_max (view g))(d := s)\<rparr>"
      by (auto dest: accept_records)
    have new: "(d', f') \<noteq> (d, f) \<and> (d' = d \<longrightarrow> s < s')"
      if "(d', f', s') \<in> set (fst (guard_run check g' calls))" for d' f' s'
      using run_fresh [OF that] v by auto
    have "fst (guard_run check g (call # calls)) = (d, f, s) # fst (guard_run check g' calls)"
      using None chk call by (simp split: prod.split)
    with Cons.IH [of g'] show ?thesis
      by (auto simp: per_device_increasing_def dest: new)
  qed
qed

text \<open>What a run accepted stays recorded, so a later call on it is rejected.\<close>

lemma run_mono:
  "sp_seen (view g) \<subseteq> sp_seen (view (snd (guard_run check g calls))) \<and>
   sp_max (view g) d \<le> sp_max (view (snd (guard_run check g calls))) d"
proof (induction calls arbitrary: g)
  case Nil
  then show ?case by simp
next
  case (Cons call calls)
  obtain env d' f' s' where call: "call = (env, d', f', s')" by (cases call)
  obtain r g' where chk: "check env g d' f' s' = (r, g')" by (cases "check env g d' f' s'")
  have "snd (guard_run check g (call # calls)) = snd (guard_run check g' calls)"
    using chk call by (auto split: option.splits prod.splits)
  with Cons.IH [of g'] check_mono [OF chk] show ?case
    by (auto intro: order_trans)
qed

lemma accepted_then_rejected:
  assumes "check env g d f s = (None, g')"
  shows "fst (check env' (snd (guard_run check g' calls)) d f s') \<noteq> None"
    and "s' \<le> s \<Longrightarrow> fst (check env' (snd (guard_run check g' calls)) d f' s') \<noteq> None"
proof -
  let ?h = "snd (guard_run check g' calls)"
  from run_mono [of g' calls d] accept_records [OF assms]
  have h: "(d, f) \<in> sp_seen (view ?h)" "s \<le> sp_max (view ?h) d" by auto
  show "fst (check env' ?h d f s') \<noteq> None"
    using accept_fresh [of env' ?h d f s'] h(1) by (cases "check env' ?h d f s'") auto
  show "fst (check env' ?h d f' s') \<noteq> None" if "s' \<le> s"
  proof -
    have "\<not> sp_max (view ?h) d < s'" using h(2) that by (meson leD order_trans)
    then show ?thesis
      using accept_fresh [of env' ?h d f' s'] by (cases "check env' ?h d f' s'") auto
  qed
qed

end

section \<open>The memory guard keeps the contract\<close>

lemma memory_refines_spec:
  "Memory_CheckAndRecord env g d f s =
     (let (r, sp) = spec_check (memory_abs g) d f s;
          full = (case mg_devices g d of None \<Rightarrow> 0 | Some st \<Rightarrow> int (card (seenFrames st)));
          limit = (if mg_maxSeenFrames g \<le> 0 then MaxMemorySeenFrames else mg_maxSeenFrames g)
      in (if r = None \<and> limit \<le> full then Some ErrReplayStateFull else r,
          snd (Memory_CheckAndRecord env g d f s)))"
  by (auto simp: Memory_CheckAndRecord_def spec_check_def memory_abs_def Let_def split: option.splits)

lemma memory_accept_abs:
  assumes "Memory_CheckAndRecord env g d f s = (None, g')"
  shows "memory_abs g' = snd (spec_check (memory_abs g) d f s)"
  using assms
  by (auto simp: Memory_CheckAndRecord_def spec_check_def memory_abs_def Let_def fun_eq_iff
      split: option.splits if_splits)

lemma memory_reject_abs:
  assumes "Memory_CheckAndRecord env g d f s = (Some e, g')"
  shows "memory_abs g' = memory_abs g"
  using assms
  by (auto simp: Memory_CheckAndRecord_def memory_abs_def Let_def fun_eq_iff
      split: option.splits if_splits)

interpretation mem: replay_guard Memory_CheckAndRecord memory_abs
proof (unfold_locales, goal_cases)
  case (1 env g d f s g')
  then show ?case
    by (auto simp: Memory_CheckAndRecord_def memory_abs_def Let_def word_gt_0 split: option.splits if_splits)
next
  case (2 env g d f s g')
  from memory_accept_abs [OF 2] 2 show ?case
    by (auto simp: Memory_CheckAndRecord_def spec_check_def memory_abs_def Let_def
        split: option.splits if_splits)
next
  case (3 env g d f s e g' d')
  from memory_reject_abs [OF 3] show ?case by simp
qed

section \<open>The SQLite guard keeps the contract\<close>

lemma not_closed_iff [simp]: "c \<noteq> DbClosed \<longleftrightarrow> c = DbOpen"
  by (cases c) simp_all

lemma SQLite_accept:
  assumes "SQLite_CheckAndRecord g env db d f s = (None, db')"
  shows "d \<noteq> []" "f \<noteq> []" "(d, f) \<notin> seen_frames db" "sp_max (db_abs db) d < s"
    "Option.bind g sg_db = Some DbOpen" "sq_BindUint64 env s"
    "db' = \<lparr>device_state = (device_state db)(d \<mapsto> s), seen_frames = insert (d, f) (seen_frames db)\<rparr>"
  using assms
  by (auto simp: SQLite_CheckAndRecord_def insert_frame_def upsert_sequence_def db_abs_def Let_def not_le word_gt_0
      split: option.splits if_splits commit_result.splits db_conn.splits)

lemma SQLite_reject:
  assumes "SQLite_CheckAndRecord g env db d f s = (Some e, db')"
  shows "db' = db \<or> sq_Commit env = CommitUnreported \<and> e = ErrOther ''replay commit'' \<and>
    (d, f) \<notin> seen_frames db \<and> sp_max (db_abs db) d < s \<and>
    db' = \<lparr>device_state = (device_state db)(d \<mapsto> s), seen_frames = insert (d, f) (seen_frames db)\<rparr>"
  using assms
  by (auto simp: SQLite_CheckAndRecord_def insert_frame_def upsert_sequence_def db_abs_def Let_def not_le word_gt_0
      split: option.splits if_splits commit_result.splits)

lemma db_abs_record:
  "db_abs \<lparr>device_state = (device_state db)(d \<mapsto> s), seen_frames = insert (d, f) (seen_frames db)\<rparr> =
     \<lparr>sp_seen = insert (d, f) (sp_seen (db_abs db)), sp_max = (sp_max (db_abs db))(d := s)\<rparr>"
  by (auto simp: db_abs_def fun_eq_iff)

interpretation sql: replay_guard "SQLite_CheckAndRecord g" db_abs for g
proof (unfold_locales, goal_cases)
  case (1 env db d f s db')
  from SQLite_accept [OF 1] show ?case by (simp add: db_abs_def)
next
  case (2 env db d f s db')
  from SQLite_accept(7) [OF 2] show ?case by (simp add: db_abs_record)
next
  case (3 env db d f s e db' d')
  from SQLite_reject [OF 3] show ?case by (auto simp: db_abs_record)
qed

section \<open>Properties\<close>

definition sql_fault_free :: "sql_env \<Rightarrow> bool" where
  "sql_fault_free env \<longleftrightarrow> \<not> sq_Begin env \<and> \<not> sq_SelectFrame env \<and> \<not> sq_SelectSequence env \<and>
     \<not> sq_InsertFrame env \<and> \<not> sq_UpsertSequence env \<and> sq_Commit env = Committed"

definition good_sql :: sql_env where
  "good_sql = \<lparr>sq_Begin = False, sq_SelectFrame = False, sq_SelectSequence = False,
     sq_InsertFrame = False, sq_UpsertSequence = False, sq_Commit = Committed,
     sq_BindUint64 = (\<lambda>s. s < 2 ^ 63)\<rparr>"

text \<open>Over any sequence of calls, from any database content and with any faults in
  between, the SQLite guard accepts each pair of device and frame at most once, and the
  sequences it accepts for one device strictly increase.\<close>

lemma sqlite_accepts_once_increasing:
  "distinct (map (\<lambda>(d, f, s). (d, f)) (fst (guard_run (SQLite_CheckAndRecord g) db calls))) \<and>
   per_device_increasing (fst (guard_run (SQLite_CheckAndRecord g) db calls))"
  by (rule sql.run_once_increasing)

text \<open>The memory guard gives the same guarantee over any sequence of calls.\<close>

lemma memory_accepts_once_increasing:
  "distinct (map (\<lambda>(d, f, s). (d, f)) (fst (guard_run Memory_CheckAndRecord g calls))) \<and>
   per_device_increasing (fst (guard_run Memory_CheckAndRecord g calls))"
  by (rule mem.run_once_increasing)

text \<open>Replay protection survives a restart of the process. After the guard has
  accepted a frame and processed any further calls, closing it and opening a new guard on
  the same file finds the records again: the frame is rejected at every sequence, and every
  other frame of the device is rejected at a sequence that is not larger.\<close>

lemma replay_survives_restart:
  assumes "SQLite_CheckAndRecord g env db d f s = (None, db1)"
    and "guard_run (SQLite_CheckAndRecord g) db1 calls = (acc, db2)"
    and "disk path = Some db2"
    and "NewSQLiteReplayGuard oenv path disk = (Inr g2, disk2)"
    and "f' = f \<or> s' \<le> s"
  shows "disk2 path = Some db2 \<and> fst (SQLite_CheckAndRecord (Some g2) env' db2 d f' s') \<noteq> None"
proof -
  from assms(3,4) have disk2: "disk2 path = Some db2"
    by (auto simp: NewSQLiteReplayGuard_def create_tables_def split: if_splits)
  from sql.run_mono [of db1 g calls d] sql.accept_records [OF assms(1)] assms(2)
  have seen: "(d, f) \<in> sp_seen (db_abs db2)" "s \<le> sp_max (db_abs db2) d" by auto
  have "fst (SQLite_CheckAndRecord (Some g2) env' db2 d f' s') \<noteq> None"
  proof
    assume "fst (SQLite_CheckAndRecord (Some g2) env' db2 d f' s') = None"
    then obtain db3 where "SQLite_CheckAndRecord (Some g2) env' db2 d f' s' = (None, db3)"
      by (metis prod.collapse)
    from sql.accept_fresh [OF this] seen assms(5) show False by (meson leD order_trans)
  qed
  with disk2 show ?thesis by simp
qed

text \<open>Claim C19: the exact condition under which the SQLite guard accepts: both identifiers are
  present, the database is open, no statement fails, the driver takes the sequence, the
  frame is not recorded and the sequence exceeds the device's maximum. Sequence 0 is never
  accepted, and any fault of the database means rejection.\<close>

theorem sqlite_accepts_iff:
  "fst (SQLite_CheckAndRecord g env db d f s) = None \<longleftrightarrow>
     d \<noteq> [] \<and> f \<noteq> [] \<and> Option.bind g sg_db = Some DbOpen \<and> sql_fault_free env \<and>
     sq_BindUint64 env s \<and> (d, f) \<notin> sp_seen (db_abs db) \<and> sp_max (db_abs db) d < s"
  by (auto simp: SQLite_CheckAndRecord_def sql_fault_free_def insert_frame_def db_abs_def Let_def
      not_le word_gt_0 split: option.splits commit_result.splits)

text \<open>Claim C20: on an open, fault-free database, and for sequences the driver takes, a call to
  the SQLite guard is one step of the abstract replay specification: same verdict, and the
  tables represent the specification's next state.\<close>

theorem sqlite_refines_replay_spec:
  assumes "Option.bind g sg_db = Some DbOpen" and "sql_fault_free env" and "sq_BindUint64 env s"
  shows "map_prod id db_abs (SQLite_CheckAndRecord g env db d f s) = spec_check (db_abs db) d f s"
  using assms
  by (auto simp: SQLite_CheckAndRecord_def spec_check_def sql_fault_free_def insert_frame_def
      upsert_sequence_def db_abs_def Let_def fun_eq_iff split: option.splits)

theorem sqlite_refines_replay_spec_witness:
  "sql_fault_free good_sql \<and>
   map_prod id db_abs (SQLite_CheckAndRecord (Some \<lparr>sg_db = Some DbOpen\<rparr>) good_sql empty_db ''d'' ''f'' 1) =
     spec_check (db_abs empty_db) ''d'' ''f'' 1"
proof -
  have 1: "Option.bind (Some \<lparr>sg_db = Some DbOpen\<rparr>) sg_db = Some DbOpen" by simp
  have 2: "sql_fault_free good_sql" by (simp add: sql_fault_free_def good_sql_def)
  have 3: "sq_BindUint64 good_sql 1" by (simp add: good_sql_def)
  from sqlite_refines_replay_spec [OF 1 2 3] 2 show ?thesis by blast
qed

text \<open>Claim C21: while a device has fewer recorded frames than the limit, a call to the memory
  guard is one step of the same specification.\<close>

theorem memory_refines_replay_spec:
  assumes "0 < mg_maxSeenFrames g"
    and "case mg_devices g d of None \<Rightarrow> True | Some st \<Rightarrow> int (card (seenFrames st)) < mg_maxSeenFrames g"
  shows "map_prod id memory_abs (Memory_CheckAndRecord env g d f s) = spec_check (memory_abs g) d f s"
proof (cases "Memory_CheckAndRecord env g d f s")
  case (Pair r g')
  have r: "r = fst (spec_check (memory_abs g) d f s)"
    using memory_refines_spec [of env g d f s] assms Pair
    by (auto simp: Let_def split: prod.splits option.splits if_splits)
  show ?thesis
  proof (cases r)
    case None
    with Pair r memory_accept_abs [of env g d f s g'] show ?thesis by (simp add: prod_eq_iff)
  next
    case (Some e)
    then have "snd (spec_check (memory_abs g) d f s) = memory_abs g"
      using r by (auto simp: spec_check_def split: if_splits)
    with Some Pair r memory_reject_abs [of env g d f s e g'] show ?thesis by (simp add: prod_eq_iff)
  qed
qed

theorem memory_refines_replay_spec_witness:
  "map_prod id memory_abs (Memory_CheckAndRecord () NewMemoryReplayGuard ''d'' ''f'' 1) =
     spec_check (memory_abs NewMemoryReplayGuard) ''d'' ''f'' 1"
proof -
  have 1: "0 < mg_maxSeenFrames NewMemoryReplayGuard"
    by (simp add: NewMemoryReplayGuard_def MaxMemorySeenFrames_def)
  have 2: "case mg_devices NewMemoryReplayGuard ''d'' of None \<Rightarrow> True
      | Some st \<Rightarrow> int (card (seenFrames st)) < mg_maxSeenFrames NewMemoryReplayGuard"
    by (simp add: NewMemoryReplayGuard_def)
  show ?thesis by (rule memory_refines_replay_spec [OF 1 2])
qed

text \<open>The number of frame ids a memory guard keeps for a device.\<close>

definition memory_bounded :: "nat \<Rightarrow> MemoryReplayGuard \<Rightarrow> bool" where
  "memory_bounded n g \<longleftrightarrow> mg_maxSeenFrames g = int n \<and>
     (\<forall>st \<in> ran (mg_devices g). finite (seenFrames st) \<and> card (seenFrames st) \<le> n)"

lemma memory_bounded_step:
  assumes "memory_bounded n g" and "0 < n"
  shows "memory_bounded n (snd (Memory_CheckAndRecord env g d f s))"
  using assms
  by (auto simp: memory_bounded_def Memory_CheckAndRecord_def Let_def ran_def card_insert_if
      split: option.splits if_splits)

text \<open>Claim C22: a memory guard that starts empty with a positive limit never holds more frame ids
  for a device than its limit, whatever calls it receives.\<close>

theorem memory_guard_bounded:
  assumes "0 < n"
  shows "memory_bounded n (snd (guard_run Memory_CheckAndRecord
    (NewMemoryReplayGuard\<lparr>mg_maxSeenFrames := int n\<rparr>) calls))"
proof -
  have "memory_bounded n g \<Longrightarrow> memory_bounded n (snd (guard_run Memory_CheckAndRecord g calls))" for g
  proof (induction calls arbitrary: g)
    case Nil
    then show ?case by simp
  next
    case (Cons call calls)
    obtain env d f s where call: "call = (env, d, f, s)" by (cases call)
    obtain r g' where chk: "Memory_CheckAndRecord env g d f s = (r, g')"
      by (cases "Memory_CheckAndRecord env g d f s")
    with memory_bounded_step [OF Cons.prems assms, of env d f s] have "memory_bounded n g'" by simp
    from Cons.IH [OF this] chk call show ?case by (auto split: option.splits prod.splits)
  qed
  moreover have "memory_bounded n (NewMemoryReplayGuard\<lparr>mg_maxSeenFrames := int n\<rparr>)"
    by (simp add: memory_bounded_def NewMemoryReplayGuard_def)
  ultimately show ?thesis by blast
qed

theorem memory_guard_bounded_witness:
  "(0::nat) < 2 \<and> memory_bounded 2 (snd (guard_run Memory_CheckAndRecord
     (NewMemoryReplayGuard\<lparr>mg_maxSeenFrames := int 2\<rparr>)
     [((), ''d'', ''f1'', 1), ((), ''d'', ''f2'', 2), ((), ''d'', ''f3'', 3)]))"
proof -
  have h: "(0::nat) < 2" by simp
  from memory_guard_bounded [OF h] h show ?thesis by blast
qed

end
