(* ===== verification/Auth.thy ===== *)
theory Auth
  imports Replay "HOL-Library.AList"
begin

text \<open>
  \<open>internal/auth/auth.go\<close>: the device registry and the verifier that stands before every
  ingested frame. The registry's map is an association list without duplicate keys. The
  verifier is polymorphic in its replay guard, as the interface \<open>ReplayGuard\<close> is in the
  source: the guard's operation is a field of the verifier, its state and the environment of
  the call are arguments, and the new state is returned. The clock is a sequence of readings
  (\<open>Verify\<close> reads it twice).
\<close>

section \<open>Devices and their registry\<close>

record Device =
  dv_DeviceID :: string
  dv_PublicKey :: bytes
  dv_PublicKeyID :: string
  dv_ClientCertFingerprintSHA256 :: string

type_synonym StaticDeviceRegistry = "(string \<times> Device) list"

fun register_devices :: "Device list \<Rightarrow> StaticDeviceRegistry \<Rightarrow> error + StaticDeviceRegistry" where
  "register_devices [] registry = Inr registry"
| "register_devices (device # rest) registry =
     (if dv_DeviceID device = [] then Inl (ErrMalformed ''device id is required'')
      else if length (dv_PublicKey device) \<noteq> ed_PublicKeySize
      then Inl (ErrMalformed ''device public key must be 32 bytes'')
      else register_devices rest (AList.update (dv_DeviceID device) device registry))"

definition NewStaticDeviceRegistry :: "Device list \<Rightarrow> error + StaticDeviceRegistry" where
  "NewStaticDeviceRegistry devices = register_devices devices []"

definition LookupDevice :: "StaticDeviceRegistry \<Rightarrow> string \<Rightarrow> Device option" where
  "LookupDevice r deviceID = map_of r deviceID"

definition RequiresClientCert :: "StaticDeviceRegistry option \<Rightarrow> bool" where
  "RequiresClientCert r =
     (case r of None \<Rightarrow> False
      | Some devices \<Rightarrow> list_ex (\<lambda>(_, d). dv_ClientCertFingerprintSHA256 d \<noteq> []) devices)"

section \<open>The verifier\<close>

definition defaultClockSkew :: duration where "defaultClockSkew = 30 * second"

record ('e, 'g) Verifier =
  vf_Registry :: "(string \<Rightarrow> Device option) option"
  vf_ReplayGuard :: "('e, 'g) check_and_record option"
  vf_MaxPayloadBytes :: int
  vf_TTL :: duration
  vf_Now :: "(nat \<Rightarrow> time) option"

definition bindClientCert :: "Device \<Rightarrow> SignedEnvelope \<Rightarrow> string \<Rightarrow> error option" where
  "bindClientCert device envelope peer =
     (let wantRegistry = dv_ClientCertFingerprintSHA256 device;
          wantEnvelope = se_ClientCertFingerprintSHA256 envelope
      in if wantRegistry = [] \<and> wantEnvelope = [] then None
         else if peer = [] then Some ErrCertMismatch
         else if wantRegistry \<noteq> [] \<and> wantRegistry \<noteq> peer then Some ErrCertMismatch
         else if wantEnvelope \<noteq> [] \<and> wantEnvelope \<noteq> peer then Some ErrCertMismatch
         else if wantRegistry \<noteq> [] \<and> wantEnvelope \<noteq> [] \<and> wantRegistry \<noteq> wantEnvelope
         then Some ErrCertMismatch
         else None)"

definition effective_ttl :: "duration \<Rightarrow> duration" where
  "effective_ttl ttl = (if ttl \<le> 0 then 5 * minute else ttl)"

definition Verify ::
  "ed25519 \<Rightarrow> (nat \<Rightarrow> time) \<Rightarrow> 'e \<Rightarrow> ('e, 'g) Verifier \<Rightarrow> 'g \<Rightarrow> SignedEnvelope \<Rightarrow> string \<Rightarrow>
     error option \<times> 'g" where
  "Verify ed time_Now env v g envelope peer =
     (case (vf_Registry v, vf_ReplayGuard v) of
        (Some registry, Some check) \<Rightarrow>
          if se_ProtocolVersion envelope = [] \<or> se_DeviceID envelope = [] \<or>
             se_TrajectoryID envelope = [] \<or> se_FrameID envelope = []
          then (Some (ErrMalformed ''protocol version, device id, trajectory id, and frame id are required''), g)
          else if se_SignatureAlg envelope \<noteq> SignatureAlgEd25519
          then (Some (ErrMalformed ''unsupported signature algorithm''), g)
          else if length (se_DetachedSignature envelope) = 0 then (Some ErrMissingSignature, g)
          else if length (se_DetachedSignature envelope) \<noteq> ed_SignatureSize then (Some ErrInvalidSignature, g)
          else if length (se_Payload envelope) = 0 then (Some (ErrMalformed ''payload is required''), g)
          else if 0 < vf_MaxPayloadBytes v \<and> vf_MaxPayloadBytes v < int (length (se_Payload envelope))
          then (Some ErrOversizedPayload, g)
          else
            let now = (case vf_Now v of None \<Rightarrow> time_Now | Some f \<Rightarrow> f);
                ttl = effective_ttl (vf_TTL v);
                signedAt = se_SignedAt envelope
            in if IsZero signedAt then (Some (ErrMalformed ''signed_at is required''), g)
               else if After signedAt (time_Add (now 0) defaultClockSkew) then (Some ErrFuturePayload, g)
               else if ttl < time_Sub (now 1) signedAt then (Some ErrExpiredPayload, g)
               else
                 let payloadHashHex = EncodeToString (sha256_Sum256 (se_Payload envelope))
                 in if se_PayloadSHA256Hex envelope = [] \<or> se_PayloadSHA256Hex envelope \<noteq> payloadHashHex
                    then (Some (ErrMalformed ''payload hash mismatch''), g)
                    else
                      (case registry (se_DeviceID envelope) of
                         None \<Rightarrow> (Some ErrUnauthorized, g)
                       | Some device \<Rightarrow>
                           if (dv_PublicKeyID device \<noteq> [] \<or> se_PublicKeyID envelope \<noteq> []) \<and>
                              (dv_PublicKeyID device = [] \<or> se_PublicKeyID envelope = [] \<or>
                               dv_PublicKeyID device \<noteq> se_PublicKeyID envelope)
                           then (Some ErrUnauthorized, g)
                           else
                             (case bindClientCert device envelope peer of
                                Some err \<Rightarrow> (Some err, g)
                              | None \<Rightarrow>
                                  (case CanonicalBytes envelope of
                                     Inl err \<Rightarrow> (Some err, g)
                                   | Inr canonical \<Rightarrow>
                                       if length (dv_PublicKey device) \<noteq> ed_PublicKeySize
                                       then (Some (GoPanic ''ed25519: bad public key length''), g)
                                       else if \<not> ed_Verify ed (dv_PublicKey device) canonical (se_DetachedSignature envelope)
                                       then (Some ErrInvalidSignature, g)
                                       else check env g (se_DeviceID envelope) (se_FrameID envelope) (se_Sequence envelope))))
      | _ \<Rightarrow> (Some (ErrOther ''auth verifier is missing required dependencies''), g))"

section \<open>The verifier's decision before it asks the guard\<close>

text \<open>
  The conditions of an accepted envelope, stated without reference to the order of the
  checks: the required fields and sizes, the freshness window, the key id and the
  certificate binding.
\<close>

definition well_formed_envelope :: "int \<Rightarrow> SignedEnvelope \<Rightarrow> bool" where
  "well_formed_envelope max_payload e \<longleftrightarrow>
     se_ProtocolVersion e \<noteq> [] \<and> se_DeviceID e \<noteq> [] \<and> se_TrajectoryID e \<noteq> [] \<and> se_FrameID e \<noteq> [] \<and>
     se_SignatureAlg e = SignatureAlgEd25519 \<and> length (se_DetachedSignature e) = ed_SignatureSize \<and>
     se_Payload e \<noteq> [] \<and> (0 < max_payload \<longrightarrow> int (length (se_Payload e)) \<le> max_payload) \<and>
     se_PayloadSHA256Hex e = HashPayload (se_Payload e)"

definition clock_of :: "(nat \<Rightarrow> time) \<Rightarrow> ('e, 'g) Verifier \<Rightarrow> nat \<Rightarrow> time" where
  "clock_of time_Now v = (case vf_Now v of None \<Rightarrow> time_Now | Some f \<Rightarrow> f)"

definition fresh :: "duration \<Rightarrow> (nat \<Rightarrow> time) \<Rightarrow> time \<Rightarrow> bool" where
  "fresh ttl now t \<longleftrightarrow> t \<noteq> 0 \<and> t \<le> now 0 + 30 * second \<and> (ttl < maxDuration \<longrightarrow> now 1 - t \<le> ttl)"

definition key_id_agrees :: "Device \<Rightarrow> SignedEnvelope \<Rightarrow> bool" where
  "key_id_agrees device e \<longleftrightarrow> dv_PublicKeyID device = se_PublicKeyID e"

definition cert_bound :: "Device \<Rightarrow> SignedEnvelope \<Rightarrow> string \<Rightarrow> bool" where
  "cert_bound device e peer \<longleftrightarrow>
     (\<forall>want \<in> {dv_ClientCertFingerprintSHA256 device, se_ClientCertFingerprintSHA256 e}.
        want \<noteq> [] \<longrightarrow> peer = want)"

definition authenticated ::
  "ed25519 \<Rightarrow> (nat \<Rightarrow> time) \<Rightarrow> ('e, 'g) Verifier \<Rightarrow> SignedEnvelope \<Rightarrow> string \<Rightarrow> bool" where
  "authenticated ed time_Now v e peer \<longleftrightarrow>
     well_formed_envelope (vf_MaxPayloadBytes v) e \<and>
     fresh (effective_ttl (vf_TTL v)) (clock_of time_Now v) (se_SignedAt e) \<and>
     (case Option.bind (vf_Registry v) (\<lambda>r. r (se_DeviceID e)) of None \<Rightarrow> False
      | Some device \<Rightarrow>
          key_id_agrees device e \<and> cert_bound device e peer \<and>
          length (dv_PublicKey device) = ed_PublicKeySize \<and>
          ed_Verify ed (dv_PublicKey device) (canonical_prefix e @ se_Payload e) (se_DetachedSignature e))"

lemma bindClientCert_None_iff: "bindClientCert device e peer = None \<longleftrightarrow> cert_bound device e peer"
  by (auto simp: bindClientCert_def cert_bound_def Let_def)

lemma effective_ttl_pos: "0 < effective_ttl ttl"
  by (simp add: effective_ttl_def minute_def second_def)

lemma fresh_iff:
  "0 < ttl \<Longrightarrow>
     fresh ttl now t \<longleftrightarrow> \<not> IsZero t \<and> \<not> After t (time_Add (now 0) defaultClockSkew) \<and>
       \<not> ttl < time_Sub (now 1) t"
  by (auto simp: fresh_def IsZero_def After_def time_Add_def defaultClockSkew_def time_Sub_def
      minDuration_def maxDuration_def)

text \<open>
  A chain of guards that each return an error and the unchanged state, and that panic only
  when \<open>bad\<close> holds.
\<close>

definition rejects :: "'g \<Rightarrow> bool \<Rightarrow> error option \<times> 'g \<Rightarrow> bool" where
  "rejects g bad r \<longleftrightarrow> (\<exists>err. r = (Some err, g) \<and> (is_panic err \<longrightarrow> bad))"

lemma rejects_intros:
  "(a \<Longrightarrow> is_panic x \<Longrightarrow> bad) \<Longrightarrow> (\<not> a \<Longrightarrow> rejects g bad rest) \<Longrightarrow> rejects g bad (if a then (Some x, g) else rest)"
  "\<not> is_panic x \<Longrightarrow> (\<And>d. r = Some d \<Longrightarrow> rejects g bad (h d)) \<Longrightarrow>
     rejects g bad (case r of None \<Rightarrow> (Some x, g) | Some d \<Rightarrow> h d)"
  "(\<And>err. b = Some err \<Longrightarrow> \<not> is_panic err) \<Longrightarrow> (b = None \<Longrightarrow> rejects g bad rest) \<Longrightarrow>
     rejects g bad (case b of None \<Rightarrow> rest | Some err \<Rightarrow> (Some err, g))"
  "(\<And>err. c = Inl err \<Longrightarrow> \<not> is_panic err) \<Longrightarrow> (\<And>d. c = Inr d \<Longrightarrow> rejects g bad (k d)) \<Longrightarrow>
     rejects g bad (case c of Inl err \<Rightarrow> (Some err, g) | Inr d \<Rightarrow> k d)"
  by (auto simp: rejects_def split: option.split sum.split)

lemma bindClientCert_no_panic: "bindClientCert device e peer = Some err \<Longrightarrow> \<not> is_panic err"
  by (auto simp: bindClientCert_def Let_def split: if_splits)

lemma CanonicalBytes_no_panic: "CanonicalBytes e = Inl err \<Longrightarrow> \<not> is_panic err"
  by (auto simp: CanonicalBytes_def split: if_splits)

text \<open>
  The verifier is a filter in front of its guard: either it rejects and leaves the guard
  alone, or the envelope is authenticated and the guard's answer is the answer.
\<close>

lemma Verify_cases:
  assumes "vf_ReplayGuard v = Some check" and "vf_Registry v = Some registry"
  shows "authenticated ed now v e peer \<Longrightarrow>
      Verify ed now env v g e peer = check env g (se_DeviceID e) (se_FrameID e) (se_Sequence e)"
    and "\<not> authenticated ed now v e peer \<Longrightarrow>
      rejects g (\<exists>device. registry (se_DeviceID e) = Some device \<and> length (dv_PublicKey device) \<noteq> ed_PublicKeySize)
        (Verify ed now env v g e peer)"
proof -
  note reg = assms(2)
  note fr = fresh_iff [OF effective_ttl_pos]
  show "Verify ed now env v g e peer = check env g (se_DeviceID e) (se_FrameID e) (se_Sequence e)"
    if "authenticated ed now v e peer"
  proof -
    from that obtain device where dev: "registry (se_DeviceID e) = Some device"
      and w: "well_formed_envelope (vf_MaxPayloadBytes v) e"
      and f: "fresh (effective_ttl (vf_TTL v)) (clock_of now v) (se_SignedAt e)"
      and d: "key_id_agrees device e" "bindClientCert device e peer = None"
        "length (dv_PublicKey device) = ed_PublicKeySize"
        "ed_Verify ed (dv_PublicKey device) (canonical_prefix e @ se_Payload e) (se_DetachedSignature e)"
      by (auto simp: authenticated_def reg bindClientCert_None_iff split: option.splits)
    from w have b: "CanonicalBytes e = Inr (canonical_prefix e @ se_Payload e)"
      by (auto simp: well_formed_envelope_def CanonicalBytes_Inr_iff SignatureAlgEd25519_def)
    show ?thesis
      using w f d(1) unfolding fr clock_of_def Verify_def Let_def HashPayload_def [symmetric]
      by (simp add: assms(1) reg dev d(2-4) b well_formed_envelope_def key_id_agrees_def not_less
          ed_SignatureSize_def) linarith
  qed
  show "rejects g (\<exists>device. registry (se_DeviceID e) = Some device \<and> length (dv_PublicKey device) \<noteq> ed_PublicKeySize)
        (Verify ed now env v g e peer)" (is "rejects g ?bad _") if no: "\<not> authenticated ed now v e peer"
    unfolding Verify_def Let_def reg assms(1) prod.case option.case
  proof (intro rejects_intros, simp_all only: is_panic_simps simp_thms
      bindClientCert_no_panic CanonicalBytes_no_panic not_False_eq_True, goal_cases)
    case (1 device canonical)
    show ?case by (intro exI [of _ device] conjI refl) (rule 1(15))
  next
    case (2 device canonical)
    have w: "well_formed_envelope (vf_MaxPayloadBytes v) e"
      using 2(1-6,10) by (auto simp: well_formed_envelope_def HashPayload_def)
    have f: "fresh (effective_ttl (vf_TTL v)) (clock_of now v) (se_SignedAt e)"
      using 2(7-9) unfolding fr clock_of_def by blast
    have k: "key_id_agrees device e" using 2(12) by (auto simp: key_id_agrees_def)
    have c: "cert_bound device e peer" using 2(13) by (simp add: bindClientCert_None_iff)
    have b: "canonical = canonical_prefix e @ se_Payload e" using 2(14) by (simp add: CanonicalBytes_Inr_iff)
    have "authenticated ed now v e peer"
      unfolding authenticated_def reg using w f k c b 2(11,15,16) by simp
    with no show ?case ..
  qed
qed

lemma Verify_missing:
  assumes "vf_ReplayGuard v = None \<or> vf_Registry v = None"
  shows "Verify ed now env v g e peer = (Some (ErrOther ''auth verifier is missing required dependencies''), g)"
proof (cases "vf_Registry v")
  case None
  then show ?thesis by (simp add: Verify_def)
next
  case (Some r)
  with assms have "vf_ReplayGuard v = None" by simp
  with Some show ?thesis by (simp add: Verify_def)
qed

lemma Verify_rejected:
  assumes "\<not> authenticated ed now v e peer"
  obtains err where "Verify ed now env v g e peer = (Some err, g)"
proof (cases "vf_ReplayGuard v = None \<or> vf_Registry v = None")
  case True
  then show ?thesis by (intro that) (rule Verify_missing)
next
  case False
  then obtain check registry where "vf_ReplayGuard v = Some check" "vf_Registry v = Some registry" by auto
  from Verify_cases(2) [OF this assms, of g env] that show ?thesis by (auto simp: rejects_def)
qed

lemma Verify_accept_iff:
  "Verify ed now env v g e peer = (None, g') \<longleftrightarrow>
    authenticated ed now v e peer \<and>
    (\<exists>check. vf_ReplayGuard v = Some check \<and>
       check env g (se_DeviceID e) (se_FrameID e) (se_Sequence e) = (None, g'))"
proof (cases "authenticated ed now v e peer")
  case False
  then show ?thesis by (auto elim: Verify_rejected [of ed now v e peer env g])
next
  case auth: True
  then obtain registry where reg: "vf_Registry v = Some registry"
    by (auto simp: authenticated_def split: option.splits bind_splits)
  show ?thesis
  proof (cases "vf_ReplayGuard v")
    case None
    then show ?thesis by (simp add: Verify_missing)
  next
    case (Some check)
    from Verify_cases(1) [OF Some reg auth] Some auth show ?thesis by simp
  qed
qed

section \<open>Runs of the verifier\<close>

text \<open>
  A sequence of verified requests on one verifier, each with its own clock readings, fault
  environment and peer: the envelopes it accepts and the final state of the guard.
\<close>

fun verify_run :: "ed25519 \<Rightarrow> ('e, 'g) Verifier \<Rightarrow> 'g \<Rightarrow>
    ((nat \<Rightarrow> time) \<times> 'e \<times> SignedEnvelope \<times> string) list \<Rightarrow> SignedEnvelope list \<times> 'g" where
  "verify_run ed v g [] = ([], g)"
| "verify_run ed v g ((now, env, e, peer) # reqs) =
     (case Verify ed now env v g e peer of
        (None, g') \<Rightarrow> (let (acc, g'') = verify_run ed v g' reqs in (e # acc, g''))
      | (Some _, g') \<Rightarrow> verify_run ed v g' reqs)"

definition envelope_key :: "SignedEnvelope \<Rightarrow> string \<times> string \<times> u64" where
  "envelope_key e = (se_DeviceID e, se_FrameID e, se_Sequence e)"

definition guard_calls :: "ed25519 \<Rightarrow> ('e, 'g) Verifier \<Rightarrow>
    ((nat \<Rightarrow> time) \<times> 'e \<times> SignedEnvelope \<times> string) list \<Rightarrow> ('e \<times> string \<times> string \<times> u64) list" where
  "guard_calls ed v reqs =
     map (\<lambda>(now, env, e, peer). (env, envelope_key e))
       (filter (\<lambda>(now, env, e, peer). authenticated ed now v e peer) reqs)"

lemma verify_run_guard_run:
  assumes "vf_ReplayGuard v = Some check" and "vf_Registry v = Some registry"
  shows "guard_run check g (guard_calls ed v reqs) =
    map_prod (map envelope_key) id (verify_run ed v g reqs)"
proof (induction reqs arbitrary: g)
  case Nil
  then show ?case by (simp add: guard_calls_def)
next
  case (Cons req reqs)
  obtain now env e peer where req: "req = (now, env, e, peer)" by (cases req)
  show ?case
  proof (cases "authenticated ed now v e peer")
    case True
    then have v: "Verify ed now env v g e peer = check env g (se_DeviceID e) (se_FrameID e) (se_Sequence e)"
      by (rule Verify_cases(1) [OF assms])
    have calls: "guard_calls ed v (req # reqs) = (env, envelope_key e) # guard_calls ed v reqs"
      using True by (simp add: guard_calls_def req)
    show ?thesis
      unfolding calls unfolding req
      by (simp add: v envelope_key_def Cons.IH split: prod.split option.split)
  next
    case False
    then obtain err where v: "Verify ed now env v g e peer = (Some err, g)" by (rule Verify_rejected)
    have calls: "guard_calls ed v (req # reqs) = guard_calls ed v reqs"
      using False by (simp add: guard_calls_def req)
    show ?thesis unfolding calls unfolding req by (simp add: v Cons.IH)
  qed
qed

section \<open>The registry\<close>

lemma register_devices_keys:
  assumes "register_devices devices r = Inr r'"
    and "\<forall>(k, d) \<in> set r. length (dv_PublicKey d) = ed_PublicKeySize \<and> k \<noteq> [] \<and> dv_DeviceID d = k"
  shows "\<forall>(k, d) \<in> set r'. length (dv_PublicKey d) = ed_PublicKeySize \<and> k \<noteq> [] \<and> dv_DeviceID d = k"
  using assms
proof (induction devices r rule: register_devices.induct)
  case (1 r)
  then show ?case by simp
next
  case (2 device rest r)
  have upd: "set (AList.update (dv_DeviceID device) device r) \<subseteq> insert (dv_DeviceID device, device) (set r)"
    by (induction r) auto
  show ?case
  proof (rule "2.IH")
    show "dv_DeviceID device \<noteq> []" "\<not> length (dv_PublicKey device) \<noteq> ed_PublicKeySize"
      "register_devices rest (AList.update (dv_DeviceID device) device r) = Inr r'"
      using "2.prems"(1) by (simp_all split: if_splits)
    then show "\<forall>(k, d) \<in> set (AList.update (dv_DeviceID device) device r).
        length (dv_PublicKey d) = ed_PublicKeySize \<and> k \<noteq> [] \<and> dv_DeviceID d = k"
      using upd "2.prems"(2) by (intro ballI) (drule subsetD [OF upd], auto)
  qed
qed

lemma registry_device:
  assumes "NewStaticDeviceRegistry devices = Inr r" and "LookupDevice r deviceID = Some d"
  shows "length (dv_PublicKey d) = ed_PublicKeySize \<and> deviceID \<noteq> [] \<and> dv_DeviceID d = deviceID"
  using register_devices_keys [of devices "[]" r] assms
  by (auto simp: NewStaticDeviceRegistry_def LookupDevice_def dest!: map_of_SomeD)

lemma register_devices_lookup:
  "register_devices devices r = Inr r' \<Longrightarrow>
     map_of r' = map_of (rev (map (\<lambda>d. (dv_DeviceID d, d)) devices) @ r)"
  by (induction devices r rule: register_devices.induct)
    (simp_all add: AList.update_conv' split: if_splits)

lemma SQLite_no_panic: "fst (SQLite_CheckAndRecord g env db d f s) \<noteq> Some (GoPanic m)"
  by (simp add: SQLite_CheckAndRecord_def Let_def split: option.split commit_result.split)

section \<open>Properties\<close>

text \<open>Claim C3: the verifier accepts an envelope, and leaves the guard in the state \<open>g'\<close>, exactly
  when the envelope is authenticated (required fields, sizes, algorithm and payload hash;
  signing time at most 30 s ahead and no older than the effective TTL; a registered device
  with the same key id; every declared certificate fingerprint equal to the peer's; a
  signature on the canonical bytes that verifies under the device's key) and the replay
  guard accepts its device, frame and sequence.\<close>

theorem verify_accepts_iff:
  "Verify ed now env v g e peer = (None, g') \<longleftrightarrow>
    authenticated ed now v e peer \<and>
    (\<exists>check. vf_ReplayGuard v = Some check \<and>
       check env g (se_DeviceID e) (se_FrameID e) (se_Sequence e) = (None, g'))"
  by (rule Verify_accept_iff)

text \<open>Claim C23: a request that is not authenticated cannot touch the replay state, so nobody
  without a device's key can block the frames or sequences of that device.\<close>

theorem unauthenticated_keeps_replay_state:
  assumes "snd (Verify ed now env v g e peer) \<noteq> g"
  shows "authenticated ed now v e peer"
proof (rule ccontr)
  assume "\<not> authenticated ed now v e peer"
  then show False by (rule Verify_rejected [where env = env and g = g]) (use assms in simp)
qed

text \<open>A signature scheme and a device for the examples.\<close>

definition sample_ed :: ed25519 where
  "sample_ed = \<lparr>ed_NewKeyFromSeed = (\<lambda>seed. seed @ seed), ed_Public = take 32, ed_Sign = (\<lambda>sk m. take 32 sk @ sha256_Sum256 m),
     ed_Verify = (\<lambda>pk m sig. length pk = 32 \<and> sig = pk @ sha256_Sum256 m)\<rparr>"

definition sample_key :: bytes where "sample_key = replicate 64 (CHR ''k'')"

definition sample_device :: Device where
  "sample_device = \<lparr>dv_DeviceID = ''test-device'', dv_PublicKey = ed_Public sample_ed sample_key,
     dv_PublicKeyID = ''test-key'', dv_ClientCertFingerprintSHA256 = []\<rparr>"

definition sample_verifier :: "(sql_env, replay_db) Verifier" where
  "sample_verifier = \<lparr>vf_Registry = Some (LookupDevice [(''test-device'', sample_device)]),
     vf_ReplayGuard = Some (SQLite_CheckAndRecord (Some \<lparr>sg_db = Some DbOpen\<rparr>)),
     vf_MaxPayloadBytes = 1048576, vf_TTL = 300 * second,
     vf_Now = Some (\<lambda>_. se_SignedAt sample_envelope + second)\<rparr>"

definition sample_signed :: SignedEnvelope where
  "sample_signed = (case SignEnvelope sample_ed sample_key sample_envelope of Inr e \<Rightarrow> e | Inl _ \<Rightarrow> sample_envelope)"

lemma sample_ed_law: "ed25519_law sample_ed"
  by (auto simp: ed25519_law_def genuine_key_def sample_ed_def ed_SeedSize_def ed_PrivateKeySize_def ed_PublicKeySize_def
      ed_SignatureSize_def)

lemma sample_key_genuine: "genuine_key sample_ed sample_key"
  unfolding genuine_key_def sample_ed_def sample_key_def ed_SeedSize_def
  by (rule exI [of _ "replicate 32 (CHR ''k'')"]) (simp add: replicate_add [symmetric])

lemma sample_sign: "SignEnvelope sample_ed sample_key sample_envelope = Inr sample_signed"
  by (simp add: sample_signed_def SignEnvelope_def sample_key_def ed_PrivateKeySize_def Let_def
      CanonicalBytes_def sample_envelope_def SignatureAlgEd25519_def)

lemma SignEnvelope_authenticated:
  assumes "ed25519_law ed" and "genuine_key ed sk" and "SignEnvelope ed sk e = Inr e'"
    and "vf_Registry v = Some registry" and "registry (se_DeviceID e) = Some device"
    and "dv_PublicKey device = ed_Public ed sk" and "dv_PublicKeyID device = se_PublicKeyID e"
    and "cert_bound device e peer"
    and "se_Payload e \<noteq> []" and "int (length (se_Payload e)) \<le> vf_MaxPayloadBytes v"
    and "fresh (effective_ttl (vf_TTL v)) (clock_of now v) (se_SignedAt e)"
  shows "authenticated ed now v e' peer"
proof -
  note b = SignEnvelope_Inr(3) [OF assms(3)]
  obtain sig where sig: "sig = ed_Sign ed sk (canonical_prefix e' @ se_Payload e)" by simp
  have e': "e' = e\<lparr>se_SignatureAlg := SignatureAlgEd25519, se_PayloadSHA256Hex := HashPayload (se_Payload e),
      se_DetachedSignature := sig\<rparr>" using SignEnvelope_Inr(2) [OF assms(3)] sig by simp
  have law: "length (ed_Public ed sk) = ed_PublicKeySize" "length sig = ed_SignatureSize"
    "ed_Verify ed (ed_Public ed sk) (canonical_prefix e' @ se_Payload e) sig"
    using assms(1,2) unfolding ed25519_law_def sig by blast+
  have req: "se_ProtocolVersion e \<noteq> []" "se_DeviceID e \<noteq> []" "se_TrajectoryID e \<noteq> []" "se_FrameID e \<noteq> []"
    using b unfolding CanonicalBytes_Inr_iff by (simp_all add: e')
  have same: "se_DeviceID e' = se_DeviceID e" "se_SignedAt e' = se_SignedAt e" "se_Payload e' = se_Payload e"
    "se_DetachedSignature e' = sig" "se_PublicKeyID e' = se_PublicKeyID e" by (simp_all add: e')
  have w: "well_formed_envelope (vf_MaxPayloadBytes v) e'"
    using req assms(9,10) law(2) by (simp add: well_formed_envelope_def e')
  have c: "cert_bound device e' peer" using assms(8) by (simp add: cert_bound_def e')
  show ?thesis
    using w c assms(4-7,11) law unfolding authenticated_def key_id_agrees_def same by simp
qed

lemma SignEnvelope_key: "SignEnvelope ed sk e = Inr e' \<Longrightarrow> envelope_key e' = envelope_key e"
  using SignEnvelope_Inr(2) [of ed sk e e']
  by (metis (no_types, lifting) SignedEnvelope.select_convs SignedEnvelope.surjective
      SignedEnvelope.update_convs envelope_key_def)

text \<open>The verifier accepts what the signer produces: an envelope signed with the key of
  a registered device, with that device's key id and certificate, a payload within the
  limit, within the freshness window and fresh for the guard, is accepted.\<close>

lemma signed_envelope_accepted:
  assumes "ed25519_law ed" and "genuine_key ed sk" and "SignEnvelope ed sk e = Inr e'"
    and "vf_Registry v = Some registry" and "registry (se_DeviceID e) = Some device"
    and "dv_PublicKey device = ed_Public ed sk" and "dv_PublicKeyID device = se_PublicKeyID e"
    and "cert_bound device e peer"
    and "se_Payload e \<noteq> []" and "int (length (se_Payload e)) \<le> vf_MaxPayloadBytes v"
    and "fresh (effective_ttl (vf_TTL v)) (clock_of now v) (se_SignedAt e)"
    and "vf_ReplayGuard v = Some check"
    and "check env g (se_DeviceID e) (se_FrameID e) (se_Sequence e) = (None, g')"
  shows "Verify ed now env v g e' peer = (None, g')"
  using SignEnvelope_authenticated [OF assms(1-11)] SignEnvelope_key [OF assms(3)] assms(12,13)
  by (simp add: Verify_accept_iff envelope_key_def)

lemmas sample_facts =
  sample_verifier_def sample_device_def sample_envelope_def LookupDevice_def cert_bound_def fresh_def
  effective_ttl_def clock_of_def second_def

lemma sample_laws:
  "vf_Registry sample_verifier = Some (LookupDevice [(''test-device'', sample_device)])"
  "LookupDevice [(''test-device'', sample_device)] (se_DeviceID sample_envelope) = Some sample_device"
  "dv_PublicKey sample_device = ed_Public sample_ed sample_key"
  "dv_PublicKeyID sample_device = se_PublicKeyID sample_envelope"
  "cert_bound sample_device sample_envelope []"
  "se_Payload sample_envelope \<noteq> []"
  "int (length (se_Payload sample_envelope)) \<le> vf_MaxPayloadBytes sample_verifier"
  "fresh (effective_ttl (vf_TTL sample_verifier)) (clock_of (\<lambda>_. 0) sample_verifier) (se_SignedAt sample_envelope)"
  "vf_ReplayGuard sample_verifier = Some (SQLite_CheckAndRecord (Some \<lparr>sg_db = Some DbOpen\<rparr>))"
  by (simp_all add: sample_facts)

lemma sample_guard:
  "SQLite_CheckAndRecord (Some \<lparr>sg_db = Some DbOpen\<rparr>) good_sql empty_db (se_DeviceID sample_envelope)
      (se_FrameID sample_envelope) (se_Sequence sample_envelope) =
     (None, \<lparr>device_state = [''test-device'' \<mapsto> 1], seen_frames = {(''test-device'', ''frame-1'')}\<rparr>)"
  by (simp add: SQLite_CheckAndRecord_def good_sql_def empty_db_def insert_frame_def upsert_sequence_def
      sample_envelope_def)

lemma sample_line_clean: "line_clean sample_signed"
proof -
  have h: "nl \<notin> set (HashPayload p)" for p
    using EncodeToString_set [of nl] by (auto simp: HashPayload_def is_hex_digit_def is_digit_def)
  obtain sig where eq: "sample_signed = sample_envelope\<lparr>se_SignatureAlg := SignatureAlgEd25519,
      se_PayloadSHA256Hex := HashPayload (se_Payload sample_envelope), se_DetachedSignature := sig\<rparr>"
    using SignEnvelope_Inr(2) [OF sample_sign] by blast
  show ?thesis
    unfolding eq by (simp add: line_clean_def sample_envelope_def SignatureAlgEd25519_def h)
qed

lemma signed_envelope_accepted_witness:
  "SignEnvelope sample_ed sample_key sample_envelope = Inr sample_signed \<and>
   fst (Verify sample_ed (\<lambda>_. 0) good_sql sample_verifier empty_db sample_signed []) = None"
  using signed_envelope_accepted [OF sample_ed_law sample_key_genuine sample_sign sample_laws sample_guard] sample_sign
  by simp

lemma verify_run_once:
  "let acc = fst (verify_run ed (v\<lparr>vf_Registry := Some registry,
         vf_ReplayGuard := Some (SQLite_CheckAndRecord guard)\<rparr>) db reqs)
   in distinct (map (\<lambda>e. (se_DeviceID e, se_FrameID e)) acc) \<and>
      per_device_increasing (map envelope_key acc)"
proof -
  let ?v = "v\<lparr>vf_Registry := Some registry, vf_ReplayGuard := Some (SQLite_CheckAndRecord guard)\<rparr>"
  let ?acc = "fst (verify_run ed ?v db reqs)"
  have run: "map envelope_key ?acc = fst (guard_run (SQLite_CheckAndRecord guard) db (guard_calls ed ?v reqs))"
    using verify_run_guard_run [of ?v "SQLite_CheckAndRecord guard" registry db ed reqs] by simp
  have "(\<lambda>e. (se_DeviceID e, se_FrameID e)) = (\<lambda>(d, f, s). (d, f)) \<circ> envelope_key"
    by (auto simp: envelope_key_def fun_eq_iff)
  then have "map (\<lambda>e. (se_DeviceID e, se_FrameID e)) ?acc = map (\<lambda>(d, f, s). (d, f)) (map envelope_key ?acc)"
    by (simp only: map_map)
  with sql.run_once_increasing [of guard db "guard_calls ed ?v reqs"] run show ?thesis
    unfolding Let_def by simp
qed

text \<open>Over any sequence of requests a verifier with the SQLite guard accepts each
  frame of a device at most once, and the sequences it accepts for a device strictly
  increase, whatever the database faults, clocks, peers and rejected requests in between.\<close>

lemma verifier_accepts_once:
  "let acc = fst (verify_run ed (v\<lparr>vf_Registry := Some registry,
         vf_ReplayGuard := Some (SQLite_CheckAndRecord guard)\<rparr>) db reqs)
   in distinct (map (\<lambda>e. (se_DeviceID e, se_FrameID e)) acc) \<and>
      per_device_increasing (map envelope_key acc)"
  by (rule verify_run_once)

lemma Verify_no_panic:
  assumes "NewStaticDeviceRegistry devices = Inr r"
    and "vf_Registry v = Some (LookupDevice r)"
    and "vf_ReplayGuard v = Some (SQLite_CheckAndRecord guard)"
  shows "fst (Verify ed now env v db e peer) \<noteq> Some (GoPanic m)"
proof (cases "authenticated ed now v e peer")
  case True
  from Verify_cases(1) [OF assms(3,2) True] show ?thesis by (simp add: SQLite_no_panic)
next
  case False
  from Verify_cases(2) [OF assms(3,2) False, of db env] registry_device [OF assms(1)]
  show ?thesis by (auto simp: rejects_def)
qed

text \<open>With a registry built by \<open>NewStaticDeviceRegistry\<close> and the SQLite guard, \<open>Verify\<close>
  never panics: \<open>ed25519.Verify\<close>, which panics on a public key of the wrong length, only
  ever sees keys of 32 bytes.\<close>

lemma verify_never_panics:
  assumes "NewStaticDeviceRegistry devices = Inr r"
    and "vf_Registry v = Some (LookupDevice r)"
    and "vf_ReplayGuard v = Some (SQLite_CheckAndRecord guard)"
  shows "fst (Verify ed now env v db e peer) \<noteq> Some (GoPanic m)"
  using assms by (rule Verify_no_panic)

text \<open>
  A forgery against the holder of a key: a signature that verifies under the key, on the
  canonical bytes of an envelope of which the holder never signed the canonical bytes. That
  nobody can make one is the security claim of the signature scheme. It is no law that a
  function could satisfy, since a verifying signature exists for every message; so the theorem
  exhibits the forgery instead of assuming that there is none.
\<close>

definition forgery :: "ed25519 \<Rightarrow> bytes \<Rightarrow> SignedEnvelope set \<Rightarrow> SignedEnvelope \<Rightarrow> bool" where
  "forgery ed pk issued e \<longleftrightarrow>
     (\<exists>m. CanonicalBytes e = Inr m \<and> length pk = ed_PublicKeySize \<and> length (se_DetachedSignature e) = ed_SignatureSize \<and>
        ed_Verify ed pk m (se_DetachedSignature e) \<and> (\<forall>e0 \<in> issued. CanonicalBytes e0 \<noteq> Inr m))"

text \<open>Claim C6: authenticity, for any signature scheme. Let a device have signed a set of envelopes,
  all without line breaks in their text fields. An accepted envelope without line breaks is one
  of those, identical in every field, payload included, but the signature bytes, or else its
  sender has forged a signature: the envelope carries a signature of the right length that
  verifies under the registered key of its device, on bytes the device never signed.\<close>

theorem accepted_envelope_authentic:
  assumes "Verify ed now env v g e peer = (None, g')"
    and "\<forall>e0 \<in> issued. line_clean e0" and "line_clean e"
  shows "\<exists>registry device. vf_Registry v = Some registry \<and> registry (se_DeviceID e) = Some device \<and>
    ((\<exists>e0 \<in> issued. e = e0\<lparr>se_DetachedSignature := se_DetachedSignature e\<rparr>) \<or> forgery ed (dv_PublicKey device) issued e)"
proof -
  from assms(1) have auth: "authenticated ed now v e peer" by (simp add: Verify_accept_iff)
  then obtain registry device where reg: "vf_Registry v = Some registry" "registry (se_DeviceID e) = Some device"
    and w: "well_formed_envelope (vf_MaxPayloadBytes v) e" and pk: "length (dv_PublicKey device) = ed_PublicKeySize"
    and ver: "ed_Verify ed (dv_PublicKey device) (canonical_prefix e @ se_Payload e) (se_DetachedSignature e)"
    by (auto simp: authenticated_def bind_eq_Some_conv split: option.splits)
  from w have b: "CanonicalBytes e = Inr (canonical_prefix e @ se_Payload e)"
    and len: "length (se_DetachedSignature e) = ed_SignatureSize"
    by (auto simp: well_formed_envelope_def CanonicalBytes_Inr_iff SignatureAlgEd25519_def)
  have "forgery ed (dv_PublicKey device) issued e" if "\<forall>e0 \<in> issued. e \<noteq> e0\<lparr>se_DetachedSignature := se_DetachedSignature e\<rparr>"
    using that b len pk ver canonical_inj [OF _ b] assms(2,3) unfolding forgery_def by blast
  with reg show ?thesis by blast
qed

theorem accepted_envelope_authentic_witness:
  "ed25519_law sample_ed \<and> fst (Verify sample_ed (\<lambda>_. 0) good_sql sample_verifier empty_db sample_signed []) = None \<and>
   \<not> forgery sample_ed (dv_PublicKey sample_device) {sample_signed} sample_signed \<and>
   (\<exists>e0 \<in> {sample_signed}. sample_signed = e0\<lparr>se_DetachedSignature := se_DetachedSignature sample_signed\<rparr>)"
proof -
  have acc: "Verify sample_ed (\<lambda>_. 0) good_sql sample_verifier empty_db sample_signed [] =
      (None, \<lparr>device_state = [''test-device'' \<mapsto> 1], seen_frames = {(''test-device'', ''frame-1'')}\<rparr>)"
    by (rule signed_envelope_accepted [OF sample_ed_law sample_key_genuine sample_sign sample_laws sample_guard])
  have no: "\<not> forgery sample_ed pk {sample_signed} sample_signed" for pk
    by (simp add: forgery_def)
  have clean: "\<forall>e0 \<in> {sample_signed}. line_clean e0" by (simp add: sample_line_clean)
  from accepted_envelope_authentic [OF acc clean sample_line_clean] no sample_ed_law acc show ?thesis by auto
qed

theorem unauthenticated_keeps_replay_state_witness:
  "snd (Verify sample_ed (\<lambda>_. 0) good_sql sample_verifier empty_db sample_signed []) \<noteq> empty_db \<and>
   authenticated sample_ed (\<lambda>_. 0) sample_verifier sample_signed []"
proof -
  have key: "envelope_key sample_signed = envelope_key sample_envelope"
    by (rule SignEnvelope_key [OF sample_sign])
  have "Verify sample_ed (\<lambda>_. 0) good_sql sample_verifier empty_db sample_signed [] =
      (None, \<lparr>device_state = [''test-device'' \<mapsto> 1], seen_frames = {(''test-device'', ''frame-1'')}\<rparr>)"
    using SignEnvelope_authenticated [OF sample_ed_law sample_key_genuine sample_sign sample_laws(1-8)]
      key sample_laws(9) sample_guard by (simp add: Verify_accept_iff envelope_key_def)
  then have ne: "snd (Verify sample_ed (\<lambda>_. 0) good_sql sample_verifier empty_db sample_signed []) \<noteq> empty_db"
    by (simp add: empty_db_def)
  from unauthenticated_keeps_replay_state [OF ne] ne show ?thesis by blast
qed

subsection \<open>Line breaks\<close>

text \<open>Claim C39: one signature can stand for two frames. When a device signs an envelope whose trajectory
  id contains a line break followed by \<open>frame_id=\<close>, signing succeeds, and the part after the
  line break can be moved into the frame id: the new envelope has another trajectory and
  frame, the same canonical bytes and the same signature, and the verifier finds it
  authenticated exactly when it finds the original so. Neither signing, nor the canonical
  bytes, nor the verifier rejects line breaks.\<close>

theorem canonical_bytes_ambiguous:
  assumes "length sk = ed_PrivateKeySize" and "se_SignatureAlg e = SignatureAlgEd25519"
    and "se_ProtocolVersion e \<noteq> []" and "se_DeviceID e \<noteq> []" and "se_FrameID e \<noteq> []"
    and "se_TrajectoryID e = (c # t) @ [nl] @ ''frame_id='' @ x"
  shows "\<exists>a b m. SignEnvelope ed sk e = Inr a \<and>
    b = a\<lparr>se_TrajectoryID := c # t, se_FrameID := x @ [nl] @ ''frame_id='' @ se_FrameID a\<rparr> \<and>
    se_TrajectoryID b \<noteq> se_TrajectoryID a \<and> se_FrameID b \<noteq> se_FrameID a \<and>
    CanonicalBytes a = Inr m \<and> CanonicalBytes b = Inr m \<and>
    se_DetachedSignature a = ed_Sign ed sk m \<and> se_DetachedSignature b = ed_Sign ed sk m \<and>
    (authenticated ed now v b peer \<longleftrightarrow> authenticated ed now v a peer)"
proof -
  obtain a where a: "SignEnvelope ed sk e = Inr a"
    using assms by (simp add: SignEnvelope_def CanonicalBytes_def SignatureAlgEd25519_def Let_def)
  let ?m = "canonical_prefix a @ se_Payload a"
  let ?b = "a\<lparr>se_TrajectoryID := c # t, se_FrameID := x @ [nl] @ ''frame_id='' @ se_FrameID a\<rparr>"
  note m = SignEnvelope_Inr(3) [OF a]
  obtain sig where eq: "a = e\<lparr>se_SignatureAlg := SignatureAlgEd25519, se_PayloadSHA256Hex := HashPayload (se_Payload e),
      se_DetachedSignature := sig\<rparr>" and sig: "sig = ed_Sign ed sk ?m"
    using SignEnvelope_Inr(2) [OF a] by (metis SignedEnvelope.select_convs(7) SignedEnvelope.surjective SignedEnvelope.update_convs(8-10))
  have a_sig: "se_DetachedSignature a = ed_Sign ed sk ?m" by (subst eq) (simp add: sig)
  have traj: "se_TrajectoryID a = (c # t) @ [nl] @ ''frame_id='' @ x" and frame: "se_FrameID a \<noteq> []"
    by (subst eq, simp add: assms)+
  have "canonical_prefix ?b = canonical_prefix a" by (simp add: canonical_prefix_def traj)
  then have "authenticated ed now v ?b peer \<longleftrightarrow> authenticated ed now v a peer"
    using frame by (simp add: authenticated_def well_formed_envelope_def cert_bound_def key_id_agrees_def traj cong: option.case_cong)
  with a m a_sig traj canonical_traded [OF m traj] show ?thesis by (intro exI [of _ a] exI [of _ ?b] exI [of _ ?m]) simp
qed

theorem canonical_bytes_ambiguous_witness:
  "\<exists>a b m. SignEnvelope sample_ed sample_key (sample_envelope\<lparr>se_TrajectoryID := ''t'' @ [nl] @ ''frame_id=x''\<rparr>) = Inr a \<and>
     se_FrameID b \<noteq> se_FrameID a \<and> CanonicalBytes a = Inr m \<and> CanonicalBytes b = Inr m \<and>
     se_DetachedSignature b = se_DetachedSignature a \<and>
     authenticated sample_ed (\<lambda>_. 0) sample_verifier a [] \<and> authenticated sample_ed (\<lambda>_. 0) sample_verifier b []"
proof -
  let ?e = "sample_envelope\<lparr>se_TrajectoryID := ''t'' @ [nl] @ ''frame_id=x''\<rparr>"
  have h: "length sample_key = ed_PrivateKeySize" "se_SignatureAlg ?e = SignatureAlgEd25519" "se_ProtocolVersion ?e \<noteq> []"
    "se_DeviceID ?e \<noteq> []" "se_FrameID ?e \<noteq> []" "se_TrajectoryID ?e = (CHR ''t'' # []) @ [nl] @ ''frame_id='' @ ''x''"
    by (simp_all add: sample_key_def ed_PrivateKeySize_def sample_envelope_def)
  from canonical_bytes_ambiguous [OF h, of sample_ed "\<lambda>_. 0" sample_verifier "[]"]
  obtain a b m where a: "SignEnvelope sample_ed sample_key ?e = Inr a" and same: "se_FrameID b \<noteq> se_FrameID a"
    "CanonicalBytes a = Inr m" "CanonicalBytes b = Inr m"
    "se_DetachedSignature a = ed_Sign sample_ed sample_key m" "se_DetachedSignature b = ed_Sign sample_ed sample_key m"
    "authenticated sample_ed (\<lambda>_. 0) sample_verifier b [] \<longleftrightarrow> authenticated sample_ed (\<lambda>_. 0) sample_verifier a []" by blast
  have "authenticated sample_ed (\<lambda>_. 0) sample_verifier a []"
    by (rule SignEnvelope_authenticated [OF sample_ed_law sample_key_genuine a sample_laws(1)])
      (simp_all add: sample_facts, simp_all)
  with a same show ?thesis by (intro exI [of _ a] exI [of _ b] exI [of _ m]) simp
qed

end
