(* ===== verification/Sanitize.thy ===== *)
theory Sanitize
  imports Trajectory Sha256 Go_Regexp
begin

text \<open>
  \<open>internal/sanitize/sanitize.go\<close>: the pipeline that turns a raw frame into the frame that may
  be stored, or drops or quarantines it. The entity recogniser and the screenshot redactor
  are interfaces in the source; they are function-valued fields of the pipeline here, and
  return their error on the left. The seven patterns are translated to the expressions of
  \<open>Go_Regexp\<close>. The redactor's mutable state is a record that \<open>node\<close> and \<open>sanitizeText\<close> pass
  along; the map used as a rule set is a set.
\<close>

section \<open>Patterns\<close>

definition DefaultVersion :: string where "DefaultVersion = ''sanitize-v0.1.0''"

definition emailPattern :: re where
  "emailPattern = seqs
     [WordB, at_least 1 (Cls (c_letter_i @ c_digit @ c_chars ''._%+-'')), ch (CHR ''@''),
      at_least 1 (Cls (c_letter_i @ c_digit @ c_chars ''.-'')), ch (CHR ''.''),
      at_least 2 (Cls c_letter_i), WordB]"

definition phonePattern :: re where
  "phonePattern =
     (let sep = opt (Cls (c_chars ''-.'' @ c_space)); d = Cls c_digit
      in seqs
        [WordB, opt (seqs [opt (ch (CHR ''+'')), ch (CHR ''1''), sep]),
         seqs [opt (ch (CHR ''('')), rep 3 d, opt (ch (CHR '')'')), sep],
         rep 3 d, sep, rep 4 d, WordB])"

definition ssnPattern :: re where
  "ssnPattern = seqs
     [WordB, rep 3 (Cls c_digit), ch (CHR ''-''), rep 2 (Cls c_digit), ch (CHR ''-''),
      rep 4 (Cls c_digit), WordB]"

definition cardPattern :: re where
  "cardPattern = seqs
     [WordB, between 13 19 (Seq (Cls c_digit) (Star (Cls (c_chars '' -'')))), WordB]"

definition addressPattern :: re where
  "addressPattern =
     (let s = at_least 1 (Cls c_space);
          part = Seq (Cls (c_letter_i @ c_digit)) (Star (Cls (c_letter_i @ c_digit @ c_chars ''.-'')))
      in seqs
        [WordB, between 1 6 (Cls c_digit), s, part, between 0 4 (Seq s part), s,
         alts (map word_i [''st'', ''street'', ''ave'', ''avenue'', ''rd'', ''road'', ''blvd'', ''boulevard'',
           ''dr'', ''drive'', ''ln'', ''lane'', ''way'', ''ct'', ''court'']), WordB])"

definition tokenPattern :: re where
  "tokenPattern =
     (let sep = opt (Cls (c_chars ''_-'')); s = Star (Cls c_space)
      in seqs
        [WordB,
         alts [word_i ''bearer'', seqs [word_i ''api'', sep, word_i ''key''],
           seqs [word_i ''access'', sep, word_i ''token''], word_i ''secret'', word_i ''token''],
         s, Cls (c_chars '':=''), s,
         at_least 8 (Cls (c_letter_i @ c_digit @ c_chars ''._-'')), WordB])"

definition longNumericPattern :: re where
  "longNumericPattern = seqs [WordB, at_least 9 (Cls c_digit), WordB]"

definition pii_patterns :: "(string \<times> re) list" where
  "pii_patterns =
     [(''regex_email'', emailPattern), (''regex_phone'', phonePattern), (''regex_ssn'', ssnPattern),
      (''regex_payment_card'', cardPattern), (''regex_address'', addressPattern),
      (''regex_token'', tokenPattern), (''regex_long_numeric_identifier'', longNumericPattern)]"

section \<open>The pipeline and its results\<close>

record Entity =
  en_Start :: int
  en_End :: int
  en_Label :: string
  en_Confidence :: u64  \<comment> \<open>the bits of the \<open>float64\<close>\<close>

type_synonym NER = "string \<Rightarrow> string + Entity list"
type_synonym VisionRedactor = "ScreenshotRef \<Rightarrow> string + RedactionBox list"

definition ConservativeNER :: NER where "ConservativeNER text = Inr []"
definition NoopVisionRedactor :: VisionRedactor where "NoopVisionRedactor screenshot = Inr []"

datatype sanitize_error = ErrSanitizerFailed

record Result =
  res_Frame :: SanitizedFrame
  res_Report :: RedactionReport
  res_Decision :: Decision
  res_ReasonCodes :: "string list"
  res_SanitizerVersion :: string
  res_KillSwitchReason :: string

record Pipeline =
  pl_AllowedPackages :: "string set"
  pl_SensitivePackages :: "string \<rightharpoonup> string"
  pl_Version :: string
  pl_NER :: "NER option"
  pl_Vision :: "VisionRedactor option"
  pl_Now :: "(nat \<Rightarrow> time) option"

definition defaultSensitivePackages :: "string \<rightharpoonup> string" where
  "defaultSensitivePackages =
     [''com.example.bank'' \<mapsto> ''banking_app'',
      ''com.example.passwordmanager'' \<mapsto> ''password_manager'',
      ''com.example.medical'' \<mapsto> ''medical_app'',
      ''com.google.android.gm'' \<mapsto> ''email_app'',
      ''com.whatsapp'' \<mapsto> ''private_messaging_app'',
      ''org.signal'' \<mapsto> ''private_messaging_app'']"

fun allow_packages :: "string list \<Rightarrow> string set \<Rightarrow> string set" where
  "allow_packages [] m = m"
| "allow_packages (pkg # rest) m =
     (let pkg = TrimSpace pkg in allow_packages rest (if pkg \<noteq> [] then insert pkg m else m))"

fun mark_sensitive :: "string list \<Rightarrow> (string \<rightharpoonup> string) \<Rightarrow> (string \<rightharpoonup> string)" where
  "mark_sensitive [] m = m"
| "mark_sensitive (pkg # rest) m =
     (let pkg = TrimSpace pkg
      in mark_sensitive rest (if pkg \<noteq> [] then m(pkg \<mapsto> ''configured_sensitive_package'') else m))"

definition NewPipeline :: "string list \<Rightarrow> string list \<Rightarrow> Pipeline" where
  "NewPipeline allowedPackages sensitivePackages = \<lparr>
     pl_AllowedPackages = allow_packages allowedPackages {},
     pl_SensitivePackages = mark_sensitive sensitivePackages defaultSensitivePackages,
     pl_Version = DefaultVersion,
     pl_NER = Some ConservativeNER,
     pl_Vision = Some NoopVisionRedactor,
     pl_Now = None\<rparr>"

section \<open>Helpers\<close>

fun unique_loop :: "string list \<Rightarrow> string set \<Rightarrow> string list \<Rightarrow> string list" where
  "unique_loop [] seen out = out"
| "unique_loop (value # rest) seen out =
     (let value = TrimSpace value
      in if value = [] then unique_loop rest seen out
         else if value \<in> seen then unique_loop rest seen out
         else unique_loop rest (insert value seen) (out @ [value]))"

definition unique :: "string list \<Rightarrow> string list" where
  "unique values = sort (unique_loop values {} [])"

text \<open>
  \<open>strconvI\<close> fills a buffer of 20 bytes from the right; \<open>buf\<close> is the filled part, so the
  position is 20 minus its length.
\<close>

function strconv_loop :: "int \<Rightarrow> string \<Rightarrow> string" where
  "strconv_loop i buf =
     (if 0 < i then strconv_loop (i div 10) (''0123456789'' ! nat (i mod 10) # buf) else buf)"
  by pat_completeness auto
termination by (relation "measure (\<lambda>(i, buf). nat i)") auto

declare strconv_loop.simps [simp del]

definition strconvI :: "int \<Rightarrow> string" where
  "strconvI i = (if i = 0 then ''0'' else strconv_loop i [])"

section \<open>Redacting text\<close>

record textRedactor =
  tr_ner :: NER
  tr_ruleSet :: "string set"
  tr_fieldsDropped :: "string list"
  tr_reasonCodes :: "string list"

definition newTextRedactor :: "NER \<Rightarrow> textRedactor" where
  "newTextRedactor ner = \<lparr>tr_ner = ner, tr_ruleSet = {}, tr_fieldsDropped = [], tr_reasonCodes = []\<rparr>"

definition addRule :: "textRedactor \<Rightarrow> string \<Rightarrow> textRedactor" where
  "addRule r rule = r\<lparr>tr_ruleSet := insert rule (tr_ruleSet r)\<rparr>"

definition rules :: "textRedactor \<Rightarrow> string list" where
  "rules r = sorted_list_of_set (tr_ruleSet r)"

fun match_patterns :: "(string \<times> re) list \<Rightarrow> textRedactor \<Rightarrow> string \<Rightarrow> bool \<Rightarrow> bool \<times> textRedactor" where
  "match_patterns [] r raw matched = (matched, r)"
| "match_patterns ((name, pat) # rest) r raw matched =
     (if MatchString pat raw
      then (let r = addRule r name;
                r = r\<lparr>tr_reasonCodes := tr_reasonCodes r @ [name]\<rparr>
            in match_patterns rest r raw True)
      else match_patterns rest r raw matched)"

definition hasRegexPII :: "textRedactor \<Rightarrow> string \<Rightarrow> string \<Rightarrow> bool \<times> textRedactor" where
  "hasRegexPII r raw field =
     (let (matched, r) = match_patterns pii_patterns r raw False
      in if matched
         then (True, r\<lparr>tr_reasonCodes := tr_reasonCodes r @ [''redacted_sensitive_text''],
                       tr_fieldsDropped := tr_fieldsDropped r @ [field]\<rparr>)
         else (False, r))"

definition sanitizeText ::
  "textRedactor \<Rightarrow> string \<Rightarrow> string \<Rightarrow> (string + string \<times> RedactionStatus) \<times> textRedactor" where
  "sanitizeText r raw field =
     (if raw = [] then (Inr ([], RedactionNotPresent), r)
      else
        let r = addRule r ''structural_attrition'';
            (pii, r) = hasRegexPII r raw field
        in if pii
           then (Inr ([], RedactionRedacted), r\<lparr>tr_fieldsDropped := tr_fieldsDropped r @ [field]\<rparr>)
           else
             (case tr_ner r raw of
                Inl err \<Rightarrow> (Inl err, r)
              | Inr entities \<Rightarrow>
                  if 0 < length entities
                  then (let r = addRule r ''local_ner_redaction'';
                            r = r\<lparr>tr_reasonCodes := tr_reasonCodes r @ [''local_ner_entity_detected'']\<rparr>;
                            r = r\<lparr>tr_fieldsDropped := tr_fieldsDropped r @ [field]\<rparr>
                        in (Inr ([], RedactionRedacted), r))
                  else (Inr (EncodeToString (sha256_Sum256 raw), RedactionHashed), r)))"

fun node :: "textRedactor \<Rightarrow> RawNode \<Rightarrow> string \<Rightarrow> (string + SanitizedNode) \<times> textRedactor"
and child_nodes :: "textRedactor \<Rightarrow> RawNode list \<Rightarrow> int \<Rightarrow> string \<Rightarrow> (string + SanitizedNode list) \<times> textRedactor" where
  "node r (RawNode StableNodeID Bounds ClassName PackageName ResourceIDHash RawText TextHash
       TextRedactionStatus RawContentDescription ContentDescriptionHash
       ContentDescriptionRedactionStatus Clickable Enabled Focused Selected Checkable Children) path =
     (case sanitizeText r RawText (path @ ''.pre_storage_text'') of
        (Inl err, r) \<Rightarrow> (Inl err, r)
      | (Inr (textHash, textStatus), r) \<Rightarrow>
          (case sanitizeText r RawContentDescription (path @ ''.pre_storage_content_description'') of
             (Inl err, r) \<Rightarrow> (Inl err, r)
           | (Inr (cdHash, cdStatus), r) \<Rightarrow>
               (case child_nodes r Children 0 path of
                  (Inl err, r) \<Rightarrow> (Inl err, r)
                | (Inr children, r) \<Rightarrow>
                    (Inr (SanitizedNode StableNodeID Bounds ClassName PackageName ResourceIDHash
                       textHash textStatus cdHash cdStatus Clickable Enabled Focused Selected
                       Checkable children), r))))"
| "child_nodes r [] i path = (Inr [], r)"
| "child_nodes r (child # rest) i path =
     (case node r child (path @ ''.children['' @ strconvI i @ '']'') of
        (Inl err, r) \<Rightarrow> (Inl err, r)
      | (Inr out, r) \<Rightarrow>
          (case child_nodes r rest (i + 1) path of
             (Inl err, r) \<Rightarrow> (Inl err, r)
           | (Inr outs, r) \<Rightarrow> (Inr (out # outs), r)))"

section \<open>Processing a frame\<close>

definition drop_frame :: "Pipeline \<Rightarrow> RedactionReport \<Rightarrow> string \<Rightarrow> Result" where
  "drop_frame p report reason =
     (let report = report\<lparr>rr_ReasonCodes := unique (rr_ReasonCodes report @ [reason])\<rparr>
      in \<lparr>res_Frame = zero_SanitizedFrame, res_Report = report, res_Decision = DecisionDrop,
          res_ReasonCodes = rr_ReasonCodes report, res_SanitizerVersion = pl_Version p,
          res_KillSwitchReason = []\<rparr>)"

definition quarantine :: "Pipeline \<Rightarrow> RedactionReport \<Rightarrow> string \<Rightarrow> string \<Rightarrow> Result" where
  "quarantine p report reason killSwitchReason =
     (let report = report\<lparr>rr_ReasonCodes := unique (rr_ReasonCodes report @ [reason])\<rparr>
      in \<lparr>res_Frame = zero_SanitizedFrame, res_Report = report, res_Decision = DecisionQuarantine,
          res_ReasonCodes = rr_ReasonCodes report, res_SanitizerVersion = pl_Version p,
          res_KillSwitchReason = killSwitchReason\<rparr>)"

text \<open>\<open>Process\<close> first fills in missing parts of the pipeline it is called on, and keeps them.\<close>

definition fill_defaults :: "Pipeline \<Rightarrow> Pipeline" where
  "fill_defaults p =
     (let p = (if pl_Version p = [] then p\<lparr>pl_Version := DefaultVersion\<rparr> else p);
          p = (if pl_NER p = None then p\<lparr>pl_NER := Some ConservativeNER\<rparr> else p)
      in (if pl_Vision p = None then p\<lparr>pl_Vision := Some NoopVisionRedactor\<rparr> else p))"

definition sanitized_screenshot :: "ScreenshotRef \<Rightarrow> RedactionBox list \<Rightarrow> ScreenshotRef" where
  "sanitized_screenshot ref boxes =
     (let screenshot = ref\<lparr>sr_RedactionBoxes := boxes\<rparr>
      in if sr_ReferenceID screenshot \<noteq> [] \<and> sr_RedactionStatus screenshot = []
         then screenshot\<lparr>sr_RedactionStatus := ''metadata_only_no_raw_bytes''\<rparr> else screenshot)"

definition sanitized_frame ::
  "Pipeline \<Rightarrow> RawFrame \<Rightarrow> SanitizedNode \<Rightarrow> ScreenshotRef \<Rightarrow> RedactionReport \<Rightarrow> time \<Rightarrow> SanitizedFrame" where
  "sanitized_frame p frame root screenshot report now = \<lparr>
     sf_ProtocolVersion = rf_ProtocolVersion frame,
     sf_TrajectoryID = rf_TrajectoryID frame,
     sf_FrameID = rf_FrameID frame,
     sf_Sequence = rf_Sequence frame,
     sf_EventTimestamp = rf_EventTimestamp frame,
     sf_Device = \<lparr>
       dm_DeviceID = dm_DeviceID (rf_Device frame),
       dm_AndroidSDKVersion = dm_AndroidSDKVersion (rf_Device frame),
       dm_BuildFingerprintHash = dm_BuildFingerprintHash (rf_Device frame),
       dm_BuildMetadataRedactionStatus = dm_BuildMetadataRedactionStatus (rf_Device frame)\<rparr>,
     sf_ForegroundApp = rf_ForegroundApp frame,
     sf_Allowlist = \<lparr>de_Decision = DecisionAccept, de_ReasonCodes = [''package_allowlisted''],
       de_KillSwitchReason = []\<rparr>,
     sf_UIRoot = root,
     sf_Intent = rf_Intent frame,
     sf_Action = rf_Action frame,
     sf_UISettle = rf_UISettle frame,
     sf_ScreenshotRef = screenshot,
     sf_Sanitizer = \<lparr>
       sm_SanitizerVersion = pl_Version p,
       sm_Decision = DecisionAccept,
       sm_RedactionRulesApplied = rr_RulesApplied report,
       sm_FieldsDropped = rr_FieldsDropped report,
       sm_ReasonCodes = rr_ReasonCodes report,
       sm_KillSwitchReason = []\<rparr>,
     sf_Signature = \<lparr>
       sg_SignatureAlg = sg_SignatureAlg (rf_Signature frame),
       sg_KeyID = sg_KeyID (rf_Signature frame),
       sg_PayloadSHA256Hex = sg_PayloadSHA256Hex (rf_Signature frame),
       sg_VerificationStatus = ''verified''\<rparr>,
     sf_SanitizedAt = now\<rparr>"

text \<open>The report after the tree walk, before duplicates are removed.\<close>

definition redaction_report :: "RedactionReport \<Rightarrow> textRedactor \<Rightarrow> RawFrame \<Rightarrow> RedactionReport" where
  "redaction_report report redactor frame =
     (let report = report\<lparr>rr_RulesApplied := rr_RulesApplied report @ rules redactor\<rparr>;
          report = report\<lparr>rr_FieldsDropped := rr_FieldsDropped report @ tr_fieldsDropped redactor\<rparr>;
          report = report\<lparr>rr_ReasonCodes := rr_ReasonCodes report @ tr_reasonCodes redactor\<rparr>;
          report = report\<lparr>rr_RulesApplied := rr_RulesApplied report @ [''structural_attrition'']\<rparr>
      in if 0 < length (rf_PreStorageRaw frame)
         then report\<lparr>rr_FieldsDropped := rr_FieldsDropped report @ [''pre_storage_raw_fields'']\<rparr>
         else report)"

definition Process ::
  "(nat \<Rightarrow> time) \<Rightarrow> Pipeline \<Rightarrow> RawFrame \<Rightarrow> (Result \<times> sanitize_error option) \<times> Pipeline" where
  "Process time_Now p frame =
     (let p = fill_defaults p;
          report = zero_RedactionReport;
          pkg = TrimSpace (fa_PackageName (rf_ForegroundApp frame))
      in if pkg = [] then ((drop_frame p report ''missing_foreground_package'', None), p)
         else
           (case pl_SensitivePackages p pkg of
              Some reason \<Rightarrow> ((quarantine p report ''sensitive_package'' reason, None), p)
            | None \<Rightarrow>
                if pkg \<notin> pl_AllowedPackages p
                then ((drop_frame p report ''package_not_allowlisted'', None), p)
                else
                  (case node (newTextRedactor (the (pl_NER p))) (rf_UIRoot frame) ''ui_root'' of
                     (Inl err, redactor) \<Rightarrow>
                       ((drop_frame p report ''sanitizer_error'', Some ErrSanitizerFailed), p)
                   | (Inr root, redactor) \<Rightarrow>
                       let report = redaction_report report redactor frame
                       in (case the (pl_Vision p) (rf_ScreenshotRef frame) of
                             Inl err \<Rightarrow>
                               ((drop_frame p report ''vision_redaction_error'', Some ErrSanitizerFailed), p)
                           | Inr boxes \<Rightarrow>
                               let screenshot = sanitized_screenshot (rf_ScreenshotRef frame) boxes;
                                   now = (case pl_Now p of None \<Rightarrow> time_Now | Some f \<Rightarrow> f);
                                   reasonCodes = unique (rr_ReasonCodes report @ [''sanitized'']);
                                   report = \<lparr>rr_RulesApplied = unique (rr_RulesApplied report),
                                     rr_FieldsDropped = unique (rr_FieldsDropped report),
                                     rr_ReasonCodes = reasonCodes\<rparr>;
                                   sanitized = sanitized_frame p frame root screenshot report (now 0)
                               in ((\<lparr>res_Frame = sanitized, res_Report = report,
                                     res_Decision = DecisionAccept, res_ReasonCodes = reasonCodes,
                                     res_SanitizerVersion = pl_Version p, res_KillSwitchReason = []\<rparr>, None), p)))))"

section \<open>What the redactor does to one text\<close>

text \<open>
  A reference description of \<open>sanitizeText\<close>: the names of the patterns that match, the hash
  and status that result, and what is added to the redactor's state.
\<close>

definition text_matches :: "string \<Rightarrow> string list" where
  "text_matches raw = map fst (filter (\<lambda>(name, pat). MatchString pat raw) pii_patterns)"

definition has_entities :: "NER \<Rightarrow> string \<Rightarrow> bool" where
  "has_entities ner raw \<longleftrightarrow> (case ner raw of Inl _ \<Rightarrow> False | Inr es \<Rightarrow> es \<noteq> [])"

definition ner_fails :: "NER \<Rightarrow> string \<Rightarrow> bool" where
  "ner_fails ner raw \<longleftrightarrow> raw \<noteq> [] \<and> text_matches raw = [] \<and> \<not> is_ok (ner raw)"

definition text_redacted :: "NER \<Rightarrow> string \<Rightarrow> bool" where
  "text_redacted ner raw \<longleftrightarrow> raw \<noteq> [] \<and> (text_matches raw \<noteq> [] \<or> has_entities ner raw)"

definition text_view :: "NER \<Rightarrow> string \<Rightarrow> string \<times> RedactionStatus" where
  "text_view ner raw =
     (if raw = [] then ([], RedactionNotPresent)
      else if text_redacted ner raw then ([], RedactionRedacted)
      else (sha256_hex raw, RedactionHashed))"

definition text_rules :: "NER \<Rightarrow> string \<Rightarrow> string set" where
  "text_rules ner raw =
     (if raw = [] then {}
      else {''structural_attrition''} \<union> set (text_matches raw) \<union>
        (if text_matches raw = [] \<and> has_entities ner raw then {''local_ner_redaction''} else {}))"

definition text_reasons :: "NER \<Rightarrow> string \<Rightarrow> string list" where
  "text_reasons ner raw =
     (if raw = [] then []
      else if text_matches raw \<noteq> [] then text_matches raw @ [''redacted_sensitive_text'']
      else if has_entities ner raw then [''local_ner_entity_detected''] else [])"

definition text_dropped :: "NER \<Rightarrow> string \<times> string \<Rightarrow> string list" where
  "text_dropped ner ft =
     (let (field, raw) = ft
      in if raw = [] then [] else if text_matches raw \<noteq> [] then [field, field]
         else if has_entities ner raw then [field] else [])"

lemma match_patterns_eq:
  "match_patterns ps r raw m =
     (let names = map fst (filter (\<lambda>(name, pat). MatchString pat raw) ps)
      in (m \<or> names \<noteq> [],
          r\<lparr>tr_ruleSet := tr_ruleSet r \<union> set names, tr_reasonCodes := tr_reasonCodes r @ names\<rparr>))"
  by (induction ps r raw m rule: match_patterns.induct) (auto simp: Let_def addRule_def)

lemma hasRegexPII_eq:
  "hasRegexPII r raw field =
     (text_matches raw \<noteq> [],
      r\<lparr>tr_ruleSet := tr_ruleSet r \<union> set (text_matches raw),
        tr_reasonCodes := tr_reasonCodes r @
          (if text_matches raw = [] then [] else text_matches raw @ [''redacted_sensitive_text'']),
        tr_fieldsDropped := tr_fieldsDropped r @ (if text_matches raw = [] then [] else [field])\<rparr>)"
  by (simp add: hasRegexPII_def match_patterns_eq text_matches_def Let_def)

definition add_text :: "textRedactor \<Rightarrow> string \<times> string \<Rightarrow> textRedactor" where
  "add_text r ft = r\<lparr>tr_ruleSet := tr_ruleSet r \<union> text_rules (tr_ner r) (snd ft),
     tr_fieldsDropped := tr_fieldsDropped r @ text_dropped (tr_ner r) ft,
     tr_reasonCodes := tr_reasonCodes r @ text_reasons (tr_ner r) (snd ft)\<rparr>"

lemma tr_ner_add_text [simp]: "tr_ner (add_text r ft) = tr_ner r"
  by (simp add: add_text_def)

lemma sanitizeText_ok:
  "\<not> ner_fails (tr_ner r) raw \<Longrightarrow>
     sanitizeText r raw field = (Inr (text_view (tr_ner r) raw), add_text r (field, raw))"
  by (cases r) (auto simp: sanitizeText_def add_text_def hasRegexPII_eq ner_fails_def text_view_def text_redacted_def
      text_rules_def text_dropped_def text_reasons_def has_entities_def addRule_def sha256_hex_def Let_def is_ok_iff insert_commute
      split: sum.splits)

lemma sanitizeText_fails:
  "ner_fails (tr_ner r) raw \<Longrightarrow> \<exists>err r'. sanitizeText r raw field = (Inl err, r')"
  by (auto simp: sanitizeText_def hasRegexPII_eq ner_fails_def addRule_def Let_def is_ok_def
      split: sum.splits)

section \<open>What the redactor does to a tree\<close>

text \<open>The texts of a tree with their field names, in the order in which they are visited.\<close>

fun field_texts :: "string \<Rightarrow> RawNode \<Rightarrow> (string \<times> string) list"
and child_texts :: "string \<Rightarrow> int \<Rightarrow> RawNode list \<Rightarrow> (string \<times> string) list" where
  "field_texts path (RawNode i b c p rh t th ts d dh ds k e f s h cs) =
     (path @ ''.pre_storage_text'', t) # (path @ ''.pre_storage_content_description'', d) #
     child_texts path 0 cs"
| "child_texts path i [] = []"
| "child_texts path i (c # cs) =
     field_texts (path @ ''.children['' @ strconvI i @ '']'') c @ child_texts path (i + 1) cs"

primrec clean_node :: "NER \<Rightarrow> RawNode \<Rightarrow> SanitizedNode" where
  "clean_node ner (RawNode i b c p rh t th ts d dh ds k e f s h cs) =
     SanitizedNode i b c p rh (fst (text_view ner t)) (snd (text_view ner t))
       (fst (text_view ner d)) (snd (text_view ner d)) k e f s h (map (clean_node ner) cs)"

definition texts_ok :: "NER \<Rightarrow> (string \<times> string) list \<Rightarrow> bool" where
  "texts_ok ner fts \<longleftrightarrow> (\<forall>(f, t) \<in> set fts. \<not> ner_fails ner t)"

lemma texts_ok_simps [simp]:
  "texts_ok ner []" "texts_ok ner ((f, t) # fts) \<longleftrightarrow> \<not> ner_fails ner t \<and> texts_ok ner fts"
  "texts_ok ner (xs @ ys) \<longleftrightarrow> texts_ok ner xs \<and> texts_ok ner ys"
  by (auto simp: texts_ok_def)

lemma tr_ner_foldl_add_text [simp]: "tr_ner (foldl add_text r fts) = tr_ner r"
  by (induction fts arbitrary: r) simp_all

text \<open>A tree whose texts the recogniser can handle is sanitized node by node.\<close>

lemma node_ok:
  "texts_ok (tr_ner r) (field_texts path n) \<Longrightarrow>
     node r n path = (Inr (clean_node (tr_ner r) n), foldl add_text r (field_texts path n))"
  "texts_ok (tr_ner r) (child_texts path i ns) \<Longrightarrow>
     child_nodes r ns i path = (Inr (map (clean_node (tr_ner r)) ns), foldl add_text r (child_texts path i ns))"
  by (induction path n and path i ns arbitrary: r and r rule: field_texts_child_texts.induct)
    (simp_all add: sanitizeText_ok text_view_def)

lemma node_fails:
  "\<not> texts_ok (tr_ner r) (field_texts path n) \<Longrightarrow> \<exists>err r'. node r n path = (Inl err, r')"
  "\<not> texts_ok (tr_ner r) (child_texts path i ns) \<Longrightarrow> \<exists>err r'. child_nodes r ns i path = (Inl err, r')"
proof (induction path n and path i ns arbitrary: r and r rule: field_texts_child_texts.induct)
  case (1 path i b c p rh t th ts d dh ds k e f s h cs)
  show ?case
  proof (cases "ner_fails (tr_ner r) t")
    case True
    from sanitizeText_fails [OF True, of "path @ ''.pre_storage_text''"] show ?thesis by auto
  next
    case t: False
    let ?r1 = "add_text r (path @ ''.pre_storage_text'', t)"
    show ?thesis
    proof (cases "ner_fails (tr_ner r) d")
      case True
      then have "ner_fails (tr_ner ?r1) d" by simp
      from sanitizeText_fails [OF this, of "path @ ''.pre_storage_content_description''"] t
      show ?thesis by (auto simp: sanitizeText_ok)
    next
      case d: False
      let ?r2 = "add_text ?r1 (path @ ''.pre_storage_content_description'', d)"
      from 1 t d have "\<not> texts_ok (tr_ner ?r2) (child_texts path 0 cs)" by simp
      from "1.IH" [OF this] t d show ?thesis by (auto simp: sanitizeText_ok)
    qed
  qed
next
  case (2 path i)
  then show ?case by simp
next
  case (3 path i c cs)
  let ?path = "path @ ''.children['' @ strconvI i @ '']''"
  show ?case
  proof (cases "texts_ok (tr_ner r) (field_texts ?path c)")
    case False
    from "3.IH"(1) [OF False] show ?thesis by auto
  next
    case True
    with "3.prems" have "\<not> texts_ok (tr_ner (foldl add_text r (field_texts ?path c))) (child_texts path (i + 1) cs)"
      by simp
    from "3.IH"(2) [OF this] True show ?thesis by (auto simp: node_ok)
  qed
qed

lemma foldl_add_text:
  "tr_fieldsDropped (foldl add_text r fts) = tr_fieldsDropped r @ concat (map (text_dropped (tr_ner r)) fts)"
  "tr_reasonCodes (foldl add_text r fts) = tr_reasonCodes r @ concat (map (text_reasons (tr_ner r) \<circ> snd) fts)"
  "tr_ruleSet (foldl add_text r fts) = tr_ruleSet r \<union> (\<Union>ft \<in> set fts. text_rules (tr_ner r) (snd ft))"
  by (induction fts arbitrary: r) (auto simp: add_text_def)

section \<open>Helpers\<close>

lemma unique_loop_spec:
  assumes "seen = set out" and "distinct out"
  shows "distinct (unique_loop vals seen out) \<and>
    set (unique_loop vals seen out) = set out \<union> (TrimSpace ` set vals - {[]})"
  using assms
proof (induction vals seen out rule: unique_loop.induct)
  case (1 seen out)
  then show ?case by simp
next
  case (2 v rest seen out)
  show ?case
  proof (cases "TrimSpace v = [] \<or> TrimSpace v \<in> seen")
    case True
    with 2 show ?thesis by (auto simp: Let_def)
  next
    case False
    with 2 have "distinct (unique_loop rest (insert (TrimSpace v) seen) (out @ [TrimSpace v])) \<and>
        set (unique_loop rest (insert (TrimSpace v) seen) (out @ [TrimSpace v])) =
          set (out @ [TrimSpace v]) \<union> (TrimSpace ` set rest - {[]})"
      by (simp add: Let_def)
    with False show ?thesis by (auto simp: Let_def)
  qed
qed

lemma unique_eq: "unique vals = sorted_list_of_set (TrimSpace ` set vals - {[]})"
proof -
  have "distinct (unique_loop vals {} [])" "set (unique_loop vals {} []) = TrimSpace ` set vals - {[]}"
    using unique_loop_spec [of "{}" "[]" vals] by simp_all
  then show ?thesis
    unfolding unique_def by (metis sorted_list_of_set_sort_remdups distinct_remdups_id)
qed

lemma set_unique: "set (unique vals) = TrimSpace ` set vals - {[]}"
  by (simp add: unique_eq)

lemma distinct_unique [simp]: "distinct (unique vals)"
  by (simp add: unique_eq)

lemma strconv_loop_eq: "0 < i \<Longrightarrow> strconv_loop i buf = format_dec (nat i) @ buf"
proof (induction i buf rule: strconv_loop.induct)
  case (1 i buf)
  have digit: "''0123456789'' ! d = digit_char d" if "d < 10" for d
  proof -
    from that have "d \<in> {0, 1, 2, 3, 4, 5, 6, 7, 8, 9}" by auto
    then show ?thesis by (auto simp: digit_char_simps)
  qed
  have d: "''0123456789'' ! nat (i mod 10) = digit_char (nat i mod 10)"
    using digit [of "nat i mod 10"] "1.prems" by (simp add: nat_mod_distrib)
  show ?case
  proof (cases "0 < i div 10")
    case True
    then have "10 \<le> nat i" by linarith
    moreover have "nat (i div 10) = nat i div 10" using "1.prems" by (simp add: nat_div_distrib)
    ultimately show ?thesis
      using "1.IH" [OF "1.prems" True] "1.prems" d
      by (subst strconv_loop.simps) (simp add: format_dec.simps [of "nat i"])
  next
    case False
    then have small: "nat i < 10" "i div 10 = 0" using "1.prems" by linarith+
    have "strconv_loop 0 xs = xs" for xs by (subst strconv_loop.simps) simp
    with small "1.prems" d show ?thesis
      by (subst strconv_loop.simps) (simp add: format_dec.simps [of "nat i"])
  qed
qed

lemma strconvI_eq: "0 \<le> i \<Longrightarrow> strconvI i = format_dec (nat i)"
  by (cases "i = 0") (simp_all add: strconvI_def strconv_loop_eq format_dec.simps [of 0] digit_char_simps)

section \<open>Decisions\<close>

definition pipeline_ner :: "Pipeline \<Rightarrow> NER" where
  "pipeline_ner p = (case pl_NER p of None \<Rightarrow> ConservativeNER | Some ner \<Rightarrow> ner)"

definition pipeline_vision :: "Pipeline \<Rightarrow> VisionRedactor" where
  "pipeline_vision p = (case pl_Vision p of None \<Rightarrow> NoopVisionRedactor | Some vision \<Rightarrow> vision)"

definition frame_package :: "RawFrame \<Rightarrow> string" where
  "frame_package frame = TrimSpace (fa_PackageName (rf_ForegroundApp frame))"

definition admitted :: "Pipeline \<Rightarrow> RawFrame \<Rightarrow> bool" where
  "admitted p frame \<longleftrightarrow> frame_package frame \<noteq> [] \<and>
     pl_SensitivePackages p (frame_package frame) = None \<and> frame_package frame \<in> pl_AllowedPackages p"

definition sanitizable :: "Pipeline \<Rightarrow> RawFrame \<Rightarrow> bool" where
  "sanitizable p frame \<longleftrightarrow> texts_ok (pipeline_ner p) (field_texts ''ui_root'' (rf_UIRoot frame)) \<and>
     is_ok (pipeline_vision p (rf_ScreenshotRef frame))"

lemma fill_defaults_simps [simp]:
  "pl_NER (fill_defaults p) = Some (pipeline_ner p)"
  "pl_Vision (fill_defaults p) = Some (pipeline_vision p)"
  "pl_SensitivePackages (fill_defaults p) = pl_SensitivePackages p"
  "pl_AllowedPackages (fill_defaults p) = pl_AllowedPackages p"
  "pl_Now (fill_defaults p) = pl_Now p"
  "pl_Version (fill_defaults p) \<noteq> []"
  by (auto simp: fill_defaults_def pipeline_ner_def pipeline_vision_def DefaultVersion_def Let_def split: option.splits)

lemma fill_defaults_idem [simp]: "fill_defaults (fill_defaults p) = fill_defaults p"
  by (simp add: fill_defaults_def DefaultVersion_def Let_def)

lemma Process_pipeline [simp]: "snd (Process now p frame) = fill_defaults p"
  by (simp add: Process_def Let_def split: option.split prod.split sum.split)

text \<open>The report of a frame whose texts have all been visited.\<close>

definition final_report :: "NER \<Rightarrow> (string \<times> string) list \<Rightarrow> bool \<Rightarrow> RedactionReport" where
  "final_report ner fts raw_fields = \<lparr>
     rr_RulesApplied = unique (sorted_list_of_set (\<Union>ft \<in> set fts. text_rules ner (snd ft)) @ [''structural_attrition'']),
     rr_FieldsDropped = unique (concat (map (text_dropped ner) fts) @ (if raw_fields then [''pre_storage_raw_fields''] else [])),
     rr_ReasonCodes = unique (concat (map (text_reasons ner \<circ> snd) fts) @ [''sanitized''])\<rparr>"

definition process_clock :: "(nat \<Rightarrow> time) \<Rightarrow> Pipeline \<Rightarrow> time" where
  "process_clock time_Now p = (case pl_Now p of None \<Rightarrow> time_Now | Some f \<Rightarrow> f) 0"

text \<open>The result of an admitted frame that can be sanitized.\<close>

definition accepted_result :: "(nat \<Rightarrow> time) \<Rightarrow> Pipeline \<Rightarrow> RawFrame \<Rightarrow> Result" where
  "accepted_result time_Now p frame =
     (let ner = pipeline_ner p;
          report = final_report ner (field_texts ''ui_root'' (rf_UIRoot frame)) (rf_PreStorageRaw frame \<noteq> []);
          boxes = projr (pipeline_vision p (rf_ScreenshotRef frame))
      in \<lparr>res_Frame = sanitized_frame (fill_defaults p) frame (clean_node ner (rf_UIRoot frame))
            (sanitized_screenshot (rf_ScreenshotRef frame) boxes) report (process_clock time_Now p),
          res_Report = report, res_Decision = DecisionAccept, res_ReasonCodes = rr_ReasonCodes report,
          res_SanitizerVersion = pl_Version (fill_defaults p), res_KillSwitchReason = []\<rparr>)"

lemma Process_accept:
  assumes "admitted p frame" and "sanitizable p frame"
  shows "fst (Process now p frame) = (accepted_result now p frame, None)"
proof -
  let ?ner = "pipeline_ner p" and ?r = "newTextRedactor (pipeline_ner p)"
  from assms obtain boxes where boxes: "pipeline_vision p (rf_ScreenshotRef frame) = Inr boxes"
    by (auto simp: sanitizable_def is_ok_iff)
  have ner: "tr_ner ?r = ?ner" by (simp add: newTextRedactor_def)
  from assms have n: "node ?r (rf_UIRoot frame) ''ui_root'' =
      (Inr (clean_node ?ner (rf_UIRoot frame)), foldl add_text ?r (field_texts ''ui_root'' (rf_UIRoot frame)))"
    by (subst node_ok(1)) (simp_all add: ner sanitizable_def)
  have st: "tr_fieldsDropped ?r = []" "tr_reasonCodes ?r = []" "tr_ruleSet ?r = {}"
    by (simp_all add: newTextRedactor_def)
  let ?rep = "redaction_report zero_RedactionReport (foldl add_text ?r (field_texts ''ui_root'' (rf_UIRoot frame))) frame"
  have rep: "final_report ?ner (field_texts ''ui_root'' (rf_UIRoot frame)) (rf_PreStorageRaw frame \<noteq> []) =
      \<lparr>rr_RulesApplied = unique (rr_RulesApplied ?rep), rr_FieldsDropped = unique (rr_FieldsDropped ?rep),
       rr_ReasonCodes = unique (rr_ReasonCodes ?rep @ [''sanitized''])\<rparr>"
    by (simp add: redaction_report_def final_report_def rules_def foldl_add_text st ner zero_RedactionReport_def Let_def)
  from assms(1) show ?thesis
    unfolding Process_def admitted_def frame_package_def accepted_result_def Let_def rep
    by (simp add: n boxes process_clock_def)
qed

lemma Process_sanitizer_error:
  assumes "admitted p frame" and "\<not> sanitizable p frame"
  shows "\<exists>report reason. fst (Process now p frame) = (drop_frame (fill_defaults p) report reason, Some ErrSanitizerFailed)"
proof -
  let ?r = "newTextRedactor (pipeline_ner p)"
  have ner: "tr_ner ?r = pipeline_ner p" by (simp add: newTextRedactor_def)
  show ?thesis
  proof (cases "texts_ok (pipeline_ner p) (field_texts ''ui_root'' (rf_UIRoot frame))")
    case False
    then obtain err r' where "node ?r (rf_UIRoot frame) ''ui_root'' = (Inl err, r')"
      using node_fails(1) [of ?r "''ui_root''" "rf_UIRoot frame"] ner by auto
    with assms(1) show ?thesis
      unfolding Process_def admitted_def frame_package_def Let_def by simp blast
  next
    case True
    with assms(2) obtain err where "pipeline_vision p (rf_ScreenshotRef frame) = Inl err"
      by (auto simp: sanitizable_def is_ok_def split: sum.splits)
    with True assms(1) show ?thesis
      unfolding Process_def admitted_def frame_package_def Let_def by (simp add: node_ok(1) ner) blast
  qed
qed

lemma Process_refused:
  assumes "\<not> admitted p frame"
  shows "fst (Process now p frame) =
    (if frame_package frame = [] then (drop_frame (fill_defaults p) zero_RedactionReport ''missing_foreground_package'', None)
     else case pl_SensitivePackages p (frame_package frame) of
       Some reason \<Rightarrow> (quarantine (fill_defaults p) zero_RedactionReport ''sensitive_package'' reason, None)
     | None \<Rightarrow> (drop_frame (fill_defaults p) zero_RedactionReport ''package_not_allowlisted'', None))"
  using assms by (auto simp: Process_def admitted_def frame_package_def Let_def split: option.splits)

section \<open>Properties\<close>

text \<open>Claim C8: the pipeline accepts a frame exactly when its trimmed foreground package is not
  empty, not marked sensitive and on the allowlist, the entity recogniser handles every text
  that no pattern matches, and the screenshot redactor succeeds. In every other case the
  result carries the empty frame, so nothing of the input can be stored, and the error is
  reported exactly when the package was admitted.\<close>

theorem process_accepts_iff:
  "let (res, err) = fst (Process now p frame)
   in (res_Decision res = DecisionAccept \<longleftrightarrow> admitted p frame \<and> sanitizable p frame) \<and>
      (res_Decision res = DecisionAccept \<or> res_Frame res = zero_SanitizedFrame) \<and>
      (err = Some ErrSanitizerFailed \<longleftrightarrow> admitted p frame \<and> \<not> sanitizable p frame)"
proof (cases "admitted p frame")
  case adm: True
  show ?thesis
  proof (cases "sanitizable p frame")
    case True
    with adm show ?thesis by (simp add: Process_accept accepted_result_def Let_def)
  next
    case False
    from Process_sanitizer_error [OF adm False, of now] False adm show ?thesis
      by (auto simp: drop_frame_def Let_def)
  qed
next
  case False
  then show ?thesis
    by (simp add: Process_refused drop_frame_def quarantine_def Let_def split: option.split)
qed

lemma mark_sensitive_dom:
  "dom (mark_sensitive pkgs m) = dom m \<union> (TrimSpace ` set pkgs - {[]})"
  by (induction pkgs m rule: mark_sensitive.induct) (auto simp: Let_def)

lemma mark_sensitive_ran: "[] \<notin> ran m \<Longrightarrow> [] \<notin> ran (mark_sensitive pkgs m)"
proof (induction pkgs m rule: mark_sensitive.induct)
  case (1 m)
  then show ?case by simp
next
  case (2 pkg rest m)
  then have "[] \<notin> ran (if TrimSpace pkg \<noteq> [] then m(TrimSpace pkg \<mapsto> ''configured_sensitive_package'') else m)"
    by (auto simp: ran_def)
  with 2 show ?case by (simp add: Let_def)
qed

text \<open>Claim C25: the kill switch. A pipeline built by \<open>NewPipeline\<close> quarantines every frame whose
  package is on the built-in or the configured sensitive list, up to surrounding white
  space, even when the allowlist also names it; the result has no frame content and gives a
  reason.\<close>

theorem sensitive_package_quarantined:
  assumes "frame_package frame \<in> dom defaultSensitivePackages \<union> TrimSpace ` set sensitive"
    and "frame_package frame \<noteq> []"
  shows "let res = fst (fst (Process now (NewPipeline allowed sensitive) frame))
    in res_Decision res = DecisionQuarantine \<and> res_Frame res = zero_SanitizedFrame \<and>
       res_ReasonCodes res = [''sensitive_package''] \<and> res_KillSwitchReason res \<noteq> []"
proof -
  let ?p = "NewPipeline allowed sensitive"
  have "frame_package frame \<in> dom (pl_SensitivePackages ?p)"
    using assms by (auto simp: NewPipeline_def mark_sensitive_dom)
  then obtain reason where reason: "pl_SensitivePackages ?p (frame_package frame) = Some reason" by blast
  have "[] \<notin> ran defaultSensitivePackages" by (auto simp: defaultSensitivePackages_def ran_def)
  then have "reason \<noteq> []"
    using mark_sensitive_ran [of defaultSensitivePackages sensitive] reason
    by (auto simp: NewPipeline_def ran_def)
  moreover have "TrimSpace ''sensitive_package'' = ''sensitive_package''"
    by (rule TrimSpace_solid) (simp_all add: solid_def less_eq_char_def)
  then have "unique [''sensitive_package''] = [''sensitive_package'']" by (simp add: unique_eq)
  ultimately show ?thesis
    using reason assms(2)
    by (simp add: Process_refused admitted_def quarantine_def zero_RedactionReport_def Let_def)
qed

theorem sensitive_package_quarantined_witness:
  "let frame = zero_RawFrame\<lparr>rf_ForegroundApp := \<lparr>fa_PackageName = '' com.whatsapp '', fa_ActivityName = []\<rparr>\<rparr>
   in res_Decision (fst (fst (Process (\<lambda>_. 0) (NewPipeline [''com.whatsapp''] []) frame))) = DecisionQuarantine"
proof -
  let ?frame = "zero_RawFrame\<lparr>rf_ForegroundApp := \<lparr>fa_PackageName = '' com.whatsapp '', fa_ActivityName = []\<rparr>\<rparr>"
  have "TrimSpace '' com.whatsapp '' = ''com.whatsapp''" by code_simp
  then have pkg: "frame_package ?frame = ''com.whatsapp''" by (simp add: frame_package_def)
  then have "frame_package ?frame \<in> dom defaultSensitivePackages \<union> TrimSpace ` set []"
    by (simp add: defaultSensitivePackages_def)
  moreover from pkg have "frame_package ?frame \<noteq> []" by simp
  ultimately show ?thesis
    using sensitive_package_quarantined [of ?frame "[]" "\<lambda>_. 0" "[''com.whatsapp'']"] by (simp add: Let_def)
qed

text \<open>
  What may be stored of a text: nothing if there is none or if it is redacted, and a hash
  only if no pattern matches it and the recogniser finds no entity in it.
\<close>

definition text_clean :: "NER \<Rightarrow> string \<Rightarrow> string \<Rightarrow> RedactionStatus \<Rightarrow> bool" where
  "text_clean ner raw h st \<longleftrightarrow>
     raw = [] \<and> h = [] \<and> st = RedactionNotPresent \<or>
     raw \<noteq> [] \<and> h = [] \<and> st = RedactionRedacted \<and> (text_matches raw \<noteq> [] \<or> has_entities ner raw) \<or>
     raw \<noteq> [] \<and> h = sha256_hex raw \<and> st = RedactionHashed \<and> text_matches raw = [] \<and> ner raw = Inr []"

definition node_clean :: "NER \<Rightarrow> RawNode \<Rightarrow> SanitizedNode \<Rightarrow> bool" where
  "node_clean ner n m \<longleftrightarrow>
     sn_StableNodeID m = rn_StableNodeID n \<and> sn_Bounds m = rn_Bounds n \<and>
     sn_ClassName m = rn_ClassName n \<and> sn_PackageName m = rn_PackageName n \<and>
     sn_ResourceIDHash m = rn_ResourceIDHash n \<and>
     sn_Clickable m = rn_Clickable n \<and> sn_Enabled m = rn_Enabled n \<and> sn_Focused m = rn_Focused n \<and>
     sn_Selected m = rn_Selected n \<and> sn_Checkable m = rn_Checkable n \<and>
     length (sn_Children m) = length (rn_Children n) \<and>
     text_clean ner (rn_RawText n) (sn_TextHash m) (sn_TextRedactionStatus m) \<and>
     text_clean ner (rn_RawContentDescription n) (sn_ContentDescriptionHash m) (sn_ContentDescriptionRedactionStatus m)"

lemma text_view_clean:
  "\<not> ner_fails ner raw \<Longrightarrow> text_clean ner raw (fst (text_view ner raw)) (snd (text_view ner raw))"
  by (auto simp: text_clean_def text_view_def text_redacted_def ner_fails_def has_entities_def is_ok_iff)

lemma clean_node_clean:
  "texts_ok ner (field_texts path n) \<Longrightarrow>
     list_all2 (node_clean ner) (raw_nodes n) (sanitized_nodes (clean_node ner n))"
  "texts_ok ner (child_texts path i ns) \<Longrightarrow>
     list_all2 (node_clean ner) (concat (map raw_nodes ns)) (concat (map sanitized_nodes (map (clean_node ner) ns)))"
proof (induction path n and path i ns rule: field_texts_child_texts.induct)
  case (1 path i b c p rh t th ts d dh ds k e f s h cs)
  then show ?case by (simp add: node_clean_def text_view_clean)
next
  case (2 path i)
  then show ?case by simp
next
  case (3 path i c cs)
  then show ?case by (simp add: list_all2_appendI)
qed

lemma accepted_result_simps [simp]:
  "sf_UIRoot (res_Frame (accepted_result now p frame)) = clean_node (pipeline_ner p) (rf_UIRoot frame)"
  "res_Report (accepted_result now p frame) =
     final_report (pipeline_ner p) (field_texts ''ui_root'' (rf_UIRoot frame)) (rf_PreStorageRaw frame \<noteq> [])"
  "res_Decision (accepted_result now p frame) = DecisionAccept"
  by (simp_all add: accepted_result_def sanitized_frame_def Let_def)

lemma Process_accepted:
  assumes "res_Decision (fst (fst (Process now p frame))) = DecisionAccept"
  shows "admitted p frame" "sanitizable p frame" "fst (Process now p frame) = (accepted_result now p frame, None)"
proof -
  show adm: "admitted p frame"
  proof (rule ccontr)
    assume "\<not> admitted p frame"
    with assms show False
      by (simp add: Process_refused drop_frame_def quarantine_def Let_def split: option.splits if_splits)
  qed
  show san: "sanitizable p frame"
  proof (rule ccontr)
    assume "\<not> sanitizable p frame"
    from Process_sanitizer_error [OF adm this, of now] assms show False
      by (auto simp: drop_frame_def Let_def)
  qed
  from adm san show "fst (Process now p frame) = (accepted_result now p frame, None)"
    by (rule Process_accept)
qed

text \<open>Claim C5: in an accepted frame the stored tree corresponds to the raw tree node by node, in
  the same order and shape, with all non-text attributes unchanged. Of each text and content
  description it keeps only the status and, when no pattern matches and the recogniser finds
  nothing, the SHA-256 hash; of sensitive text it keeps nothing.\<close>

theorem stored_text_is_hash_or_nothing:
  assumes "res_Decision (fst (fst (Process now p frame))) = DecisionAccept"
  shows "list_all2 (node_clean (pipeline_ner p)) (raw_nodes (rf_UIRoot frame))
    (sanitized_nodes (sf_UIRoot (res_Frame (fst (fst (Process now p frame))))))"
  using Process_accepted [OF assms]
  by (simp add: clean_node_clean(1) [where path = "''ui_root''"] sanitizable_def)

text \<open>A frame with a sensitive and an ordinary text, from an allowed package.\<close>

definition sample_node :: "string \<Rightarrow> RawNode list \<Rightarrow> RawNode" where
  "sample_node t cs = RawNode ''node-1'' zero_Bounds ''android.widget.TextView'' ''com.android.settings''
     [] t [] [] [] [] [] True True False False False cs"

definition sample_frame :: RawFrame where
  "sample_frame = zero_RawFrame\<lparr>
     rf_ForegroundApp := \<lparr>fa_PackageName = ''com.android.settings'', fa_ActivityName = ''Settings''\<rparr>,
     rf_UIRoot := sample_node ''SSN 123-45-6789'' [sample_node ''Settings'' []],
     rf_PreStorageRaw := [(''note'', ''raw'')]\<rparr>"

definition sample_pipeline :: Pipeline where
  "sample_pipeline = NewPipeline [''com.android.settings''] []"

lemma ConservativeNER_ok [simp]: "\<not> ner_fails ConservativeNER t" "texts_ok ConservativeNER fts"
  by (auto simp: ner_fails_def texts_ok_def ConservativeNER_def)

lemma NewPipeline_simps [simp]:
  "pipeline_ner (NewPipeline a b) = ConservativeNER" "pipeline_vision (NewPipeline a b) = NoopVisionRedactor"
  "sanitizable (NewPipeline a b) frame"
  by (simp_all add: NewPipeline_def pipeline_ner_def pipeline_vision_def sanitizable_def NoopVisionRedactor_def)

lemma sample_admitted: "admitted sample_pipeline sample_frame"
proof -
  have pkg: "TrimSpace ''com.android.settings'' = ''com.android.settings''"
    by (rule TrimSpace_solid) (simp_all add: solid_def less_eq_char_def)
  then show ?thesis
    by (simp add: admitted_def frame_package_def sample_frame_def sample_pipeline_def NewPipeline_def
        defaultSensitivePackages_def zero_RawFrame_def)
qed

lemma sample_accepted: "fst (Process now sample_pipeline sample_frame) = (accepted_result now sample_pipeline sample_frame, None)"
  by (rule Process_accept [OF sample_admitted]) (simp add: sample_pipeline_def)

theorem stored_text_is_hash_or_nothing_witness:
  "res_Decision (fst (fst (Process (\<lambda>_. 0) sample_pipeline sample_frame))) = DecisionAccept \<and>
   list_all2 (node_clean (pipeline_ner sample_pipeline)) (raw_nodes (rf_UIRoot sample_frame))
     (sanitized_nodes (sf_UIRoot (res_Frame (fst (fst (Process (\<lambda>_. 0) sample_pipeline sample_frame))))))"
proof -
  have h: "res_Decision (fst (fst (Process (\<lambda>_. 0) sample_pipeline sample_frame))) = DecisionAccept"
    by (simp add: sample_accepted)
  from stored_text_is_hash_or_nothing [OF h] h show ?thesis by blast
qed

section \<open>Noninterference\<close>

text \<open>
  Rewriting the raw texts of a tree with \<open>f\<close>, and the hashes and statuses the device claims
  with \<open>g\<close>. The rewriting is harmless when it maps each text to itself or replaces a
  sensitive text by one that the same patterns match.
\<close>

primrec rewrite_texts :: "(string \<Rightarrow> string) \<Rightarrow> (string \<Rightarrow> string) \<Rightarrow> RawNode \<Rightarrow> RawNode" where
  "rewrite_texts f g (RawNode i b c p rh t th ts d dh ds k e fo s h cs) =
     RawNode i b c p rh (f t) (g th) (g ts) (f d) (g dh) (g ds) k e fo s h (map (rewrite_texts f g) cs)"

definition same_kind :: "(string \<Rightarrow> string) \<Rightarrow> bool" where
  "same_kind f \<longleftrightarrow>
     (\<forall>t. f t = t \<or> t \<noteq> [] \<and> f t \<noteq> [] \<and> text_matches t \<noteq> [] \<and> text_matches (f t) = text_matches t)"

lemma sanitizeText_same_kind:
  assumes "same_kind f"
  shows "sanitizeText r (f t) field = sanitizeText r t field"
proof (cases "f t = t")
  case True
  then show ?thesis by (simp only:)
next
  case False
  with assms have "t \<noteq> []" "f t \<noteq> []" "text_matches t \<noteq> []" "text_matches (f t) = text_matches t"
    unfolding same_kind_def by blast+
  then show ?thesis
    by (simp add: sanitizeText_ok ner_fails_def text_view_def text_redacted_def add_text_def text_rules_def
        text_dropped_def text_reasons_def)
qed

lemma node_same_kind:
  assumes "same_kind f"
  shows "node r (rewrite_texts f g n) path = node r n path"
    and "child_nodes r (map (rewrite_texts f g) ns) i path = child_nodes r ns i path"
  by (induction r n path and r ns i path rule: node_child_nodes.induct)
    (simp_all add: sanitizeText_same_kind [OF assms] split: prod.split sum.split)

text \<open>Claim C24: redacted text leaves no trace. Replacing sensitive texts anywhere in the tree by
  other texts that the same patterns match, replacing the hashes and statuses the device
  claims by anything, and replacing the raw pre-storage fields by any others (present ones by
  present ones: the report says whether there were any), does not change the result of the
  pipeline in any way: not the stored frame, nor the report, nor the decision or the error.\<close>

theorem redacted_text_leaves_no_trace:
  assumes "same_kind f" and "pre = [] \<longleftrightarrow> rf_PreStorageRaw frame = []"
  shows "Process now p (frame\<lparr>rf_UIRoot := rewrite_texts f g (rf_UIRoot frame), rf_PreStorageRaw := pre\<rparr>) =
    Process now p frame"
proof -
  let ?frame = "frame\<lparr>rf_UIRoot := rewrite_texts f g (rf_UIRoot frame), rf_PreStorageRaw := pre\<rparr>"
  have rep: "redaction_report rep r ?frame = redaction_report rep r frame" for rep r
    using assms(2) by (simp add: redaction_report_def Let_def)
  have fr: "sanitized_frame q ?frame root shot rep t = sanitized_frame q frame root shot rep t" for q root shot rep t
    by (simp add: sanitized_frame_def)
  have sel: "rf_ForegroundApp ?frame = rf_ForegroundApp frame" "rf_ScreenshotRef ?frame = rf_ScreenshotRef frame"
    "rf_UIRoot ?frame = rewrite_texts f g (rf_UIRoot frame)"
    by simp_all
  show ?thesis
    unfolding Process_def rep fr sel node_same_kind(1) [OF assms(1)] ..
qed

theorem redacted_text_leaves_no_trace_witness:
  "let f = (\<lambda>t. if t = ''SSN 123-45-6789'' then ''SSN 987-65-4321'' else t)
   in same_kind f \<and>
      Process (\<lambda>_. 0) sample_pipeline (sample_frame\<lparr>
          rf_UIRoot := rewrite_texts f (\<lambda>_. ''x'') (rf_UIRoot sample_frame), rf_PreStorageRaw := [(''k'', ''v'')]\<rparr>) =
      Process (\<lambda>_. 0) sample_pipeline sample_frame"
proof -
  let ?f = "\<lambda>t. if t = ''SSN 123-45-6789'' then ''SSN 987-65-4321'' else t"
  have m: "text_matches ''SSN 123-45-6789'' = [''regex_ssn'']" "text_matches ''SSN 987-65-4321'' = [''regex_ssn'']"
    by code_simp+
  have 1: "same_kind ?f" unfolding same_kind_def by (simp add: m)
  have 2: "[(''k'', ''v'')] = [] \<longleftrightarrow> rf_PreStorageRaw sample_frame = []" by (simp add: sample_frame_def)
  from redacted_text_leaves_no_trace [OF 1 2] 1 show ?thesis unfolding Let_def by blast
qed

section \<open>The report\<close>

lemma field_texts_path:
  "(field, t) \<in> set (field_texts path n) \<Longrightarrow> path \<noteq> [] \<Longrightarrow> field \<noteq> [] \<and> hd field = hd path \<and> solid (last field)"
  "(field, t) \<in> set (child_texts path i ns) \<Longrightarrow> path \<noteq> [] \<Longrightarrow> field \<noteq> [] \<and> hd field = hd path \<and> solid (last field)"
  by (induction path n and path i ns rule: field_texts_child_texts.induct)
    (auto simp: solid_def less_eq_char_def)

text \<open>Claim C26: the report of an accepted frame names exactly the fields that were redacted, each
  by its path in the tree, and the raw pre-storage fields if there were any. In particular
  every redacted text is reported, although the redactor records some of them twice.\<close>

theorem dropped_fields_reported:
  assumes "res_Decision (fst (fst (Process now p frame))) = DecisionAccept"
  shows "distinct (rr_FieldsDropped (res_Report (fst (fst (Process now p frame))))) \<and>
    set (rr_FieldsDropped (res_Report (fst (fst (Process now p frame))))) =
      {field. \<exists>t. (field, t) \<in> set (field_texts ''ui_root'' (rf_UIRoot frame)) \<and> text_redacted (pipeline_ner p) t} \<union>
      (if rf_PreStorageRaw frame = [] then {} else {''pre_storage_raw_fields''})"
proof -
  let ?fts = "field_texts ''ui_root'' (rf_UIRoot frame)" and ?ner = "pipeline_ner p"
  have trim: "TrimSpace field = field \<and> field \<noteq> []" if "(field, t) \<in> set ?fts" for field t
    using field_texts_path(1) [OF that] by (auto intro!: TrimSpace_solid simp: solid_def less_eq_char_def)
  have dr: "set (text_dropped ?ner (field, t)) = (if text_redacted ?ner t then {field} else {})" for field t
    by (simp add: text_dropped_def text_redacted_def)
  let ?names = "{field. \<exists>t. (field, t) \<in> set ?fts \<and> text_redacted ?ner t}"
  have names: "set (concat (map (text_dropped ?ner) ?fts)) = ?names"
    by (auto simp: dr split: if_splits)
  have "TrimSpace ` ?names - {[]} = ?names" using trim by force
  moreover have "TrimSpace ''pre_storage_raw_fields'' = ''pre_storage_raw_fields''"
    by (rule TrimSpace_solid) (simp_all add: solid_def less_eq_char_def)
  ultimately show ?thesis
    using Process_accepted(3) [OF assms] names
    by (simp add: final_report_def set_unique image_Un Un_Diff)
qed

theorem dropped_fields_reported_witness:
  "res_Decision (fst (fst (Process (\<lambda>_. 0) sample_pipeline sample_frame))) = DecisionAccept \<and>
   ''pre_storage_raw_fields'' \<in> set (rr_FieldsDropped (res_Report (fst (fst (Process (\<lambda>_. 0) sample_pipeline sample_frame)))))"
proof -
  have h: "res_Decision (fst (fst (Process (\<lambda>_. 0) sample_pipeline sample_frame))) = DecisionAccept"
    by (simp add: sample_accepted)
  have "rf_PreStorageRaw sample_frame \<noteq> []" by (simp add: sample_frame_def)
  with dropped_fields_reported [OF h] h show ?thesis by simp
qed

section \<open>Detection, lists and numbers\<close>

text \<open>Where a run of digits may start and end: not next to a letter, a digit or an underscore.\<close>

definition word_ends_before :: "rune list \<Rightarrow> bool" where
  "word_ends_before pre \<longleftrightarrow> pre = [] \<or> \<not> is_word (last pre)"

definition word_starts_after :: "rune list \<Rightarrow> bool" where
  "word_starts_after post \<longleftrightarrow> post = [] \<or> \<not> is_word (hd post)"

definition digits_run :: "nat \<Rightarrow> rune list \<Rightarrow> bool" where
  "digits_run n ds \<longleftrightarrow> length ds = n \<and> list_all (\<lambda>c. 48 \<le> c \<and> c \<le> 57) ds"

lemma in_class_digit: "in_class c_digit = (\<lambda>c. 48 \<le> c \<and> c \<le> 57)"
  by (simp add: in_class_def c_digit_def fun_eq_iff)

lemma digits_runD: "digits_run (Suc n) ds \<Longrightarrow> ds \<noteq> [] \<and> is_word (hd ds) \<and> is_word (last ds)"
  by (cases ds) (auto simp: digits_run_def list_all_iff in_class_digit [symmetric] is_word_digit)

lemma match_digits:
  "re_match (rep n (Cls c_digit)) (p, xs) st \<longleftrightarrow>
     (\<exists>ds zs. xs = ds @ zs \<and> digits_run n ds \<and> st = (place_after p ds, zs))"
  by (simp add: match_rep_Cls in_class_digit digits_run_def)

lemma match_dash: "re_match (ch (CHR ''-'')) (p, xs) st \<longleftrightarrow> (\<exists>cs. xs = 45 # cs \<and> st = (Some 45, cs))"
  by (auto simp: ch_def c_chars_def match_Cls_iff in_class_def)

text \<open>Claim C40: the social security pattern detects exactly the texts that contain, between places
  that are not inside a word, three digits, a dash, two digits, a dash and four digits.\<close>

theorem ssn_detected_iff:
  "MatchString ssnPattern s \<longleftrightarrow>
     (\<exists>pre a b c post. runes s = pre @ a @ [45] @ b @ [45] @ c @ post \<and>
        digits_run 3 a \<and> digits_run 2 b \<and> digits_run 4 c \<and>
        word_ends_before pre \<and> word_starts_after post)"
proof -
  have "(\<exists>st. re_match ssnPattern (place_after None pre, suf) st) \<longleftrightarrow>
      (\<exists>a b c post. suf = a @ [45] @ b @ [45] @ c @ post \<and> digits_run 3 a \<and> digits_run 2 b \<and> digits_run 4 c \<and>
         word_ends_before pre \<and> word_starts_after post)" for pre suf
  proof -
    have "(\<exists>st. re_match ssnPattern (place_after None pre, suf) st) \<longleftrightarrow>
      (\<exists>a b c post. suf = a @ [45] @ b @ [45] @ c @ post \<and> digits_run 3 a \<and> digits_run 2 b \<and> digits_run 4 c \<and>
         boundary (place_after None pre, suf) \<and> boundary (place_after None (pre @ a @ [45] @ b @ [45] @ c), post))"
      by (simp add: ssnPattern_def match_Seq_iff match_digits match_dash match_WordB_iff) blast
    also have "\<dots> \<longleftrightarrow> (\<exists>a b c post. suf = a @ [45] @ b @ [45] @ c @ post \<and> digits_run 3 a \<and> digits_run 2 b \<and> digits_run 4 c \<and>
         word_ends_before pre \<and> word_starts_after post)"
    proof -
      have "boundary (place_after None pre, a @ [45] @ b @ [45] @ c @ post) \<longleftrightarrow> word_ends_before pre"
        if "digits_run 3 a" for a b c post
        using digits_runD [of 2 a] that boundary_before_word [of "hd a" pre "tl a @ [45] @ b @ [45] @ c @ post"]
        by (cases a) (auto simp: word_ends_before_def numeral_3_eq_3)
      moreover have "boundary (place_after None (pre @ a @ [45] @ b @ [45] @ c), post) \<longleftrightarrow> word_starts_after post"
        if "digits_run 4 c" for a b c post
        using digits_runD [of 3 c] that
        by (subst boundary_after_word) (auto simp: word_starts_after_def)
      ultimately show ?thesis by blast
    qed
    finally show ?thesis .
  qed
  then show ?thesis unfolding MatchString_iff by metis
qed

text \<open>The pattern for long numeric identifiers detects exactly the texts that contain a
  run of at least nine digits that is not part of a longer word.\<close>

lemma long_number_detected_iff:
  "MatchString longNumericPattern s \<longleftrightarrow>
     (\<exists>pre ds post. runes s = pre @ ds @ post \<and> 9 \<le> length ds \<and> digits_run (length ds) ds \<and>
        word_ends_before pre \<and> word_starts_after post)"
proof -
  have "(\<exists>st. re_match longNumericPattern (place_after None pre, suf) st) \<longleftrightarrow>
      (\<exists>ds post. suf = ds @ post \<and> 9 \<le> length ds \<and> digits_run (length ds) ds \<and>
         word_ends_before pre \<and> word_starts_after post)" for pre suf
  proof -
    have "(\<exists>st. re_match longNumericPattern (place_after None pre, suf) st) \<longleftrightarrow>
        (\<exists>ds post. suf = ds @ post \<and> 9 \<le> length ds \<and> digits_run (length ds) ds \<and>
           boundary (place_after None pre, ds @ post) \<and> boundary (place_after (place_after None pre) ds, post))"
      by (auto simp: longNumericPattern_def match_Seq_iff match_at_least_Cls match_WordB_iff in_class_digit digits_run_def)
    also have "\<dots> \<longleftrightarrow> (\<exists>ds post. suf = ds @ post \<and> 9 \<le> length ds \<and> digits_run (length ds) ds \<and>
         word_ends_before pre \<and> word_starts_after post)"
    proof -
      have "(boundary (place_after None pre, ds @ post) \<longleftrightarrow> word_ends_before pre) \<and>
          (boundary (place_after (place_after None pre) ds, post) \<longleftrightarrow> word_starts_after post)"
        if "9 \<le> length ds" "digits_run (length ds) ds" for ds post
        using digits_runD [of "length ds - 1" ds] that boundary_before_word [of "hd ds" pre "tl ds @ post"]
          boundary_after_word [of ds "place_after None pre" post]
        by (cases ds) (auto simp: word_ends_before_def word_starts_after_def)
      then show ?thesis by blast
    qed
    finally show ?thesis .
  qed
  then show ?thesis unfolding MatchString_iff by metis
qed

text \<open>The examples of the test suite are detected by the patterns meant for them, and
  an ordinary label is detected by none.\<close>

lemma pii_examples_detected:
  "MatchString emailPattern ''alice@example.test'' \<and>
   MatchString phonePattern ''Call 415-555-1212'' \<and>
   MatchString addressPattern ''Ship to 123 Main St'' \<and>
   MatchString ssnPattern ''SSN 123-45-6789'' \<and>
   MatchString cardPattern ''Card 4111 1111 1111 1111'' \<and>
   MatchString tokenPattern ''Bearer token: sk_test_123456789'' \<and>
   MatchString longNumericPattern ''Case 123456789012345'' \<and>
   text_matches ''Settings'' = []"
proof (intro conjI)
  show "MatchString emailPattern ''alice@example.test''" by code_simp
  show "MatchString phonePattern ''Call 415-555-1212''" by code_simp
  show "MatchString addressPattern ''Ship to 123 Main St''" by code_simp
  show "MatchString ssnPattern ''SSN 123-45-6789''" by code_simp
  show "MatchString cardPattern ''Card 4111 1111 1111 1111''" by code_simp
  show "MatchString tokenPattern ''Bearer token: sk_test_123456789''" by code_simp
  show "MatchString longNumericPattern ''Case 123456789012345''" by code_simp
  show "text_matches ''Settings'' = []" by code_simp
qed

text \<open>\<open>unique\<close> returns the trimmed, non-empty values in bytewise order, each once.\<close>

lemma unique_sorted_set: "unique vals = sorted_list_of_set (TrimSpace ` set vals - {[]})"
  by (rule unique_eq)

text \<open>On the indexes it is called with, \<open>strconvI\<close> gives the decimal representation, and
  the 20 bytes of its buffer are enough for every non-negative 64-bit integer.\<close>

lemma strconvI_decimal:
  assumes "0 \<le> i" and "i < 2 ^ 63"
  shows "strconvI i = format_dec (nat i) \<and> dec_val (strconvI i) = nat i \<and> length (strconvI i) \<le> 20"
proof -
  have "nat i < 10 ^ 20" using assms(2) by simp
  then have "length (format_dec (nat i)) \<le> 20" by (rule length_format_dec_le) simp
  with assms(1) show ?thesis by (simp add: strconvI_eq)
qed

end
