(* ===== verification/Ingest.thy ===== *)
theory Ingest
  imports Auth Sanitize Storage
begin

text \<open>
  \<open>internal/ingest\<close>: the service that verifies, decodes, binds, sanitizes and stores a frame
  (\<open>service.go\<close>), its conversions (\<open>convert.go\<close>) and the gRPC adapter (\<open>grpc_server.go\<close>,
  \<open>grpc.go\<close>). The service holds its sanitizer and its sink behind interfaces, so both are
  fields with their own state here; the states, the log and the guard's state travel in
  \<open>ingest_state\<close>. \<open>json.Unmarshal\<close> into a raw frame is an argument.

  The contracts of the two interfaces are the locales \<open>frame_sanitizer\<close> and \<open>frame_sink\<close>;
  \<open>ingest_service\<close> joins them with the replay guard's contract and proves what a run of
  requests guarantees. The pipeline and the JSON-lines sink are shown to satisfy them.
\<close>

section \<open>Status codes, responses, contexts\<close>

datatype code =
    InvalidArgument
  | FailedPrecondition
  | Unauthenticated
  | AlreadyExists
  | ResourceExhausted
  | Internal

record Response =
  rp_RequestID :: string
  rp_Decision :: Decision
  rp_ReasonCodes :: "string list"
  rp_SanitizerVersion :: string

definition zero_Response :: Response where
  "zero_Response = \<lparr>rp_RequestID = [], rp_Decision = [], rp_ReasonCodes = [], rp_SanitizerVersion = []\<rparr>"

text \<open>What a call returns: a status error, a response, or a panic that escapes it.\<close>

datatype 'r outcome = Panicked string | Failed code string | Replied 'r

text \<open>The peer of a call: absent, without TLS, or with the raw bytes of its certificates.\<close>

datatype auth_info = TLSInfo "bytes list" | OtherAuthInfo

type_synonym rpc_peer = "auth_info option"

definition peerCertificateFingerprint :: "rpc_peer \<Rightarrow> string" where
  "peerCertificateFingerprint p =
     (case p of
        Some (TLSInfo (raw # _)) \<Rightarrow> EncodeToString (sha256_Sum256 raw)
      | _ \<Rightarrow> [])"

section \<open>Reasons and logs\<close>

definition safeReason :: "error \<Rightarrow> string" where
  "safeReason err =
     (case err of
        ErrMissingSignature \<Rightarrow> ''missing_signature''
      | ErrInvalidSignature \<Rightarrow> ''invalid_signature''
      | ErrExpiredPayload \<Rightarrow> ''expired_payload''
      | ErrFuturePayload \<Rightarrow> ''future_payload''
      | ErrOversizedPayload \<Rightarrow> ''oversized_payload''
      | ErrUnauthorized \<Rightarrow> ''unauthorized_device''
      | ErrReplay \<Rightarrow> ''replayed_frame''
      | ErrReplayStateFull \<Rightarrow> ''replay_state_full''
      | ErrCertMismatch \<Rightarrow> ''client_cert_mismatch''
      | ErrMalformed _ \<Rightarrow> ''malformed_envelope''
      | _ \<Rightarrow> ''request_rejected'')"

definition mapAuthError :: "error \<Rightarrow> code \<times> string" where
  "mapAuthError err =
     (if err \<in> {ErrMissingSignature, ErrInvalidSignature, ErrUnauthorized, ErrExpiredPayload,
                 ErrFuturePayload, ErrCertMismatch}
      then (Unauthenticated, safeReason err)
      else if err = ErrReplay then (AlreadyExists, safeReason err)
      else if err \<in> {ErrOversizedPayload, ErrReplayStateFull} then (ResourceExhausted, safeReason err)
      else (InvalidArgument, safeReason err))"

definition safeRequestID :: "SignedEnvelope \<Rightarrow> string" where
  "safeRequestID envelope =
     take 24 (SafeHash (se_DeviceID envelope @ '':'' @ se_TrajectoryID envelope @ '':'' @ se_FrameID envelope))"

datatype log_entry =
    LogPlain (lg_event: string) (lg_decision: string) (lg_reason_codes: "string list")
  | LogEnvelope (lg_event: string) (lg_request_id: string) (lg_device_hash: string)
      (lg_trajectory_hash: string) (lg_sequence: u64) (lg_decision: string) (lg_reason_codes: "string list")

definition safeLog ::
  "string \<Rightarrow> SignedEnvelope option \<Rightarrow> string \<Rightarrow> string list \<Rightarrow> log_entry list \<Rightarrow> log_entry list" where
  "safeLog event envelope decision reasonCodes logger =
     logger @
       [case envelope of
          None \<Rightarrow> LogPlain event decision reasonCodes
        | Some e \<Rightarrow> LogEnvelope event (safeRequestID e) (SafeHash (se_DeviceID e)) (SafeHash (se_TrajectoryID e))
            (se_Sequence e) decision reasonCodes]"

section \<open>Binding the payload to the envelope\<close>

definition bindEnvelopeToFrame :: "SignedEnvelope \<Rightarrow> RawFrame \<Rightarrow> error option \<times> RawFrame" where
  "bindEnvelopeToFrame envelope frame =
     (let frame = (if rf_ProtocolVersion frame = []
                   then frame\<lparr>rf_ProtocolVersion := se_ProtocolVersion envelope\<rparr> else frame);
          frame = (if rf_TrajectoryID frame = []
                   then frame\<lparr>rf_TrajectoryID := se_TrajectoryID envelope\<rparr> else frame);
          frame = (if rf_FrameID frame = []
                   then frame\<lparr>rf_FrameID := se_FrameID envelope\<rparr> else frame);
          frame = (if dm_DeviceID (rf_Device frame) = []
                   then frame\<lparr>rf_Device := (rf_Device frame)\<lparr>dm_DeviceID := se_DeviceID envelope\<rparr>\<rparr> else frame)
      in if rf_ProtocolVersion frame \<noteq> se_ProtocolVersion envelope \<or>
            rf_TrajectoryID frame \<noteq> se_TrajectoryID envelope \<or>
            rf_FrameID frame \<noteq> se_FrameID envelope \<or>
            rf_Sequence frame \<noteq> se_Sequence envelope \<or>
            dm_DeviceID (rf_Device frame) \<noteq> se_DeviceID envelope
         then (Some (ErrOther ''envelope and payload identifiers differ''), frame)
         else (None, frame))"

section \<open>The service\<close>

type_synonym ('n, 'z) sanitizer = "'n \<Rightarrow> 'z \<Rightarrow> RawFrame \<Rightarrow> (Result \<times> sanitize_error option) \<times> 'z"
type_synonym ('w, 's) sink = "'w \<Rightarrow> 's \<Rightarrow> SanitizedFrame \<Rightarrow> storage_error option \<times> 's"

record ('e, 'g, 'n, 'z, 'w, 's) Service =
  sv_Verifier :: "('e, 'g) Verifier option"
  sv_Sanitizer :: "('n, 'z) sanitizer option"
  sv_Storage :: "('w, 's) sink option"

record ('g, 'z, 's) ingest_state =
  is_guard :: 'g
  is_sanitizer :: 'z
  is_sink :: 's
  is_log :: "log_entry list"

text \<open>What surrounds one call: the peer, the clock, and the environments of the parts.\<close>

record ('e, 'n, 'w) ingest_env =
  ie_peer :: rpc_peer
  ie_clock :: "nat \<Rightarrow> time"
  ie_guard :: 'e
  ie_sanitizer :: 'n
  ie_sink :: 'w

definition log_st ::
  "string \<Rightarrow> SignedEnvelope \<Rightarrow> string \<Rightarrow> string list \<Rightarrow> ('g, 'z, 's) ingest_state \<Rightarrow> ('g, 'z, 's) ingest_state" where
  "log_st event envelope decision reasons st =
     st\<lparr>is_log := safeLog event (Some envelope) decision reasons (is_log st)\<rparr>"

definition verified_frame :: "SignedEnvelope \<Rightarrow> RawFrame \<Rightarrow> RawFrame" where
  "verified_frame envelope frame =
     frame\<lparr>rf_Signature := \<lparr>sg_SignatureAlg = se_SignatureAlg envelope, sg_KeyID = se_PublicKeyID envelope,
       sg_PayloadSHA256Hex = se_PayloadSHA256Hex envelope, sg_VerificationStatus = ''verified''\<rparr>\<rparr>"

text \<open>The part of \<open>IngestFrame\<close> after verification, decoding and binding.\<close>

definition sanitize_and_store ::
  "('n, 'z) sanitizer \<Rightarrow> ('w, 's) sink \<Rightarrow> ('e, 'n, 'w) ingest_env \<Rightarrow> ('g, 'z, 's) ingest_state \<Rightarrow>
     SignedEnvelope \<Rightarrow> RawFrame \<Rightarrow> Response outcome \<times> ('g, 'z, 's) ingest_state" where
  "sanitize_and_store sanitize store env st envelope frame =
     (let ((result, err), z) = sanitize (ie_sanitizer env) (is_sanitizer st) frame;
          st = st\<lparr>is_sanitizer := z\<rparr>
      in if err \<noteq> None
         then (Replied \<lparr>rp_RequestID = safeRequestID envelope, rp_Decision = DecisionDrop,
                 rp_ReasonCodes = [''sanitizer_error''], rp_SanitizerVersion = res_SanitizerVersion result\<rparr>,
               log_st ''ingest_rejected'' envelope ''sanitizer_failed'' [''sanitizer_error''] st)
         else if res_Decision result \<noteq> DecisionAccept
         then (Replied \<lparr>rp_RequestID = safeRequestID envelope, rp_Decision = res_Decision result,
                 rp_ReasonCodes = res_ReasonCodes result, rp_SanitizerVersion = res_SanitizerVersion result\<rparr>,
               log_st ''ingest_rejected'' envelope (res_Decision result) (res_ReasonCodes result) st)
         else
           (case store (ie_sink env) (is_sink st) (res_Frame result) of
              (Some e, s) \<Rightarrow>
                (Failed Internal ''storage failed'',
                 log_st ''ingest_rejected'' envelope ''storage_failed'' [''storage_failed''] (st\<lparr>is_sink := s\<rparr>))
            | (None, s) \<Rightarrow>
                (Replied \<lparr>rp_RequestID = safeRequestID envelope, rp_Decision = DecisionAccept,
                   rp_ReasonCodes = res_ReasonCodes result, rp_SanitizerVersion = res_SanitizerVersion result\<rparr>,
                 log_st ''ingest_accepted'' envelope ''accept'' (res_ReasonCodes result) (st\<lparr>is_sink := s\<rparr>))))"

definition panic_message :: "error \<Rightarrow> string" where
  "panic_message err = (case err of GoPanic m \<Rightarrow> m | _ \<Rightarrow> [])"

text \<open>The two ways on from the verifier: the answer to an envelope it refuses, and the rest of the call.\<close>

definition refuse_call ::
  "SignedEnvelope \<Rightarrow> error \<Rightarrow> ('g, 'z, 's) ingest_state \<Rightarrow> Response outcome \<times> ('g, 'z, 's) ingest_state" where
  "refuse_call envelope e st =
     (if is_panic e then (Panicked (panic_message e), st)
      else (let (c, msg) = mapAuthError e
            in (Failed c msg, log_st ''ingest_rejected'' envelope ''auth_failed'' [safeReason e] st)))"

definition finish_call ::
  "(bytes \<Rightarrow> string + RawFrame) \<Rightarrow> ('n, 'z) sanitizer \<Rightarrow> ('w, 's) sink \<Rightarrow> ('e, 'n, 'w) ingest_env \<Rightarrow>
     ('g, 'z, 's) ingest_state \<Rightarrow> SignedEnvelope \<Rightarrow> Response outcome \<times> ('g, 'z, 's) ingest_state" where
  "finish_call Unmarshal sanitize store env st envelope =
     (case Unmarshal (se_Payload envelope) of
        Inl _ \<Rightarrow>
          (Failed InvalidArgument ''malformed payload'',
           log_st ''ingest_rejected'' envelope ''malformed_payload'' [''payload_decode_failed''] st)
      | Inr frame \<Rightarrow>
          (case bindEnvelopeToFrame envelope frame of
             (Some e, _) \<Rightarrow>
               (Failed InvalidArgument ''payload metadata does not match envelope'',
                log_st ''ingest_rejected'' envelope ''payload_binding_failed'' [safeReason e] st)
           | (None, frame) \<Rightarrow>
               sanitize_and_store sanitize store env st envelope (verified_frame envelope frame)))"

definition IngestFrame ::
  "ed25519 \<Rightarrow> (bytes \<Rightarrow> string + RawFrame) \<Rightarrow> ('e, 'g, 'n, 'z, 'w, 's) Service \<Rightarrow> ('e, 'n, 'w) ingest_env \<Rightarrow>
     ('g, 'z, 's) ingest_state \<Rightarrow> SignedEnvelope option \<Rightarrow> Response outcome \<times> ('g, 'z, 's) ingest_state" where
  "IngestFrame ed Unmarshal sv env st envelope =
     (case envelope of
        None \<Rightarrow> (Failed InvalidArgument ''missing envelope'', st)
      | Some envelope \<Rightarrow>
          (case (sv_Verifier sv, sv_Sanitizer sv, sv_Storage sv) of
             (Some verifier, Some sanitize, Some store) \<Rightarrow>
               (let (err, g) = Verify ed (ie_clock env) (ie_guard env) verifier (is_guard st) envelope
                                 (peerCertificateFingerprint (ie_peer env));
                    st = st\<lparr>is_guard := g\<rparr>
                in case err of
                     Some e \<Rightarrow> refuse_call envelope e st
                   | None \<Rightarrow> finish_call Unmarshal sanitize store env st envelope)
           | _ \<Rightarrow> (Failed FailedPrecondition ''ingest service is not configured'', st)))"

lemmas IngestFrame_unfold = IngestFrame_def refuse_call_def finish_call_def

section \<open>Conversions and the gRPC adapter\<close>

definition ResponseToProto :: "Response option \<Rightarrow> IngestFrameResponse" where
  "ResponseToProto resp =
     (case resp of
        None \<Rightarrow> zero_IngestFrameResponse
      | Some r \<Rightarrow> \<lparr>rs_RequestId = rp_RequestID r, rs_Decision = DecisionToProto (rp_Decision r),
          rs_ReasonCodes = rp_ReasonCodes r, rs_SanitizerVersion = rp_SanitizerVersion r\<rparr>)"

definition ResponseFromProto :: "IngestFrameResponse option \<Rightarrow> Response" where
  "ResponseFromProto pb =
     (case pb of
        None \<Rightarrow> zero_Response
      | Some _ \<Rightarrow> \<lparr>rp_RequestID = GetRequestId pb, rp_Decision = DecisionFromProto (GetDecision pb),
          rp_ReasonCodes = GetReasonCodes pb, rp_SanitizerVersion = GetSanitizerVersion pb\<rparr>)"

definition envelopeFromProto :: "('ts \<Rightarrow> time) \<Rightarrow> 'ts SignatureEnvelope option \<Rightarrow> error + SignedEnvelope" where
  "envelopeFromProto AsTime pb = EnvelopeFromProto AsTime pb"

definition GRPC_IngestFrame ::
  "ed25519 \<Rightarrow> (bytes \<Rightarrow> string + RawFrame) \<Rightarrow> ('ts \<Rightarrow> time) \<Rightarrow> ('e, 'g, 'n, 'z, 'w, 's) Service option \<Rightarrow>
     ('e, 'n, 'w) ingest_env \<Rightarrow> ('g, 'z, 's) ingest_state \<Rightarrow> 'ts IngestFrameRequest option \<Rightarrow>
     IngestFrameResponse outcome \<times> ('g, 'z, 's) ingest_state" where
  "GRPC_IngestFrame ed Unmarshal AsTime service env st req =
     (if req = None \<or> GetEnvelope req = None then (Failed InvalidArgument ''missing envelope'', st)
      else
        (case service of
           None \<Rightarrow> (Failed FailedPrecondition ''ingest service is not configured'', st)
         | Some sv \<Rightarrow>
             (case envelopeFromProto AsTime (GetEnvelope req) of
                Inl err \<Rightarrow> (Failed InvalidArgument (safeReason err), st)
              | Inr envelope \<Rightarrow>
                  (case IngestFrame ed Unmarshal sv env st (Some envelope) of
                     (Panicked m, st) \<Rightarrow> (Panicked m, st)
                   | (Failed c msg, st) \<Rightarrow> (Failed c msg, st)
                   | (Replied resp, st) \<Rightarrow> (Replied (ResponseToProto (Some resp)), st)))))"

datatype 'c server_option = MaxRecvMsgSize int | Creds 'c

definition ServerOptions :: "int \<Rightarrow> 'c server_option list" where
  "ServerOptions maxRecvBytes = (if maxRecvBytes \<le> 0 then [] else [MaxRecvMsgSize maxRecvBytes])"

section \<open>One call\<close>

text \<open>The identifiers of a frame that its envelope fixes.\<close>

definition bound_to :: "SignedEnvelope \<Rightarrow> RawFrame \<Rightarrow> bool" where
  "bound_to e frame \<longleftrightarrow>
     rf_ProtocolVersion frame = se_ProtocolVersion e \<and> rf_TrajectoryID frame = se_TrajectoryID e \<and>
     rf_FrameID frame = se_FrameID e \<and> rf_Sequence frame = se_Sequence e \<and>
     dm_DeviceID (rf_Device frame) = se_DeviceID e"

lemma bindEnvelopeToFrame_ok: "bindEnvelopeToFrame e frame = (None, frame') \<Longrightarrow> bound_to e frame'"
  by (auto simp: bindEnvelopeToFrame_def bound_to_def Let_def split: if_splits)

definition service_of ::
  "('e, 'g) Verifier \<Rightarrow> ('n, 'z) sanitizer \<Rightarrow> ('w, 's) sink \<Rightarrow> ('e, 'g, 'n, 'z, 'w, 's) Service" where
  "service_of v sanitize store = \<lparr>sv_Verifier = Some v, sv_Sanitizer = Some sanitize, sv_Storage = Some store\<rparr>"

definition accepts :: "Response outcome \<Rightarrow> bool" where
  "accepts out \<longleftrightarrow> (case out of Replied r \<Rightarrow> rp_Decision r = DecisionAccept | _ \<Rightarrow> False)"

lemma accepts_simps [simp]:
  "accepts (Replied r) \<longleftrightarrow> rp_Decision r = DecisionAccept" "\<not> accepts (Failed c m)" "\<not> accepts (Panicked m)"
  by (simp_all add: accepts_def)

text \<open>The stages of a call on a configured service.\<close>

definition verify_call ::
  "ed25519 \<Rightarrow> ('e, 'g) Verifier \<Rightarrow> ('e, 'n, 'w) ingest_env \<Rightarrow> 'g \<Rightarrow> SignedEnvelope \<Rightarrow> error option \<times> 'g" where
  "verify_call ed v env g e = Verify ed (ie_clock env) (ie_guard env) v g e (peerCertificateFingerprint (ie_peer env))"

definition decoded :: "(bytes \<Rightarrow> string + RawFrame) \<Rightarrow> SignedEnvelope \<Rightarrow> RawFrame option" where
  "decoded Unmarshal e =
     (case Unmarshal (se_Payload e) of
        Inl _ \<Rightarrow> None
      | Inr frame \<Rightarrow>
          (case bindEnvelopeToFrame e frame of (None, frame) \<Rightarrow> Some (verified_frame e frame) | _ \<Rightarrow> None))"

lemma log_st_simps [simp]:
  "is_guard (log_st ev e d rs st) = is_guard st" "is_sanitizer (log_st ev e d rs st) = is_sanitizer st"
  "is_sink (log_st ev e d rs st) = is_sink st"
  by (simp_all add: log_st_def)

lemma IngestFrame_split:
  "IngestFrame ed Unmarshal (service_of v sanitize store) env st (Some e) =
     (case verify_call ed v env (is_guard st) e of
        (Some err, g) \<Rightarrow> refuse_call e err (st\<lparr>is_guard := g\<rparr>)
      | (None, g) \<Rightarrow> finish_call Unmarshal sanitize store env (st\<lparr>is_guard := g\<rparr>) e)"
  by (simp add: IngestFrame_def service_of_def verify_call_def Let_def split: prod.splits)

lemma refuse_call_simps [simp]:
  "is_guard (snd (refuse_call e err st)) = is_guard st" "is_sink (snd (refuse_call e err st)) = is_sink st"
  "is_sanitizer (snd (refuse_call e err st)) = is_sanitizer st" "\<not> accepts (fst (refuse_call e err st))"
  by (simp_all add: refuse_call_def split: prod.splits)

lemma finish_call_guard [simp]: "is_guard (snd (finish_call Unmarshal sanitize store env st e)) = is_guard st"
  by (auto simp: finish_call_def sanitize_and_store_def Let_def split: prod.splits option.splits sum.splits)

lemma finish_call_decoded:
  "decoded Unmarshal e = Some frame \<Longrightarrow> finish_call Unmarshal sanitize store env st e = sanitize_and_store sanitize store env st e frame"
  by (auto simp: finish_call_def decoded_def split: prod.splits option.splits sum.splits)

lemma finish_call_undecoded:
  assumes "decoded Unmarshal e = None"
  shows "\<not> accepts (fst (finish_call Unmarshal sanitize store env st e))" "is_sink (snd (finish_call Unmarshal sanitize store env st e)) = is_sink st"
  using assms by (auto simp: finish_call_def decoded_def split: prod.splits option.splits sum.splits)

lemma IngestFrame_guard:
  "is_guard (snd (IngestFrame ed Unmarshal (service_of v sanitize store) env st (Some e))) =
     snd (verify_call ed v env (is_guard st) e)"
  by (auto simp: IngestFrame_unfold service_of_def verify_call_def sanitize_and_store_def Let_def
      split: prod.splits option.splits sum.splits if_splits)

lemma IngestFrame_verified:
  assumes "fst (verify_call ed v env (is_guard st) e) = None" and "decoded Unmarshal e = Some frame"
  shows "IngestFrame ed Unmarshal (service_of v sanitize store) env st (Some e) =
    sanitize_and_store sanitize store env (st\<lparr>is_guard := snd (verify_call ed v env (is_guard st) e)\<rparr>) e frame"
  using assms
  by (auto simp: IngestFrame_unfold service_of_def verify_call_def decoded_def Let_def
      split: prod.splits option.splits sum.splits)

lemma IngestFrame_unverified:
  assumes "fst (verify_call ed v env (is_guard st) e) \<noteq> None \<or> decoded Unmarshal e = None"
  shows "\<not> accepts (fst (IngestFrame ed Unmarshal (service_of v sanitize store) env st (Some e)))"
    and "is_sink (snd (IngestFrame ed Unmarshal (service_of v sanitize store) env st (Some e))) = is_sink st"
    and "is_sanitizer (snd (IngestFrame ed Unmarshal (service_of v sanitize store) env st (Some e))) = is_sanitizer st"
proof -
  let ?r = "IngestFrame ed Unmarshal (service_of v sanitize store) env st (Some e)"
  have "\<not> accepts (fst ?r) \<and> is_sink (snd ?r) = is_sink st \<and> is_sanitizer (snd ?r) = is_sanitizer st"
    using assms
    by (auto simp: IngestFrame_unfold service_of_def verify_call_def decoded_def Let_def
        split: prod.splits option.splits sum.splits if_splits)
  then show "\<not> accepts (fst ?r)" "is_sink (snd ?r) = is_sink st" "is_sanitizer (snd ?r) = is_sanitizer st"
    by blast+
qed

lemma sanitize_and_store_cases:
  assumes "sanitize (ie_sanitizer env) (is_sanitizer st) frame = ((res, err), z)"
    and "store (ie_sink env) (is_sink st) (res_Frame res) = (werr, s)"
    and "sanitize_and_store sanitize store env st e frame = (out, st')"
  shows "accepts out \<longleftrightarrow> err = None \<and> res_Decision res = DecisionAccept \<and> werr = None"
    and "is_sink st' = (if err = None \<and> res_Decision res = DecisionAccept then s else is_sink st)"
    and "is_guard st' = is_guard st" and "is_sanitizer st' = z"
    and "out = Failed Internal ''storage failed'' \<longleftrightarrow> err = None \<and> res_Decision res = DecisionAccept \<and> werr \<noteq> None"
  using assms by (auto simp: sanitize_and_store_def Let_def split: option.splits if_splits)

section \<open>Runs of the service\<close>

text \<open>The envelopes of the requests that were answered with an accept, and the final state.\<close>

fun ingest_run :: "ed25519 \<Rightarrow> (bytes \<Rightarrow> string + RawFrame) \<Rightarrow> ('e, 'g, 'n, 'z, 'w, 's) Service \<Rightarrow>
    ('g, 'z, 's) ingest_state \<Rightarrow> (('e, 'n, 'w) ingest_env \<times> SignedEnvelope) list \<Rightarrow>
    SignedEnvelope list \<times> ('g, 'z, 's) ingest_state" where
  "ingest_run ed Unmarshal sv st [] = ([], st)"
| "ingest_run ed Unmarshal sv st ((env, e) # reqs) =
     (let (out, st') = IngestFrame ed Unmarshal sv env st (Some e);
          (acc, st'') = ingest_run ed Unmarshal sv st' reqs
      in (if accepts out then e # acc else acc, st''))"

lemma ingest_run_Cons:
  "IngestFrame ed Unmarshal sv env st (Some e) = (out, st') \<Longrightarrow>
     ingest_run ed Unmarshal sv st ((env, e) # reqs) =
       (if accepts out then e # fst (ingest_run ed Unmarshal sv st' reqs) else fst (ingest_run ed Unmarshal sv st' reqs),
        snd (ingest_run ed Unmarshal sv st' reqs))"
  by (simp split: prod.split)

declare ingest_run.simps(2) [simp del]

definition verify_reqs :: "(('e, 'n, 'w) ingest_env \<times> SignedEnvelope) list \<Rightarrow>
    ((nat \<Rightarrow> time) \<times> 'e \<times> SignedEnvelope \<times> string) list" where
  "verify_reqs reqs =
     map (\<lambda>(env, e). (ie_clock env, ie_guard env, e, peerCertificateFingerprint (ie_peer env))) reqs"

text \<open>The accepted requests are among the verified ones, and the guard sees exactly those.\<close>

lemma ingest_run_verify_run:
  "subseq (fst (ingest_run ed Unmarshal (service_of v sanitize store) st reqs))
      (fst (verify_run ed v (is_guard st) (verify_reqs reqs))) \<and>
   is_guard (snd (ingest_run ed Unmarshal (service_of v sanitize store) st reqs)) =
      snd (verify_run ed v (is_guard st) (verify_reqs reqs))"
proof (induction reqs arbitrary: st)
  case Nil
  then show ?case by (simp add: verify_reqs_def)
next
  case (Cons req reqs)
  obtain env e where req: "req = (env, e)" by (cases req)
  let ?sv = "service_of v sanitize store"
  obtain out st' where c: "IngestFrame ed Unmarshal ?sv env st (Some e) = (out, st')"
    by (cases "IngestFrame ed Unmarshal ?sv env st (Some e)")
  obtain err g where v: "verify_call ed v env (is_guard st) e = (err, g)"
    by (cases "verify_call ed v env (is_guard st) e")
  have g: "is_guard st' = g"
    using IngestFrame_guard [of ed Unmarshal v sanitize store env st e] c v by simp
  have acc: "accepts out \<Longrightarrow> err = None"
    using IngestFrame_unverified(1) [of ed v env st e Unmarshal sanitize store] c v by (cases err) auto
  note IH = Cons.IH [of st', unfolded g]
  have vr: "verify_run ed v (is_guard st) (verify_reqs (req # reqs)) =
      (if err = None then (e # fst (verify_run ed v g (verify_reqs reqs)), snd (verify_run ed v g (verify_reqs reqs)))
       else verify_run ed v g (verify_reqs reqs))"
    using v by (auto simp: verify_reqs_def req verify_call_def split: prod.splits option.splits)
  show ?case
    using IH acc unfolding req vr [unfolded req] ingest_run_Cons [OF c] by auto
qed

section \<open>The contracts of the sanitizer and the sink\<close>

definition carries_identity :: "RawFrame \<Rightarrow> SanitizedFrame \<Rightarrow> bool" where
  "carries_identity frame f \<longleftrightarrow>
     sf_ProtocolVersion f = rf_ProtocolVersion frame \<and> sf_TrajectoryID f = rf_TrajectoryID frame \<and>
     sf_FrameID f = rf_FrameID frame \<and> sf_Sequence f = rf_Sequence frame \<and>
     dm_DeviceID (sf_Device f) = dm_DeviceID (rf_Device frame) \<and>
     sf_Signature f = (rf_Signature frame)\<lparr>sg_VerificationStatus := ''verified''\<rparr>"

locale frame_sanitizer =
  fixes sanitize :: "('n, 'z) sanitizer"
  assumes accepted_identity:
    "sanitize n z frame = ((res, None), z') \<Longrightarrow> res_Decision res = DecisionAccept \<Longrightarrow>
       carries_identity frame (res_Frame res)"

text \<open>A sink that keeps what it holds, and one that also holds what it reports as stored.\<close>

locale keeping_sink =
  fixes store :: "('w, 's) sink"
    and inv :: "'s \<Rightarrow> bool"
    and holds :: "'s \<Rightarrow> SanitizedFrame \<Rightarrow> bool"
  assumes write_inv: "inv s \<Longrightarrow> store w s f = (r, s') \<Longrightarrow> inv s'"
    and write_keeps: "inv s \<Longrightarrow> store w s f = (r, s') \<Longrightarrow> holds s f' \<Longrightarrow> holds s' f'"
begin

lemma finish_keeps:
  assumes "inv (is_sink st)" and "finish_call Unmarshal sanitize store env st e = (out, st')"
  shows "inv (is_sink st')" and "holds (is_sink st) f \<Longrightarrow> holds (is_sink st') f"
proof -
  have "inv (is_sink st') \<and> (holds (is_sink st) f \<longrightarrow> holds (is_sink st') f)"
  proof (cases "decoded Unmarshal e")
    case None
    from finish_call_undecoded [OF None, of sanitize store env st] assms show ?thesis by simp
  next
    case (Some frame)
    have sas: "sanitize_and_store sanitize store env st e frame = (out, st')"
      using finish_call_decoded [OF Some, of sanitize store env st] assms(2) by simp
    obtain res err z where z: "sanitize (ie_sanitizer env) (is_sanitizer st) frame = ((res, err), z)" by (metis surj_pair)
    obtain werr s where w: "store (ie_sink env) (is_sink st) (res_Frame res) = (werr, s)" by (metis surj_pair)
    from sanitize_and_store_cases(2) [where sanitize = sanitize and store = store, OF z w sas]
      write_inv [OF assms(1) w] write_keeps [OF assms(1) w] assms(1) show ?thesis by auto
  qed
  then show "inv (is_sink st')" "holds (is_sink st) f \<Longrightarrow> holds (is_sink st') f" by blast+
qed

end

locale frame_sink = keeping_sink store inv holds
  for store :: "('w, 's) sink" and inv and holds +
  assumes write_stores: "inv s \<Longrightarrow> store w s f = (None, s') \<Longrightarrow> holds s' f"

text \<open>A stored frame that belongs to an envelope.\<close>

definition stored_for :: "SignedEnvelope \<Rightarrow> SanitizedFrame \<Rightarrow> bool" where
  "stored_for e f \<longleftrightarrow>
     sf_ProtocolVersion f = se_ProtocolVersion e \<and> sf_TrajectoryID f = se_TrajectoryID e \<and>
     sf_FrameID f = se_FrameID e \<and> sf_Sequence f = se_Sequence e \<and> dm_DeviceID (sf_Device f) = se_DeviceID e \<and>
     sf_Signature f = \<lparr>sg_SignatureAlg = se_SignatureAlg e, sg_KeyID = se_PublicKeyID e,
       sg_PayloadSHA256Hex = se_PayloadSHA256Hex e, sg_VerificationStatus = ''verified''\<rparr>"

lemma decoded_stored_for:
  assumes "decoded Unmarshal e = Some frame" and "carries_identity frame f"
  shows "stored_for e f"
proof -
  from assms(1) obtain frame' where "bound_to e frame'" "frame = verified_frame e frame'"
    by (auto simp: decoded_def dest: bindEnvelopeToFrame_ok split: sum.splits option.splits prod.splits)
  with assms(2) show ?thesis
    by (simp add: carries_identity_def stored_for_def bound_to_def verified_frame_def)
qed

locale ingest_service =
  replay_guard check view + frame_sanitizer sanitize + frame_sink store inv holds
  for check :: "('e, 'g) check_and_record" and view and sanitize :: "('n, 'z) sanitizer"
    and store :: "('w, 's) sink" and inv and holds
begin

lemma finish_stores:
  assumes "inv (is_sink st)" and "finish_call Unmarshal sanitize store env st e = (out, st')" and "accepts out"
  shows "\<exists>f. holds (is_sink st') f \<and> stored_for e f"
proof (cases "decoded Unmarshal e")
  case None
  from finish_call_undecoded [OF None, of sanitize store env st] assms show ?thesis by simp
next
  case (Some frame)
  have sas: "sanitize_and_store sanitize store env st e frame = (out, st')"
    using finish_call_decoded [OF Some, of sanitize store env st] assms(2) by simp
  obtain res err z where z: "sanitize (ie_sanitizer env) (is_sanitizer st) frame = ((res, err), z)" by (metis surj_pair)
  obtain werr s where w: "store (ie_sink env) (is_sink st) (res_Frame res) = (werr, s)" by (metis surj_pair)
  note cs = sanitize_and_store_cases(1,2) [where sanitize = sanitize and store = store, OF z w sas]
  from cs(1) assms(3) have ok: "err = None" "res_Decision res = DecisionAccept" "werr = None" by simp_all
  have "stored_for e (res_Frame res)"
    using decoded_stored_for [OF Some] accepted_identity z ok by blast
  with cs(2) ok write_stores [OF assms(1)] w show ?thesis by auto
qed

lemmas finish_step = finish_keeps [where sanitize = sanitize] finish_stores

lemma ingest_step:
  assumes "inv (is_sink st)"
    and "IngestFrame ed Unmarshal (service_of v sanitize store) env st (Some e) = (out, st')"
  shows "inv (is_sink st')" and "holds (is_sink st) f \<Longrightarrow> holds (is_sink st') f"
    and "accepts out \<Longrightarrow> \<exists>f. holds (is_sink st') f \<and> stored_for e f"
proof -
  obtain r g where v: "verify_call ed v env (is_guard st) e = (r, g)" by (metis surj_pair)
  have "inv (is_sink st') \<and> (holds (is_sink st) f \<longrightarrow> holds (is_sink st') f) \<and>
      (accepts out \<longrightarrow> (\<exists>f. holds (is_sink st') f \<and> stored_for e f))"
  proof (cases r)
    case None
    with assms(2) v have "finish_call Unmarshal sanitize store env (st\<lparr>is_guard := g\<rparr>) e = (out, st')"
      by (simp add: IngestFrame_split)
    from finish_step [OF _ this] assms(1) show ?thesis by simp
  next
    case (Some err)
    with assms(2) v have r: "refuse_call e err (st\<lparr>is_guard := g\<rparr>) = (out, st')" by (simp add: IngestFrame_split)
    from refuse_call_simps(2,4) [of e err "st\<lparr>is_guard := g\<rparr>"] assms(1) show ?thesis unfolding r by simp
  qed
  then show "inv (is_sink st')" "holds (is_sink st) f \<Longrightarrow> holds (is_sink st') f"
    "accepts out \<Longrightarrow> \<exists>f. holds (is_sink st') f \<and> stored_for e f" by blast+
qed

lemma run_keeps:
  "inv (is_sink st) \<Longrightarrow> holds (is_sink st) f \<Longrightarrow>
     holds (is_sink (snd (ingest_run ed Unmarshal (service_of v sanitize store) st reqs))) f"
proof (induction reqs arbitrary: st)
  case (Cons req reqs)
  obtain env e where req: "req = (env, e)" by (cases req)
  obtain out st' where c: "IngestFrame ed Unmarshal (service_of v sanitize store) env st (Some e) = (out, st')"
    by (metis surj_pair)
  from ingest_step [OF Cons.prems(1) c] Cons.prems Cons.IH [of st'] show ?case
    by (simp add: req ingest_run_Cons [OF c])
qed simp

lemma run_stored:
  "inv (is_sink st) \<Longrightarrow> e \<in> set (fst (ingest_run ed Unmarshal (service_of v sanitize store) st reqs)) \<Longrightarrow>
     \<exists>f. holds (is_sink (snd (ingest_run ed Unmarshal (service_of v sanitize store) st reqs))) f \<and> stored_for e f"
proof (induction reqs arbitrary: st)
  case (Cons req reqs)
  obtain env e' where req: "req = (env, e')" by (cases req)
  let ?sv = "service_of v sanitize store"
  obtain out st' where c: "IngestFrame ed Unmarshal ?sv env st (Some e') = (out, st')" by (metis surj_pair)
  note step = ingest_step [OF Cons.prems(1) c]
  have run: "ingest_run ed Unmarshal ?sv st (req # reqs) =
      (if accepts out then e' # fst (ingest_run ed Unmarshal ?sv st' reqs) else fst (ingest_run ed Unmarshal ?sv st' reqs),
       snd (ingest_run ed Unmarshal ?sv st' reqs))"
    unfolding req by (rule ingest_run_Cons [OF c])
  show ?case
  proof (cases "e \<in> set (fst (ingest_run ed Unmarshal ?sv st' reqs))")
    case True
    from Cons.IH [OF step(1) True] show ?thesis by (simp add: run)
  next
    case False
    with Cons.prems(2) run have "accepts out" "e' = e" by (auto split: if_splits)
    with step(3) obtain f where "holds (is_sink st') f" "stored_for e f" by blast
    with run_keeps [OF step(1), of f] run show ?thesis by (metis snd_conv)
  qed
qed simp

end

section \<open>The program's own parts keep the contracts\<close>

definition json_sink_write :: "(SanitizedFrame \<Rightarrow> string + bytes) \<Rightarrow> (os_env, JSONLSink \<times> fs) sink" where
  "json_sink_write Marshal env st frame =
     (let (s, fs) = st; (err, s, fs) = WriteSanitizedFrame Marshal env s fs frame in (err, (s, fs)))"

definition json_sink_ok :: "JSONLSink \<times> fs \<Rightarrow> bool" where
  "json_sink_ok st \<longleftrightarrow> sink_wf (fst st)"

text \<open>The files hold the bytes of a frame's line, or have that line.\<close>

definition json_sink_holds :: "(SanitizedFrame \<Rightarrow> string + bytes) \<Rightarrow> JSONLSink \<times> fs \<Rightarrow> SanitizedFrame \<Rightarrow> bool" where
  "json_sink_holds Marshal st frame \<longleftrightarrow> (\<exists>line. Marshal frame = Inr line \<and> holds_bytes (snd st) line)"

definition json_sink_line :: "(SanitizedFrame \<Rightarrow> string + bytes) \<Rightarrow> JSONLSink \<times> fs \<Rightarrow> SanitizedFrame \<Rightarrow> bool" where
  "json_sink_line Marshal st frame \<longleftrightarrow> (\<exists>line. Marshal frame = Inr line \<and> holds_line (snd st) line)"

definition json_sink_whole :: "JSONLSink \<times> fs \<Rightarrow> bool" where
  "json_sink_whole st \<longleftrightarrow> json_sink_ok st \<and> whole_files (snd st)"

text \<open>The sink's own file ends with a line break, or is empty or absent.\<close>

definition json_active_whole :: "JSONLSink \<times> fs \<Rightarrow> bool" where
  "json_active_whole st \<longleftrightarrow> whole_lines (active_content (snd st) (Clean (js_path (fst st))))"

lemma json_sink_write_iff:
  "json_sink_write Marshal env st frame = (r, st') \<longleftrightarrow>
     WriteSanitizedFrame Marshal env (fst st) (snd st) frame = (r, fst st', snd st')"
  by (cases st; cases st') (auto simp: json_sink_write_def split: prod.splits)

lemma json_write_line:
  assumes "json_sink_ok st" and "json_active_whole st" and "json_sink_write Marshal env st f = (None, st')"
  shows "json_sink_line Marshal st' f"
  using Write_line [of "fst st" Marshal env "snd st" f "fst st'" "snd st'"] assms
  unfolding json_sink_write_iff json_sink_ok_def json_active_whole_def json_sink_line_def by blast

lemma json_sink_whole_active: "json_sink_whole st \<Longrightarrow> json_active_whole st"
  by (simp add: json_sink_whole_def json_active_whole_def whole_files_active)

interpretation pipeline: frame_sanitizer Process
proof (unfold_locales, goal_cases)
  case (1 now p frame res p')
  then have "res_Decision (fst (fst (Process now p frame))) = DecisionAccept" by simp
  from Process_accepted(3) [OF this] 1 have "res = accepted_result now p frame" by simp
  then show ?case by (simp add: accepted_result_def sanitized_frame_def carries_identity_def Let_def)
qed

interpretation jsonl: frame_sink "json_sink_write Marshal" json_sink_ok "json_sink_holds Marshal" for Marshal
proof (unfold_locales, goal_cases)
  case (1 s w f r s')
  then show ?case unfolding json_sink_write_iff json_sink_ok_def by (rule Write_spec(3))
next
  case (2 s w f r s' f')
  then show ?case
    unfolding json_sink_write_iff json_sink_ok_def json_sink_holds_def
    by (blast dest: Write_spec(4) intro: keeps_data_bytes)
next
  case (3 s w f s')
  then show ?case
    unfolding json_sink_write_iff json_sink_ok_def json_sink_holds_def by (blast dest: Write_bytes)
qed

text \<open>A line of a file stays a line of a file, whatever fails. Without failing writes, what is
  reported as stored is a line of a file.\<close>

interpretation jsonl_lines: keeping_sink "json_sink_write Marshal" json_sink_ok "json_sink_line Marshal" for Marshal
proof (unfold_locales, goal_cases)
  case (1 s w f r s')
  then show ?case by (rule jsonl.write_inv)
next
  case (2 s w f r s' f')
  then show ?case
    unfolding json_sink_write_iff json_sink_ok_def json_sink_line_def
    by (blast dest: Write_spec(4) intro: keeps_data_line)
qed

definition without_write_error :: "os_env \<Rightarrow> os_env" where
  "without_write_error env = env\<lparr>oe_WriteErr := None\<rparr>"

interpretation complete: frame_sink "\<lambda>env. json_sink_write Marshal (without_write_error env)" json_sink_whole "json_sink_line Marshal"
  for Marshal
proof (unfold_locales, goal_cases)
  case (1 s w f r s')
  then have "json_sink_ok s'" by (auto simp: json_sink_whole_def dest: jsonl.write_inv)
  moreover from 1 have "whole_files (snd s')"
    unfolding json_sink_write_iff json_sink_whole_def
    by (elim conjE) (rule Write_whole_files, assumption, simp_all add: without_write_error_def)
  ultimately show ?case by (simp add: json_sink_whole_def)
next
  case (2 s w f r s' f')
  then show ?case by (auto simp: json_sink_whole_def dest: jsonl_lines.write_keeps)
next
  case (3 s w f s')
  with json_sink_whole_active [of s] show ?case by (auto simp: json_sink_whole_def intro: json_write_line)
qed

interpretation proxy: ingest_service "SQLite_CheckAndRecord guard" db_abs Process
  "json_sink_write Marshal" json_sink_ok "json_sink_holds Marshal" for guard Marshal
  by unfold_locales

interpretation complete_proxy: ingest_service "SQLite_CheckAndRecord guard" db_abs Process
  "\<lambda>env. json_sink_write Marshal (without_write_error env)" json_sink_whole "json_sink_line Marshal" for guard Marshal
  by unfold_locales

lemma finish_call_store_cong:
  assumes "\<And>s f. store (ie_sink env) s f = store' (ie_sink env) s f"
  shows "finish_call Unmarshal sanitize store env st e = finish_call Unmarshal sanitize store' env st e"
proof -
  have "sanitize_and_store sanitize store env st e = sanitize_and_store sanitize store' env st e"
    using assms by (simp add: sanitize_and_store_def fun_eq_iff cong: if_cong option.case_cong)
  then show ?thesis by (simp only: finish_call_def)
qed

lemma finish_call_accepted:
  assumes "finish_call Unmarshal sanitize (json_sink_write Marshal) env st e = (out, st')" and "accepts out"
  shows "oe_WriteErr (ie_sink env) = None"
proof -
  obtain frame where d: "decoded Unmarshal e = Some frame"
    using finish_call_undecoded(1) [of Unmarshal e sanitize "json_sink_write Marshal" env st] assms by (cases "decoded Unmarshal e") auto
  have sas: "sanitize_and_store sanitize (json_sink_write Marshal) env st e frame = (out, st')"
    using finish_call_decoded [OF d, of sanitize "json_sink_write Marshal" env st] assms(1) by simp
  obtain res err z where z: "sanitize (ie_sanitizer env) (is_sanitizer st) frame = ((res, err), z)" by (metis surj_pair)
  obtain werr s where w: "json_sink_write Marshal (ie_sink env) (is_sink st) (res_Frame res) = (werr, s)" by (metis surj_pair)
  have "werr = None"
    using sanitize_and_store_cases(1) [where sanitize = sanitize and store = "json_sink_write Marshal", OF z w sas] assms(2) by simp
  with w show ?thesis unfolding json_sink_write_iff by (blast dest: Write_ok_complete)
qed

text \<open>The second half of a call during which no write fails.\<close>

lemma finish_call_complete:
  assumes "oe_WriteErr (ie_sink env) = None" and "json_sink_whole (is_sink st)"
    and "finish_call Unmarshal Process (json_sink_write Marshal) env st e = (out, st')"
  shows "json_sink_whole (is_sink st')" and "accepts out \<Longrightarrow> \<exists>f. json_sink_line Marshal (is_sink st') f \<and> stored_for e f"
proof -
  have "without_write_error (ie_sink env) = ie_sink env" using assms(1) by (simp add: without_write_error_def)
  then have f: "finish_call Unmarshal Process (\<lambda>env. json_sink_write Marshal (without_write_error env)) env st e = (out, st')"
    using finish_call_store_cong [of "json_sink_write Marshal" env "\<lambda>env. json_sink_write Marshal (without_write_error env)" Unmarshal Process st e]
      assms(3) by simp
  show "json_sink_whole (is_sink st')" using complete_proxy.finish_step(1) [OF assms(2) f] .
  show "accepts out \<Longrightarrow> \<exists>f. json_sink_line Marshal (is_sink st') f \<and> stored_for e f" using complete_proxy.finish_step(3) [OF assms(2) f] .
qed

section \<open>Properties\<close>

lemma distinct_map_subseq: "subseq xs ys \<Longrightarrow> distinct (map f ys) \<Longrightarrow> distinct (map f xs)"
  by (metis distinct_nthsI subseq_conv_nths subseq_map)

lemma sorted_wrt_subseq: "subseq xs ys \<Longrightarrow> sorted_wrt P ys \<Longrightarrow> sorted_wrt P xs"
  by (induction rule: list_emb.induct) (auto dest: list_emb_set)

text \<open>Over any sequence of requests the proxy answers accept at most once for each frame of
  a device, and for one device the accepted sequence numbers strictly increase, whatever the
  faults of the database, the operating system and the encoder in between.\<close>

lemma ingest_accepts_once:
  "let v' = v\<lparr>vf_Registry := Some registry, vf_ReplayGuard := Some (SQLite_CheckAndRecord guard)\<rparr>;
       acc = fst (ingest_run ed Unmarshal (service_of v' Process (json_sink_write Marshal)) st reqs)
   in distinct (map (\<lambda>e. (se_DeviceID e, se_FrameID e)) acc) \<and> per_device_increasing (map envelope_key acc)"
proof -
  let ?v = "v\<lparr>vf_Registry := Some registry, vf_ReplayGuard := Some (SQLite_CheckAndRecord guard)\<rparr>"
  let ?acc = "fst (ingest_run ed Unmarshal (service_of ?v Process (json_sink_write Marshal)) st reqs)"
  let ?ver = "fst (verify_run ed ?v (is_guard st) (verify_reqs reqs))"
  have sub: "subseq ?acc ?ver" using ingest_run_verify_run by blast
  have "distinct (map (\<lambda>e. (se_DeviceID e, se_FrameID e)) ?ver) \<and> per_device_increasing (map envelope_key ?ver)"
    using verify_run_once [where ed = ed and v = v and registry = registry and guard = guard and db = "is_guard st" and reqs = "verify_reqs reqs"] by (simp add: Let_def)
  with sub show ?thesis
    unfolding per_device_increasing_def
    by (auto simp: Let_def intro: distinct_map_subseq sorted_wrt_subseq subseq_map)
qed

text \<open>A request that was answered accept is stored: at the end of any further sequence of
  requests some file still holds the bytes of the line of a sanitized frame with the envelope's
  protocol version, trajectory, frame, device and sequence, its signature algorithm, key id and
  payload hash, marked verified.\<close>

lemma accepted_frames_stay_stored:
  assumes "json_sink_ok (is_sink st)"
    and "ingest_run ed Unmarshal (service_of v Process (json_sink_write Marshal)) st reqs = (acc, st')"
    and "e \<in> set acc"
  shows "\<exists>f line. stored_for e f \<and> Marshal f = Inr line \<and> holds_bytes (snd (is_sink st')) line"
  using proxy.run_stored [OF assms(1), of e ed Unmarshal v Marshal reqs] assms(2,3)
  by (auto simp: json_sink_holds_def)

text \<open>Claim C4: nothing reaches the sink, not even a rotation, unless the envelope was
  authenticated and accepted by the replay guard, its payload decoded and agreed with it, and
  the pipeline accepted the frame.\<close>

theorem sink_touched_only_after_checks:
  assumes "is_sink (snd (IngestFrame ed Unmarshal (service_of v Process store) env st (Some e))) \<noteq> is_sink st"
  shows "authenticated ed (ie_clock env) v e (peerCertificateFingerprint (ie_peer env)) \<and>
    (\<exists>check g. vf_ReplayGuard v = Some check \<and>
       check (ie_guard env) (is_guard st) (se_DeviceID e) (se_FrameID e) (se_Sequence e) = (None, g)) \<and>
    (\<exists>frame. decoded Unmarshal e = Some frame \<and> admitted (is_sanitizer st) frame \<and> sanitizable (is_sanitizer st) frame)"
proof -
  have ver: "fst (verify_call ed v env (is_guard st) e) = None" and "decoded Unmarshal e \<noteq> None"
    using IngestFrame_unverified(2) [of ed v env st e Unmarshal Process store] assms by blast+
  then obtain frame where d: "decoded Unmarshal e = Some frame" by blast
  let ?st = "st\<lparr>is_guard := snd (verify_call ed v env (is_guard st) e)\<rparr>"
  obtain out st' where sas: "sanitize_and_store Process store env ?st e frame = (out, st')" by (metis surj_pair)
  obtain res err z where z: "Process (ie_sanitizer env) (is_sanitizer ?st) frame = ((res, err), z)" by (metis surj_pair)
  obtain werr s where w: "store (ie_sink env) (is_sink ?st) (res_Frame res) = (werr, s)" by (metis surj_pair)
  have "res_Decision res = DecisionAccept"
    using sanitize_and_store_cases(2) [where sanitize = Process and store = store, OF z w sas] assms
      IngestFrame_verified [OF ver d, of Process store] sas by (auto split: if_splits)
  then have "res_Decision (fst (fst (Process (ie_sanitizer env) (is_sanitizer st) frame))) = DecisionAccept"
    using z by simp
  note Process_accepted(1,2) [OF this]
  moreover obtain g where "verify_call ed v env (is_guard st) e = (None, g)"
    using ver by (metis prod.collapse)
  then have "authenticated ed (ie_clock env) v e (peerCertificateFingerprint (ie_peer env))"
    "\<exists>check g. vf_ReplayGuard v = Some check \<and>
       check (ie_guard env) (is_guard st) (se_DeviceID e) (se_FrameID e) (se_Sequence e) = (None, g)"
    by (auto simp: verify_call_def Verify_accept_iff)
  ultimately show ?thesis using d by blast
qed

subsection \<open>An example request\<close>

definition sample_unmarshal :: "bytes \<Rightarrow> string + RawFrame" where
  "sample_unmarshal payload = (if payload = ''{}'' then Inr (sample_frame\<lparr>rf_Sequence := 1\<rparr>) else Inl ''syntax error'')"

definition sample_env :: "(sql_env, nat \<Rightarrow> time, os_env) ingest_env" where
  "sample_env = \<lparr>ie_peer = None, ie_clock = (\<lambda>_. 0), ie_guard = good_sql, ie_sanitizer = (\<lambda>_. 1), ie_sink = good_os 0\<rparr>"

definition sample_state :: "(replay_db, Pipeline, JSONLSink \<times> fs) ingest_state" where
  "sample_state = \<lparr>is_guard = empty_db, is_sanitizer = sample_pipeline, is_sink = (sample_sink, Map.empty), is_log = []\<rparr>"

abbreviation sample_service where
  "sample_service \<equiv> service_of sample_verifier Process (json_sink_write sample_marshal)"

lemma sample_signed_fields:
  "se_ProtocolVersion sample_signed = ''golem.v1''" "se_TrajectoryID sample_signed = ''test-trajectory''"
  "se_FrameID sample_signed = ''frame-1''" "se_DeviceID sample_signed = ''test-device''"
  "se_Sequence sample_signed = 1" "se_Payload sample_signed = ''{}''"
proof -
  obtain sig where eq: "sample_signed = sample_envelope\<lparr>se_SignatureAlg := SignatureAlgEd25519,
      se_PayloadSHA256Hex := HashPayload (se_Payload sample_envelope), se_DetachedSignature := sig\<rparr>"
    using SignEnvelope_Inr(2) [OF sample_sign] by blast
  show "se_ProtocolVersion sample_signed = ''golem.v1''" "se_TrajectoryID sample_signed = ''test-trajectory''"
    "se_FrameID sample_signed = ''frame-1''" "se_DeviceID sample_signed = ''test-device''"
    "se_Sequence sample_signed = 1" "se_Payload sample_signed = ''{}''"
    unfolding eq by (simp_all add: sample_envelope_def)
qed

lemma sample_verified:
  "verify_call sample_ed sample_verifier sample_env empty_db sample_signed =
     (None, \<lparr>device_state = [''test-device'' \<mapsto> 1], seen_frames = {(''test-device'', ''frame-1'')}\<rparr>)"
  using SignEnvelope_authenticated [OF sample_ed_law sample_key_genuine sample_sign sample_laws(1-8)] sample_laws(9) sample_guard
    SignEnvelope_key [OF sample_sign]
  by (simp add: verify_call_def sample_env_def peerCertificateFingerprint_def Verify_accept_iff envelope_key_def)

lemma sample_decoded:
  obtains frame where "decoded sample_unmarshal sample_signed = Some frame"
    "rf_ForegroundApp frame = rf_ForegroundApp sample_frame"
  by (rule that [of "verified_frame sample_signed (snd (bindEnvelopeToFrame sample_signed (sample_frame\<lparr>rf_Sequence := 1\<rparr>)))"])
    (auto simp: decoded_def sample_unmarshal_def bindEnvelopeToFrame_def Let_def sample_signed_fields verified_frame_def
      sample_frame_def zero_RawFrame_def zero_DeviceMetadata_def)

lemma sample_process:
  assumes "rf_ForegroundApp frame = rf_ForegroundApp sample_frame"
  shows "Process now sample_pipeline frame = ((accepted_result now sample_pipeline frame, None), fill_defaults sample_pipeline)"
proof -
  have "admitted sample_pipeline frame"
    using sample_admitted assms by (simp add: admitted_def frame_package_def)
  then have "fst (Process now sample_pipeline frame) = (accepted_result now sample_pipeline frame, None)"
    by (rule Process_accept) (simp add: sample_pipeline_def)
  then show ?thesis using Process_pipeline [of now sample_pipeline frame] by (metis prod.collapse)
qed

lemma sample_accept_valid: "validateSanitizedFrame (res_Frame (accepted_result (\<lambda>_. 1) sample_pipeline frame)) = None"
  by (simp add: validateSanitizedFrame_def accepted_result_def sanitized_frame_def process_clock_def IsZero_def
      sample_pipeline_def NewPipeline_def Let_def)

lemma sample_write_any:
  assumes "validateSanitizedFrame f = None"
  shows "fst (json_sink_write sample_marshal (good_os 0) (sample_sink, Map.empty) f) = None"
  using assms by (simp add: json_sink_write_def storage_eval)

lemma sample_ingest_by:
  assumes v: "fst (verify_call sample_ed v env (is_guard sample_state) sample_signed) = None"
    and env: "ie_sanitizer env = (\<lambda>_. 1)" "ie_sink env = good_os 0"
  shows "accepts (fst (IngestFrame sample_ed sample_unmarshal (service_of v Process (json_sink_write sample_marshal)) env sample_state (Some sample_signed)))"
proof -
  obtain frame where d: "decoded sample_unmarshal sample_signed = Some frame"
    and app: "rf_ForegroundApp frame = rf_ForegroundApp sample_frame" by (rule sample_decoded)
  let ?st = "sample_state\<lparr>is_guard := snd (verify_call sample_ed v env (is_guard sample_state) sample_signed)\<rparr>"
  have p: "Process (ie_sanitizer env) (is_sanitizer ?st) frame =
      ((accepted_result (\<lambda>_. 1) sample_pipeline frame, None), fill_defaults sample_pipeline)"
    using sample_process [OF app, of "\<lambda>_. 1"] by (simp add: env sample_state_def)
  obtain s where w: "json_sink_write sample_marshal (ie_sink env) (is_sink ?st)
      (res_Frame (accepted_result (\<lambda>_. 1) sample_pipeline frame)) = (None, s)"
    using sample_write_any [OF sample_accept_valid, of frame]
    by (auto simp: env sample_state_def prod_eq_iff)
  obtain out st' where sas: "sanitize_and_store Process (json_sink_write sample_marshal) env ?st sample_signed frame = (out, st')"
    by (metis surj_pair)
  from sanitize_and_store_cases(1) [where sanitize = Process and store = "json_sink_write sample_marshal", OF p w sas]
  show ?thesis unfolding IngestFrame_verified [OF v d] sas by simp
qed

lemma sample_ingest:
  "accepts (fst (IngestFrame sample_ed sample_unmarshal sample_service sample_env sample_state (Some sample_signed)))"
  by (rule sample_ingest_by) (use sample_verified in \<open>simp_all add: sample_state_def sample_env_def\<close>)

theorem sink_touched_only_after_checks_witness:
  "is_sink (snd (IngestFrame sample_ed sample_unmarshal sample_service sample_env sample_state (Some sample_signed))) \<noteq> is_sink sample_state \<and>
   authenticated sample_ed (ie_clock sample_env) sample_verifier sample_signed [] \<and>
   (\<exists>g. SQLite_CheckAndRecord (Some \<lparr>sg_db = Some DbOpen\<rparr>) (ie_guard sample_env) (is_guard sample_state)
      ''test-device'' ''frame-1'' 1 = (None, g)) \<and>
   (\<exists>frame. decoded sample_unmarshal sample_signed = Some frame \<and> admitted sample_pipeline frame)"
proof -
  let ?r = "IngestFrame sample_ed sample_unmarshal sample_service sample_env sample_state (Some sample_signed)"
  have ok: "json_sink_ok (is_sink sample_state)"
    by (simp add: json_sink_ok_def sample_state_def sink_wf_def sample_sink_def)
  obtain out st1 where c: "?r = (out, st1)" by (metis surj_pair)
  then have "accepts out" using sample_ingest by simp
  from proxy.ingest_step(3) [OF ok c this] obtain f where "json_sink_holds sample_marshal (is_sink st1) f" by blast
  moreover have "\<not> json_sink_holds sample_marshal (is_sink sample_state) f" for f
    by (simp add: json_sink_holds_def holds_bytes_def contents_def sample_state_def)
  ultimately have touched: "is_sink (snd ?r) \<noteq> is_sink sample_state" using c by auto
  from sink_touched_only_after_checks [OF this] touched show ?thesis
    by (auto simp: sample_laws(9) sample_signed_fields sample_env_def peerCertificateFingerprint_def sample_state_def)
qed

subsection \<open>Errors\<close>

lemma verify_run_fresh:
  assumes "vf_ReplayGuard v = Some (SQLite_CheckAndRecord guard)"
    and "e \<in> set (fst (verify_run ed v db reqs))"
  shows "(se_DeviceID e, se_FrameID e) \<notin> sp_seen (db_abs db) \<and> sp_max (db_abs db) (se_DeviceID e) < se_Sequence e"
proof (cases "vf_Registry v")
  case None
  have "fst (verify_run ed v db reqs) = []"
  proof (induction reqs arbitrary: db)
    case (Cons req reqs)
    obtain now env e peer where req: "req = (now, env, e, peer)" by (cases req)
    from None have "vf_ReplayGuard v = None \<or> vf_Registry v = None" by simp
    from Verify_missing [OF this, of ed now env db e peer] Cons.IH show ?case by (simp add: req)
  qed simp
  with assms(2) show ?thesis by simp
next
  case (Some registry)
  have "envelope_key e \<in> set (fst (guard_run (SQLite_CheckAndRecord guard) db (guard_calls ed v reqs)))"
    using verify_run_guard_run [OF assms(1) Some, of db ed reqs] assms(2) by simp
  then show ?thesis unfolding envelope_key_def by (auto dest: sql.run_fresh)
qed

text \<open>Claim C15: verification consumes a frame. Once the guard has accepted an envelope, no later
  request for the same device and frame, and none of the device with a sequence number that
  is not larger, is ever answered accept, even when the call itself failed afterwards because
  the payload was malformed or the frame could not be stored. A frame whose storage fails is
  therefore lost: sending it again is rejected as a replay.\<close>

theorem consumed_frame_never_accepted:
  assumes "vf_ReplayGuard v = Some (SQLite_CheckAndRecord guard)"
    and "fst (verify_call ed v env (is_guard st) e) = None"
    and "IngestFrame ed Unmarshal (service_of v sanitize store) env st (Some e) = (out, st1)"
  shows "\<not> (\<exists>e'. e' \<in> set (fst (ingest_run ed Unmarshal (service_of v sanitize store) st1 reqs)) \<and>
    se_DeviceID e' = se_DeviceID e \<and> (se_FrameID e' = se_FrameID e \<or> se_Sequence e' \<le> se_Sequence e))"
proof (rule notI, elim exE conjE)
  fix e'
  assume e': "e' \<in> set (fst (ingest_run ed Unmarshal (service_of v sanitize store) st1 reqs))"
    and dev: "se_DeviceID e' = se_DeviceID e" and old: "se_FrameID e' = se_FrameID e \<or> se_Sequence e' \<le> se_Sequence e"
  obtain g where g: "verify_call ed v env (is_guard st) e = (None, g)" using assms(2) by (metis prod.collapse)
  have guard: "is_guard st1 = g" using IngestFrame_guard [of ed Unmarshal v sanitize store env st e] assms(3) g by simp
  from g assms(1) have "SQLite_CheckAndRecord guard (ie_guard env) (is_guard st) (se_DeviceID e) (se_FrameID e) (se_Sequence e) = (None, g)"
    by (simp add: verify_call_def Verify_accept_iff)
  note rec = sql.accept_records [OF this]
  have "subseq (fst (ingest_run ed Unmarshal (service_of v sanitize store) st1 reqs)) (fst (verify_run ed v g (verify_reqs reqs)))"
    using ingest_run_verify_run [of ed Unmarshal v sanitize store st1 reqs] guard by simp
  with e' have "e' \<in> set (fst (verify_run ed v g (verify_reqs reqs)))" by (auto dest: list_emb_set)
  from verify_run_fresh [OF assms(1) this] rec dev old show False by auto
qed

text \<open>The request of the example, sent twice.\<close>

theorem consumed_frame_never_accepted_witness:
  "sample_signed \<notin> set (fst (ingest_run sample_ed sample_unmarshal sample_service
     (snd (IngestFrame sample_ed sample_unmarshal sample_service sample_env sample_state (Some sample_signed)))
     [(sample_env, sample_signed)]))"
proof -
  have v: "fst (verify_call sample_ed sample_verifier sample_env (is_guard sample_state) sample_signed) = None"
    using sample_verified by (simp add: sample_state_def)
  from consumed_frame_never_accepted [OF sample_laws(9) v prod.collapse [symmetric]] show ?thesis by blast
qed










end
