(* ===== verification/Fixtures.thy ===== *)
theory Fixtures
  imports Signing
begin

text \<open>
  \<open>internal/testutil/fixtures.go\<close>: the synthetic key pair, frame and envelope that the
  repository's tests are built on. They serve as the concrete inputs of several theorems.
  The signature scheme and \<open>json.Marshal\<close> are arguments; \<open>t.Fatal\<close> is the error branch.
\<close>

definition fixture_DeviceID :: string where "fixture_DeviceID = ''test-device''"
definition fixture_TrajectoryID :: string where "fixture_TrajectoryID = ''test-trajectory''"
definition AllowedPkg :: string where "AllowedPkg = ''com.android.settings''"
definition SensitivePkg :: string where "SensitivePkg = ''com.example.bank''"

definition KeyPair :: "ed25519 \<Rightarrow> char \<Rightarrow> bytes \<times> bytes" where
  "KeyPair ed seed =
     (let privateKey = ed_NewKeyFromSeed ed (replicate ed_SeedSize seed) in (ed_Public ed privateKey, privateKey))"

text \<open>\<open>time.Date(2026, 5, 31, 12, 0, 0, 0, time.UTC)\<close>.\<close>

definition fixture_time :: time where
  "fixture_time = day_of_civil (2026, 5, 31) * day_ns + 12 * 60 * minute"

lemma fixture_time_value: "fixture_time = 63915825600000000000"
  by (simp add: fixture_time_def day_of_civil_def day_ns_def minute_def second_def)

definition fixture_RawFrame :: "string \<Rightarrow> string \<Rightarrow> u64 \<Rightarrow> string \<Rightarrow> RawFrame" where
  "fixture_RawFrame pkg frameID sequence rawText = \<lparr>
     rf_ProtocolVersion = ''golem.v1'',
     rf_TrajectoryID = fixture_TrajectoryID,
     rf_FrameID = frameID,
     rf_Sequence = sequence,
     rf_EventTimestamp = in_UTC fixture_time,
     rf_Device = \<lparr>
       dm_DeviceID = fixture_DeviceID,
       dm_AndroidSDKVersion = ''35'',
       dm_BuildFingerprintHash = ''sha256:test-build'',
       dm_BuildMetadataRedactionStatus = ''hashed''\<rparr>,
     rf_ForegroundApp = \<lparr>fa_PackageName = pkg, fa_ActivityName = ''SyntheticActivity''\<rparr>,
     rf_UIRoot = RawNode ''root'' \<lparr>b_Left = 0, b_Top = 0, b_Right = 1080, b_Bottom = 1920\<rparr>
       ''android.widget.FrameLayout'' pkg ''sha256:root'' rawText [] [] ''Synthetic root'' [] []
       False True False False False
       [RawNode ''button-1'' \<lparr>b_Left = 10, b_Top = 10, b_Right = 100, b_Bottom = 60\<rparr>
          ''android.widget.Button'' pkg ''sha256:button'' ''Open settings'' [] [] [] [] []
          True True False False False []],
     rf_Intent = zero_IntentMetadata\<lparr>
       im_OperatorIntentID := ''synthetic-intent'',
       im_IntentType := ''open_settings'',
       im_Tags := [''synthetic'']\<rparr>,
     rf_Action = zero_ActionMetadata\<lparr>
       am_ActionID := ''synthetic-action'',
       am_ActionType := ''tap'',
       am_TargetStableNodeID := ''button-1'',
       am_Deterministic := True\<rparr>,
     rf_UISettle = \<lparr>us_Observed = True, us_SettleTimeoutMS = 1000, us_ElapsedMS = 100, us_SettleStatus = ''settled''\<rparr>,
     rf_ScreenshotRef = zero_ScreenshotRef,
     rf_Signature = zero_SignatureMetadata,
     rf_PreStorageRaw = []\<rparr>"

definition fixture_SignedEnvelope ::
  "ed25519 \<Rightarrow> (RawFrame \<Rightarrow> string + bytes) \<Rightarrow> bytes \<Rightarrow> RawFrame \<Rightarrow> time \<Rightarrow> error + SignedEnvelope" where
  "fixture_SignedEnvelope ed Marshal privateKey frame signedAt =
     (case Marshal frame of
        Inl err \<Rightarrow> Inl (ErrOther err)
      | Inr payload \<Rightarrow>
          SignEnvelope ed privateKey \<lparr>
            se_ProtocolVersion = rf_ProtocolVersion frame,
            se_DeviceID = dm_DeviceID (rf_Device frame),
            se_TrajectoryID = rf_TrajectoryID frame,
            se_FrameID = rf_FrameID frame,
            se_Sequence = rf_Sequence frame,
            se_SignedAt = signedAt,
            se_Payload = payload,
            se_DetachedSignature = [],
            se_PayloadSHA256Hex = [],
            se_SignatureAlg = SignatureAlgEd25519,
            se_PublicKeyID = ''test-key'',
            se_ClientCertFingerprintSHA256 = []\<rparr>)"

end
