(* ===== verification/Client.thy ===== *)
theory Client
  imports Ingest Fixtures
begin

text \<open>
  \<open>pkg/client/client.go\<close>, the client library, and its composition with the server: building a
  signed envelope from a frame, sending it, and reading the answer. The connection is an
  argument: a function from the request to a status error or a response that may be nil, with
  its own state. \<open>json.Marshal\<close> on a raw frame is an argument.
\<close>

section \<open>The client library\<close>

record client_Response =
  cr_RequestID :: string
  cr_Decision :: Decision
  cr_ReasonCodes :: "string list"
  cr_SanitizerVersion :: string

definition zero_client_Response :: client_Response where
  "zero_client_Response = \<lparr>cr_RequestID = [], cr_Decision = [], cr_ReasonCodes = [], cr_SanitizerVersion = []\<rparr>"

definition BuildSignedEnvelopeWithKey ::
  "ed25519 \<Rightarrow> (RawFrame \<Rightarrow> string + bytes) \<Rightarrow> bytes \<Rightarrow> time \<Rightarrow> RawFrame \<Rightarrow> string \<Rightarrow> string \<Rightarrow> error + SignedEnvelope" where
  "BuildSignedEnvelopeWithKey ed Marshal privateKey signedAt frame publicKeyID clientCertFingerprintSHA256 =
     (case Marshal frame of
        Inl err \<Rightarrow> Inl (ErrOther err)
      | Inr payload \<Rightarrow>
          let envelope = \<lparr>
            se_ProtocolVersion = rf_ProtocolVersion frame,
            se_DeviceID = dm_DeviceID (rf_Device frame),
            se_TrajectoryID = rf_TrajectoryID frame,
            se_FrameID = rf_FrameID frame,
            se_Sequence = rf_Sequence frame,
            se_SignedAt = signedAt,
            se_Payload = payload,
            se_DetachedSignature = [],
            se_PayloadSHA256Hex = [],
            se_SignatureAlg = SignatureAlgEd25519,
            se_PublicKeyID = publicKeyID,
            se_ClientCertFingerprintSHA256 = clientCertFingerprintSHA256\<rparr>
          in SignEnvelope ed privateKey envelope)"

definition BuildSignedEnvelope ::
  "ed25519 \<Rightarrow> (RawFrame \<Rightarrow> string + bytes) \<Rightarrow> bytes \<Rightarrow> time \<Rightarrow> RawFrame \<Rightarrow> error + SignedEnvelope" where
  "BuildSignedEnvelope ed Marshal privateKey signedAt frame =
     BuildSignedEnvelopeWithKey ed Marshal privateKey signedAt frame [] []"

definition client_ResponseFromProto :: "IngestFrameResponse option \<Rightarrow> client_Response" where
  "client_ResponseFromProto pb =
     (case pb of
        None \<Rightarrow> zero_client_Response
      | Some _ \<Rightarrow> \<lparr>cr_RequestID = GetRequestId pb, cr_Decision = DecisionFromProto (GetDecision pb),
          cr_ReasonCodes = GetReasonCodes pb, cr_SanitizerVersion = GetSanitizerVersion pb\<rparr>)"

datatype client_error = ClientError string | StatusError code string | TransportError

type_synonym ('ts, 's) ingest_rpc =
  "'s \<Rightarrow> 'ts IngestFrameRequest \<Rightarrow> (client_error + IngestFrameResponse option) \<times> 's"

definition client_IngestFrame ::
  "(time \<Rightarrow> 'ts) \<Rightarrow> ('ts, 's) ingest_rpc \<Rightarrow> 's \<Rightarrow> SignedEnvelope option \<Rightarrow> (client_error + client_Response) \<times> 's" where
  "client_IngestFrame NewTs rpc conn envelope =
     (case envelope of
        None \<Rightarrow> (Inl (ClientError ''missing envelope''), conn)
      | Some e \<Rightarrow>
          (case rpc conn \<lparr>rq_Envelope = Some (EnvelopeToProto NewTs e)\<rparr> of
             (Inl err, conn) \<Rightarrow> (Inl err, conn)
           | (Inr pbResp, conn) \<Rightarrow> (Inr (client_ResponseFromProto pbResp), conn)))"

section \<open>A connection to the server\<close>

text \<open>
  A connection that delivers every request to the server's handler and every answer back. A
  panic of the handler ends the server process, and the client sees its connection fail.
\<close>

definition direct_rpc ::
  "ed25519 \<Rightarrow> (bytes \<Rightarrow> string + RawFrame) \<Rightarrow> ('ts \<Rightarrow> time) \<Rightarrow> ('e, 'g, 'n, 'z, 'w, 's) Service \<Rightarrow>
     ('e, 'n, 'w) ingest_env \<Rightarrow> ('ts, ('g, 'z, 's) ingest_state) ingest_rpc" where
  "direct_rpc ed Unmarshal AsTime sv env st req =
     (case GRPC_IngestFrame ed Unmarshal AsTime (Some sv) env st (Some req) of
        (Panicked _, st) \<Rightarrow> (Inl TransportError, st)
      | (Failed c msg, st) \<Rightarrow> (Inl (StatusError c msg), st)
      | (Replied resp, st) \<Rightarrow> (Inr (Some resp), st))"

text \<open>What the client should see of the service's outcome.\<close>

definition seen_decision :: "Decision \<Rightarrow> Decision" where
  "seen_decision d = (if d \<in> {DecisionAccept, DecisionDrop, DecisionQuarantine} then d else [])"

definition seen_by_client :: "Response outcome \<Rightarrow> client_error + client_Response" where
  "seen_by_client out =
     (case out of
        Panicked _ \<Rightarrow> Inl TransportError
      | Failed c msg \<Rightarrow> Inl (StatusError c msg)
      | Replied r \<Rightarrow> Inr \<lparr>cr_RequestID = rp_RequestID r, cr_Decision = seen_decision (rp_Decision r),
          cr_ReasonCodes = rp_ReasonCodes r, cr_SanitizerVersion = rp_SanitizerVersion r\<rparr>)"

lemma DecisionFromProto_ToProto: "DecisionFromProto (DecisionToProto d) = seen_decision d"
  by (simp add: DecisionFromProto_def DecisionToProto_def wire_decision_defs seen_decision_def)

lemma EnvelopeFromProto_ToProto:
  assumes "\<And>t. AsTime (NewTs t) = t"
  shows "EnvelopeFromProto AsTime (Some (EnvelopeToProto NewTs e)) =
    (if IsZero (se_SignedAt e) then Inl (ErrMalformed ''signed_at is required'') else Inr e)"
  by (simp add: EnvelopeFromProto_def EnvelopeToProto_def getter_defs assms)

lemma client_response_seen:
  "Inr (client_ResponseFromProto (Some (ResponseToProto (Some r)))) = seen_by_client (Replied r)"
  by (simp add: client_ResponseFromProto_def ResponseToProto_def getter_defs seen_by_client_def DecisionFromProto_ToProto)

lemma client_IngestFrame_direct:
  assumes "\<And>t. AsTime (NewTs t) = t" and "\<not> IsZero (se_SignedAt e)"
  shows "client_IngestFrame NewTs (direct_rpc ed Unmarshal AsTime sv env) st (Some e) =
    (let (out, st') = IngestFrame ed Unmarshal sv env st (Some e) in (seen_by_client out, st'))"
proof -
  obtain out st' where "IngestFrame ed Unmarshal sv env st (Some e) = (out, st')" by (metis surj_pair)
  then show ?thesis
    using assms
    by (cases out)
      (simp_all add: client_IngestFrame_def direct_rpc_def GRPC_IngestFrame_def envelopeFromProto_def
        EnvelopeFromProto_ToProto GetEnvelope_def client_response_seen, simp_all add: seen_by_client_def)
qed

section \<open>Properties\<close>

text \<open>Claim C18: the wire layer is transparent. Over a connection that delivers requests and answers,
  what the client library returns for an envelope with a signing time is what the service
  computed for that very envelope, status errors and messages included, and the service's
  state is the one the call left; only a decision outside the three named ones reaches the
  client as an empty decision.\<close>

theorem client_sees_service_outcome:
  assumes "\<And>t. AsTime (NewTs t) = t" and "\<not> IsZero (se_SignedAt e)"
  shows "client_IngestFrame NewTs (direct_rpc ed Unmarshal AsTime sv env) st (Some e) =
    (let (out, st') = IngestFrame ed Unmarshal sv env st (Some e) in (seen_by_client out, st'))"
  using assms by (rule client_IngestFrame_direct)

lemma sample_signed_nonzero: "\<not> IsZero (se_SignedAt sample_signed)"
proof -
  obtain sig where eq: "sample_signed = sample_envelope\<lparr>se_SignatureAlg := SignatureAlgEd25519,
      se_PayloadSHA256Hex := HashPayload (se_Payload sample_envelope), se_DetachedSignature := sig\<rparr>"
    using SignEnvelope_Inr(2) [OF sample_sign] by blast
  show ?thesis unfolding eq by (simp add: sample_envelope_def IsZero_def)
qed

theorem client_sees_service_outcome_witness:
  "\<exists>r. fst (client_IngestFrame id (direct_rpc sample_ed sample_unmarshal id sample_service sample_env) sample_state
      (Some sample_signed)) = Inr r \<and> cr_Decision r = DecisionAccept"
proof -
  obtain out st' where c: "IngestFrame sample_ed sample_unmarshal sample_service sample_env sample_state (Some sample_signed) = (out, st')"
    by (metis surj_pair)
  with sample_ingest obtain r where "out = Replied r" "rp_Decision r = DecisionAccept" by (cases out) auto
  with client_sees_service_outcome [of id id sample_signed sample_ed sample_unmarshal sample_service sample_env sample_state]
    sample_signed_nonzero c
  show ?thesis by (simp add: seen_by_client_def seen_decision_def)
qed

section \<open>A frame from the device to the file\<close>

lemma SignEnvelope_same:
  assumes "SignEnvelope ed sk e0 = Inr e"
  shows "se_ProtocolVersion e = se_ProtocolVersion e0" "se_DeviceID e = se_DeviceID e0"
    "se_TrajectoryID e = se_TrajectoryID e0" "se_FrameID e = se_FrameID e0" "se_Sequence e = se_Sequence e0"
    "se_SignedAt e = se_SignedAt e0" "se_Payload e = se_Payload e0" "se_PublicKeyID e = se_PublicKeyID e0"
    "se_ClientCertFingerprintSHA256 e = se_ClientCertFingerprintSHA256 e0"
proof -
  obtain sig where eq: "e = e0\<lparr>se_SignatureAlg := SignatureAlgEd25519,
      se_PayloadSHA256Hex := HashPayload (se_Payload e0), se_DetachedSignature := sig\<rparr>"
    using SignEnvelope_Inr(2) [OF assms] by blast
  show "se_ProtocolVersion e = se_ProtocolVersion e0" "se_DeviceID e = se_DeviceID e0"
    "se_TrajectoryID e = se_TrajectoryID e0" "se_FrameID e = se_FrameID e0" "se_Sequence e = se_Sequence e0"
    "se_SignedAt e = se_SignedAt e0" "se_Payload e = se_Payload e0" "se_PublicKeyID e = se_PublicKeyID e0"
    "se_ClientCertFingerprintSHA256 e = se_ClientCertFingerprintSHA256 e0"
    unfolding eq by simp_all
qed

lemma BuildSignedEnvelopeWithKey_Inr:
  assumes "BuildSignedEnvelopeWithKey ed Marshal sk t frame kid cert = Inr e"
  obtains payload e0 where "Marshal frame = Inr payload" "SignEnvelope ed sk e0 = Inr e"
    "se_DeviceID e0 = dm_DeviceID (rf_Device frame)" "se_FrameID e0 = rf_FrameID frame"
    "se_Sequence e0 = rf_Sequence frame" "se_SignedAt e0 = t" "se_Payload e0 = payload"
    "se_PublicKeyID e0 = kid" "se_ClientCertFingerprintSHA256 e0 = cert"
    "se_SignedAt e = t" "se_Payload e = payload" "bound_to e frame"
proof -
  obtain payload where m: "Marshal frame = Inr payload"
    using assms by (cases "Marshal frame") (simp_all add: BuildSignedEnvelopeWithKey_def)
  define e0 where "e0 = \<lparr>se_ProtocolVersion = rf_ProtocolVersion frame, se_DeviceID = dm_DeviceID (rf_Device frame),
      se_TrajectoryID = rf_TrajectoryID frame, se_FrameID = rf_FrameID frame, se_Sequence = rf_Sequence frame,
      se_SignedAt = t, se_Payload = payload, se_DetachedSignature = [], se_PayloadSHA256Hex = [],
      se_SignatureAlg = SignatureAlgEd25519, se_PublicKeyID = kid, se_ClientCertFingerprintSHA256 = cert\<rparr>"
  have s: "SignEnvelope ed sk e0 = Inr e"
    using assms by (simp add: BuildSignedEnvelopeWithKey_def m e0_def)
  note same = SignEnvelope_same [OF s]
  have f: "se_ProtocolVersion e0 = rf_ProtocolVersion frame" "se_DeviceID e0 = dm_DeviceID (rf_Device frame)"
    "se_TrajectoryID e0 = rf_TrajectoryID frame" "se_FrameID e0 = rf_FrameID frame"
    "se_Sequence e0 = rf_Sequence frame" "se_SignedAt e0 = t" "se_Payload e0 = payload"
    "se_PublicKeyID e0 = kid" "se_ClientCertFingerprintSHA256 e0 = cert"
    by (simp_all add: e0_def)
  have h: "se_SignedAt e = t" "se_Payload e = payload" unfolding same f by simp_all
  have g: "bound_to e frame" unfolding bound_to_def same f by simp
  show ?thesis
    by (rule that [OF m s f(2,4-9) h g])
qed

lemma bound_to_bind:
  assumes "bound_to e frame"
  shows "bindEnvelopeToFrame e frame = (None, frame)"
proof -
  from assms have ids: "se_ProtocolVersion e = rf_ProtocolVersion frame" "se_TrajectoryID e = rf_TrajectoryID frame"
    "se_FrameID e = rf_FrameID frame" "se_Sequence e = rf_Sequence frame" "se_DeviceID e = dm_DeviceID (rf_Device frame)"
    unfolding bound_to_def by simp_all
  show ?thesis unfolding bindEnvelopeToFrame_def ids by simp
qed

text \<open>
  A call with an envelope that a registered device built within the freshness window, whose
  payload the service decodes to the frame that was encoded.
\<close>

lemma built_frame_verified:
  assumes "ed25519_law ed" and "genuine_key ed sk" and "BuildSignedEnvelopeWithKey ed Marshal sk t frame kid cert = Inr e"
    and "Unmarshal (se_Payload e) = Inr frame"
    and "vf_Registry v = Some registry" and "registry (dm_DeviceID (rf_Device frame)) = Some device"
    and "dv_PublicKey device = ed_Public ed sk" and "dv_PublicKeyID device = kid"
    and "cert_bound device e (peerCertificateFingerprint (ie_peer env))"
    and "se_Payload e \<noteq> []" and "int (length (se_Payload e)) \<le> vf_MaxPayloadBytes v"
    and "fresh (effective_ttl (vf_TTL v)) (clock_of (ie_clock env) v) t"
    and "vf_ReplayGuard v = Some check"
    and "check (ie_guard env) (is_guard st) (dm_DeviceID (rf_Device frame)) (rf_FrameID frame) (rf_Sequence frame) = (None, g')"
  shows "IngestFrame ed Unmarshal (service_of v sanitize store) env st (Some e) =
    sanitize_and_store sanitize store env (st\<lparr>is_guard := g'\<rparr>) e (verified_frame e frame)"
proof -
  from assms(3) obtain payload e0 where b: "SignEnvelope ed sk e0 = Inr e"
    "se_DeviceID e0 = dm_DeviceID (rf_Device frame)" "se_FrameID e0 = rf_FrameID frame"
    "se_Sequence e0 = rf_Sequence frame" "se_SignedAt e0 = t" "se_Payload e0 = payload" "se_PublicKeyID e0 = kid"
    "se_ClientCertFingerprintSHA256 e0 = cert" "se_SignedAt e = t" "se_Payload e = payload" "bound_to e frame"
    by (rule BuildSignedEnvelopeWithKey_Inr) blast
  have key: "envelope_key e = (dm_DeviceID (rf_Device frame), rf_FrameID frame, rf_Sequence frame)"
    using SignEnvelope_key [OF b(1)] b(2-4) by (simp add: envelope_key_def)
  have cert: "cert_bound device e0 (peerCertificateFingerprint (ie_peer env))"
    using assms(9) SignEnvelope_same(9) [OF b(1)] by (simp add: cert_bound_def)
  have "authenticated ed (ie_clock env) v e (peerCertificateFingerprint (ie_peer env))"
    by (rule SignEnvelope_authenticated [OF assms(1,2) b(1) assms(5)])
      (use assms(6-8,10-12) b cert in \<open>simp_all only: simp_thms\<close>)
  then have ver: "verify_call ed v env (is_guard st) e = (None, g')"
    using assms(13,14) key by (simp add: verify_call_def Verify_accept_iff envelope_key_def)
  have dec: "decoded Unmarshal e = Some (verified_frame e frame)"
    using assms(4) b(11) by (simp add: decoded_def bound_to_bind)
  show ?thesis using IngestFrame_verified [where sanitize = sanitize and store = store, OF _ dec, of ed v env st] ver by simp
qed

text \<open>The rest of the call for a frame that the pipeline accepts and the sink stores, and for one of a sensitive package.\<close>

lemma stored_after_check:
  assumes "admitted (is_sanitizer st) frame" and "sanitizable (is_sanitizer st) frame"
    and "store (ie_sink env) (is_sink st)
           (res_Frame (accepted_result (ie_sanitizer env) (is_sanitizer st) (verified_frame e frame))) = (None, s)"
  shows "\<exists>r st'. sanitize_and_store Process store env (st\<lparr>is_guard := g'\<rparr>) e (verified_frame e frame) = (Replied r, st') \<and>
    rp_Decision r = DecisionAccept \<and> rp_RequestID r = safeRequestID e \<and> is_sink st' = s \<and> is_guard st' = g' \<and>
    is_sanitizer st' = fill_defaults (is_sanitizer st)"
proof -
  let ?frame = "verified_frame e frame"
  let ?res = "accepted_result (ie_sanitizer env) (is_sanitizer st) ?frame"
  have adm: "admitted (is_sanitizer st) ?frame" "sanitizable (is_sanitizer st) ?frame"
    using assms(1,2) by (simp_all add: admitted_def sanitizable_def frame_package_def verified_frame_def)
  have "Process (ie_sanitizer env) (is_sanitizer st) ?frame = ((?res, None), fill_defaults (is_sanitizer st))"
    using Process_accept [OF adm] Process_pipeline by (metis prod.collapse)
  moreover have "res_Decision ?res = DecisionAccept" by (simp add: accepted_result_def Let_def)
  ultimately show ?thesis using assms(3) by (simp add: sanitize_and_store_def log_st_def)
qed

lemma quarantined_after_check:
  assumes "pl_SensitivePackages (is_sanitizer st) (frame_package frame) = Some reason" and "frame_package frame \<noteq> []"
  shows "\<exists>r st'. sanitize_and_store Process store env (st\<lparr>is_guard := g'\<rparr>) e (verified_frame e frame) = (Replied r, st') \<and>
    rp_Decision r = DecisionQuarantine \<and> rp_RequestID r = safeRequestID e \<and> is_sink st' = is_sink st \<and> is_guard st' = g'"
proof -
  let ?frame = "verified_frame e frame"
  have pkg: "frame_package ?frame = frame_package frame" by (simp add: frame_package_def verified_frame_def)
  let ?res = "quarantine (fill_defaults (is_sanitizer st)) zero_RedactionReport ''sensitive_package'' reason"
  have "fst (Process (ie_sanitizer env) (is_sanitizer st) ?frame) = (?res, None)"
    using assms by (simp add: Process_refused admitted_def pkg)
  then obtain z where "Process (ie_sanitizer env) (is_sanitizer st) ?frame = ((?res, None), z)" by (metis prod.collapse)
  moreover have "res_Decision ?res = DecisionQuarantine" by (simp add: quarantine_def Let_def)
  ultimately show ?thesis
    by (simp add: sanitize_and_store_def log_st_def DecisionQuarantine_def DecisionAccept_def)
qed

lemma built_frame_accepted:
  assumes "ed25519_law ed" and "genuine_key ed sk" and "BuildSignedEnvelopeWithKey ed Marshal sk t frame kid cert = Inr e"
    and "Unmarshal (se_Payload e) = Inr frame"
    and "vf_Registry v = Some registry" and "registry (dm_DeviceID (rf_Device frame)) = Some device"
    and "dv_PublicKey device = ed_Public ed sk" and "dv_PublicKeyID device = kid"
    and "cert_bound device e (peerCertificateFingerprint (ie_peer env))"
    and "se_Payload e \<noteq> []" and "int (length (se_Payload e)) \<le> vf_MaxPayloadBytes v"
    and "fresh (effective_ttl (vf_TTL v)) (clock_of (ie_clock env) v) t"
    and "vf_ReplayGuard v = Some check"
    and "check (ie_guard env) (is_guard st) (dm_DeviceID (rf_Device frame)) (rf_FrameID frame) (rf_Sequence frame) = (None, g')"
    and "admitted (is_sanitizer st) frame" and "sanitizable (is_sanitizer st) frame"
    and "store (ie_sink env) (is_sink st)
           (res_Frame (accepted_result (ie_sanitizer env) (is_sanitizer st) (verified_frame e frame))) = (None, s)"
  shows "\<exists>r st'. IngestFrame ed Unmarshal (service_of v Process store) env st (Some e) = (Replied r, st') \<and>
    rp_Decision r = DecisionAccept \<and> rp_RequestID r = safeRequestID e \<and> is_sink st' = s"
  using built_frame_verified [where Unmarshal = Unmarshal and registry = registry and check = check, OF assms(1-14), of Process store]
    stored_after_check [where store = store, OF assms(15-17), of g'] by auto

text \<open>The test fixtures' frame.\<close>

definition fixture_frame :: RawFrame where
  "fixture_frame = fixture_RawFrame AllowedPkg ''frame-1'' 1 ''Settings''"

lemma fixture_frame_simps:
  "dm_DeviceID (rf_Device fixture_frame) = ''test-device''" "rf_FrameID fixture_frame = ''frame-1''" "rf_Sequence fixture_frame = 1"
  "rf_ProtocolVersion fixture_frame \<noteq> []" "rf_TrajectoryID fixture_frame \<noteq> []"
  by (simp_all add: fixture_frame_def fixture_RawFrame_def fixture_DeviceID_def fixture_TrajectoryID_def)

lemma build_succeeds:
  assumes "Marshal frame = Inr payload" and "length sk = ed_PrivateKeySize"
    and "rf_ProtocolVersion frame \<noteq> []" and "dm_DeviceID (rf_Device frame) \<noteq> []" and "rf_TrajectoryID frame \<noteq> []" and "rf_FrameID frame \<noteq> []"
  obtains e where "BuildSignedEnvelopeWithKey ed Marshal sk t frame kid cert = Inr e"
    "se_Payload e = payload" "se_SignedAt e = t" "se_ClientCertFingerprintSHA256 e = cert"
proof -
  obtain e where b: "BuildSignedEnvelopeWithKey ed Marshal sk t frame kid cert = Inr e"
    using assms by (simp add: BuildSignedEnvelopeWithKey_def SignEnvelope_def CanonicalBytes_def SignatureAlgEd25519_def)
  have "se_Payload e = payload" "se_SignedAt e = t" "se_ClientCertFingerprintSHA256 e = cert"
    using b assms(1) by (auto elim!: BuildSignedEnvelopeWithKey_Inr simp: SignEnvelope_same)
  with b show thesis by (rule that)
qed

lemma fixture_built:
  assumes "Marshal fixture_frame = Inr payload"
  obtains e where "BuildSignedEnvelopeWithKey sample_ed Marshal sample_key fixture_time fixture_frame ''test-key'' [] = Inr e"
    "se_ClientCertFingerprintSHA256 e = []"
proof -
  have key: "length sample_key = ed_PrivateKeySize" by (simp add: sample_key_def ed_PrivateKeySize_def)
  obtain e where "BuildSignedEnvelopeWithKey sample_ed Marshal sample_key fixture_time fixture_frame ''test-key'' [] = Inr e"
    "se_Payload e = payload" "se_SignedAt e = fixture_time" "se_ClientCertFingerprintSHA256 e = []"
    by (rule build_succeeds [where Marshal = Marshal and ed = sample_ed and t = fixture_time and kid = "''test-key''" and cert = "[]",
      OF assms key]) (simp_all add: fixture_frame_simps)
  with that show thesis by blast
qed

lemma fixture_admitted: "admitted (is_sanitizer sample_state) fixture_frame" "sanitizable (is_sanitizer sample_state) fixture_frame"
  using sample_admitted
  by (simp_all add: sample_state_def admitted_def frame_package_def fixture_frame_def fixture_RawFrame_def AllowedPkg_def
      sample_frame_def sample_pipeline_def)

end
