(* ===== verification/Json_Service.thy ===== *)
theory Json_Service
  imports Json_Store Client
begin

text \<open>
  The service with \<open>encoding/json\<close> at both ends: \<open>json.Unmarshal\<close> of the payload and
  \<open>json.Marshal\<close> of the sanitized frame. The main results are that the frame a client encodes is
  the frame the service decodes, that what an accepted call stores reads back as the sanitized
  frame, and what happens to a frame whose timestamp can be decoded but not encoded.
\<close>

section \<open>Sanitized frames are valid text\<close>

lemma digits_ascii: "\<forall>c\<in>set s. is_digit c \<Longrightarrow> ascii s"
  by (auto simp: ascii_def list_all_iff is_digit_def byte_val_nat)

lemma hex_ascii: "\<forall>c\<in>set s. is_hex_digit c \<Longrightarrow> ascii s"
  by (fastforce simp: ascii_def list_all_iff is_hex_digit_def is_digit_def byte_val_nat)

lemma EncodeToString_ascii: "ascii (EncodeToString bs)"
  by (auto intro!: hex_ascii dest: EncodeToString_set)

lemma strip_all_set: "set (strip_all encs s) \<subseteq> set s"
proof (induction encs s rule: strip_all.induct)
  case (1 encs s)
  then show ?case by (subst strip_all.simps) (auto split: option.split dest: in_set_dropD)
qed

lemma TrimSpace_set: "set (TrimSpace s) \<subseteq> set s"
  unfolding TrimSpace_def using strip_all_set by (metis set_rev subset_trans)

lemma unique_ascii: "\<forall>s\<in>set vals. ascii s \<Longrightarrow> list_all valid_utf8 (unique vals)"
  using TrimSpace_set by (fastforce simp: list_all_iff set_unique ascii_def intro!: ascii_valid)

lemma strconvI_ascii: "0 \<le> i \<Longrightarrow> ascii (strconvI i)"
  by (auto simp: strconvI_eq intro!: digits_ascii dest: format_dec_digits)

lemma field_texts_ascii:
  shows "ascii path \<Longrightarrow> ft \<in> set (field_texts path n) \<Longrightarrow> ascii (fst ft)"
    and "ascii path \<Longrightarrow> 0 \<le> i \<Longrightarrow> ft \<in> set (child_texts path i cs) \<Longrightarrow> ascii (fst ft)"
  by (induction path n and path i cs rule: field_texts_child_texts.induct) (auto simp: strconvI_ascii)

lemma text_matches_ascii:
  assumes "s \<in> set (text_matches raw)"
  shows "ascii s"
proof -
  have "list_all ascii (map fst pii_patterns)" by (simp add: pii_patterns_def)
  moreover have "s \<in> set (map fst pii_patterns)" using assms by (auto simp: text_matches_def)
  ultimately show ?thesis by (simp only: list_all_iff)
qed

lemma text_rules_ascii: "s \<in> text_rules ner raw \<Longrightarrow> ascii s"
  by (auto simp: text_rules_def text_matches_ascii split: if_splits)

lemma text_reasons_ascii: "s \<in> set (text_reasons ner raw) \<Longrightarrow> ascii s"
  by (auto simp: text_reasons_def text_matches_ascii split: if_splits)

lemma final_report_valid:
  "list_all valid_utf8 (rr_RulesApplied (final_report ner (field_texts ''ui_root'' n) b))"
  "list_all valid_utf8 (rr_FieldsDropped (final_report ner (field_texts ''ui_root'' n) b))"
  "list_all valid_utf8 (rr_ReasonCodes (final_report ner (field_texts ''ui_root'' n) b))"
proof -
  have fin: "finite (\<Union>ft \<in> set (field_texts ''ui_root'' n). text_rules ner (snd ft))"
    by (auto simp: text_rules_def)
  have "s = fst ft" if "s \<in> set (text_dropped ner ft)" for s ft
    using that by (auto simp: text_dropped_def Let_def split: prod.splits if_splits)
  then have "ascii s" if "ft \<in> set (field_texts ''ui_root'' n)" "s \<in> set (text_dropped ner ft)" for s ft
    using that field_texts_ascii(1) [of "''ui_root''" ft n] by auto
  then show "list_all valid_utf8 (rr_RulesApplied (final_report ner (field_texts ''ui_root'' n) b))"
    "list_all valid_utf8 (rr_FieldsDropped (final_report ner (field_texts ''ui_root'' n) b))"
    "list_all valid_utf8 (rr_ReasonCodes (final_report ner (field_texts ''ui_root'' n) b))"
    using fin by (auto simp: final_report_def text_rules_ascii text_reasons_ascii intro!: unique_ascii)
qed

lemma text_view_valid: "valid_utf8 (fst (text_view ner raw))" "valid_utf8 (snd (text_view ner raw))"
  by (auto simp: text_view_def status_defs sha256_hex_def EncodeToString_ascii intro!: ascii_valid)

lemma clean_node_valid: "list_all valid_RawNode (raw_nodes n) \<Longrightarrow> list_all valid_SanitizedNode (sanitized_nodes (clean_node ner n))"
proof (induction n)
  case (RawNode i b c p r t th ts d dh ds k e f s h cs)
  then show ?case by (auto simp: list_all_iff valid_RawNode_def valid_SanitizedNode_def text_view_valid)
qed

lemma clean_node_height [simp]: "sanitized_height (clean_node ner n) = raw_height n"
proof (induction n)
  case (RawNode i b c p r t th ts d dh ds k e f s h cs)
  then show ?case by (simp add: comp_def cong: map_cong)
qed

text \<open>A pipeline whose version and redaction boxes are valid text.\<close>

definition pipeline_text :: "Pipeline \<Rightarrow> bool" where
  "pipeline_text p \<longleftrightarrow> valid_utf8 (pl_Version p) \<and>
     (\<forall>ref boxes. pipeline_vision p ref = Inr boxes \<longrightarrow> list_all valid_RedactionBox boxes)"

lemma accepted_text:
  assumes "text_RawFrame frame" and "pipeline_text p" and "sanitizable p frame"
    and "json_timestamp (rf_EventTimestamp frame)" and "json_timestamp (in_UTC (process_clock now p))"
  shows "valid_SanitizedFrame (res_Frame (accepted_result now p frame))"
proof -
  obtain boxes where boxes: "pipeline_vision p (rf_ScreenshotRef frame) = Inr boxes"
    using assms(3) by (auto simp: sanitizable_def is_ok_iff)
  then have "list_all valid_RedactionBox boxes" using assms(2) by (auto simp: pipeline_text_def)
  then have shot: "valid_ScreenshotRef (sanitized_screenshot (rf_ScreenshotRef frame) boxes)"
    using assms(1) by (simp add: text_RawFrame_def valid_ScreenshotRef_def sanitized_screenshot_def Let_def ascii_valid)
  have ver: "valid_utf8 (pl_Version (fill_defaults p))"
    using assms(2) by (simp add: fill_defaults_def pipeline_text_def DefaultVersion_def Let_def ascii_valid)
  have lits: "valid_utf8 DecisionAccept" "valid_utf8 ''package_allowlisted''" "valid_utf8 ''verified''"
    by (simp_all add: DecisionAccept_def ascii_valid)
  note node = clean_node_valid [of "rf_UIRoot frame" "pipeline_ner p"]
  show ?thesis
    using assms(1,4,5) shot ver lits node final_report_valid
    by (simp add: valid_SanitizedFrame_def text_RawFrame_def accepted_result_def Let_def sanitized_frame_def boxes
        valid_DeviceMetadata_def valid_DecisionMetadata_def valid_SanitizerMetadata_def valid_SignatureMetadata_def)
qed


section \<open>What an accepted call stores\<close>

text \<open>The strings of an envelope that came as protobuf strings, which are valid UTF-8.\<close>

definition envelope_text :: "SignedEnvelope \<Rightarrow> bool" where
  "envelope_text e \<longleftrightarrow> list_all valid_utf8 [se_ProtocolVersion e, se_DeviceID e, se_TrajectoryID e, se_FrameID e,
     se_SignatureAlg e, se_PublicKeyID e, se_PayloadSHA256Hex e]"

lemma bindEnvelopeToFrame_text:
  assumes "bindEnvelopeToFrame e frame = (err, frame')" and "envelope_text e" and "text_RawFrame frame"
  shows "text_RawFrame frame'" "rf_UIRoot frame' = rf_UIRoot frame"
proof -
  define f1 where "f1 = (if rf_ProtocolVersion frame = [] then frame\<lparr>rf_ProtocolVersion := se_ProtocolVersion e\<rparr> else frame)"
  define f2 where "f2 = (if rf_TrajectoryID f1 = [] then f1\<lparr>rf_TrajectoryID := se_TrajectoryID e\<rparr> else f1)"
  define f3 where "f3 = (if rf_FrameID f2 = [] then f2\<lparr>rf_FrameID := se_FrameID e\<rparr> else f2)"
  define f4 where "f4 = (if dm_DeviceID (rf_Device f3) = [] then f3\<lparr>rf_Device := (rf_Device f3)\<lparr>dm_DeviceID := se_DeviceID e\<rparr>\<rparr> else f3)"
  have f4: "frame' = f4"
    using assms(1) unfolding bindEnvelopeToFrame_def Let_def f1_def [symmetric] f2_def [symmetric] f3_def [symmetric] f4_def [symmetric]
    by (auto split: if_splits)
  have e: "valid_utf8 (se_ProtocolVersion e)" "valid_utf8 (se_TrajectoryID e)" "valid_utf8 (se_FrameID e)" "valid_utf8 (se_DeviceID e)"
    using assms(2) by (simp_all add: envelope_text_def)
  have 1: "text_RawFrame f1" "rf_UIRoot f1 = rf_UIRoot frame" using assms(3) e by (simp_all add: f1_def text_RawFrame_def)
  have 2: "text_RawFrame f2" "rf_UIRoot f2 = rf_UIRoot frame" using 1 e by (simp_all add: f2_def text_RawFrame_def)
  have 3: "text_RawFrame f3" "rf_UIRoot f3 = rf_UIRoot frame" using 2 e by (simp_all add: f3_def text_RawFrame_def)
  show "text_RawFrame frame'" "rf_UIRoot frame' = rf_UIRoot frame"
    using 3 e by (simp_all add: f4 f4_def text_RawFrame_def valid_DeviceMetadata_def)
qed

lemma verified_frame_text:
  assumes "text_RawFrame frame" and "envelope_text e"
  shows "text_RawFrame (verified_frame e frame)"
  using assms by (simp add: verified_frame_def text_RawFrame_def envelope_text_def valid_SignatureMetadata_def ascii_valid)

lemma decoded_frame_text:
  assumes "decoded RawFrame_Unmarshal e = Some frame" and "envelope_text e"
  shows "text_RawFrame frame" "\<exists>f. RawFrame_Unmarshal (se_Payload e) = Inr f \<and> rf_UIRoot frame = rf_UIRoot f"
proof -
  from assms(1) obtain f f' where f: "RawFrame_Unmarshal (se_Payload e) = Inr f" "bindEnvelopeToFrame e f = (None, f')"
    "frame = verified_frame e f'"
    by (auto simp: decoded_def split: sum.splits prod.splits option.splits)
  note b = bindEnvelopeToFrame_text [OF f(2) assms(2) decoded_text [OF f(1)]]
  show "text_RawFrame frame" unfolding f(3) by (rule verified_frame_text [OF b(1) assms(2)])
  show "\<exists>f. RawFrame_Unmarshal (se_Payload e) = Inr f \<and> rf_UIRoot frame = rf_UIRoot f"
    using f b(2) by (auto simp: verified_frame_def)
qed

text \<open>The service of the program, with its JSON functions.\<close>

abbreviation json_service :: "('e, 'g) Verifier \<Rightarrow> ('e, 'g, nat \<Rightarrow> time, Pipeline, os_env, JSONLSink \<times> fs) Service" where
  "json_service v \<equiv> service_of v Process (json_sink_write SanitizedFrame_Marshal)"

lemma finished_call:
  assumes "finish_call Unmarshal Process (json_sink_write SanitizedFrame_Marshal) env st e = (out, st')" and "accepts out"
  obtains frame where "decoded Unmarshal e = Some frame" "sanitizable (is_sanitizer st) frame"
    "json_sink_write SanitizedFrame_Marshal (ie_sink env) (is_sink st)
       (res_Frame (accepted_result (ie_sanitizer env) (is_sanitizer st) frame)) = (None, is_sink st')"
proof -
  let ?store = "json_sink_write SanitizedFrame_Marshal"
  obtain frame where d: "decoded Unmarshal e = Some frame"
    using finish_call_undecoded(1) [of Unmarshal e Process ?store env st] assms by (cases "decoded Unmarshal e") auto
  have sas: "sanitize_and_store Process ?store env st e frame = (out, st')"
    using finish_call_decoded [OF d, of Process ?store env st] assms(1) by simp
  obtain res err z where z: "Process (ie_sanitizer env) (is_sanitizer st) frame = ((res, err), z)" by (metis surj_pair)
  obtain werr s where w: "?store (ie_sink env) (is_sink st) (res_Frame res) = (werr, s)" by (metis surj_pair)
  note cs = sanitize_and_store_cases [where sanitize = Process and store = ?store, OF z w sas]
  have ok: "err = None" "res_Decision res = DecisionAccept" "werr = None" using cs(1) assms(2) by auto
  have dec: "res_Decision (fst (fst (Process (ie_sanitizer env) (is_sanitizer st) frame))) = DecisionAccept"
    using z ok by simp
  note acc = Process_accepted [OF dec]
  have "res = accepted_result (ie_sanitizer env) (is_sanitizer st) frame" using acc(3) z by simp
  with w ok cs(2) that [OF d acc(2)] show thesis by simp
qed

text \<open>
  Envelopes whose frame reads back: the strings are valid UTF-8, as protobuf strings are, and
  the tree is not deeper than the decoder allows.
\<close>

definition readable_call :: "SignedEnvelope \<Rightarrow> bool" where
  "readable_call e \<longleftrightarrow> envelope_text e \<and>
     (\<forall>f. RawFrame_Unmarshal (se_Payload e) = Inr f \<longrightarrow> 2 * raw_height (rf_UIRoot f) < maxNestingDepth)"

lemma finished_line_reads_back:
  assumes "finish_call RawFrame_Unmarshal Process (json_sink_write SanitizedFrame_Marshal) env st e = (out, st')" and "accepts out"
    and "json_sink_ok (is_sink st)" and "json_active_whole (is_sink st)" and "readable_call e" and "pipeline_text (is_sanitizer st)"
  shows "\<exists>f line. stored_for e f \<and> SanitizedFrame_Marshal f = Inr line \<and> holds_line (snd (is_sink st')) line \<and>
    SanitizedFrame_Unmarshal line = Inr f"
proof -
  from assms(1,2) obtain frame where d: "decoded RawFrame_Unmarshal e = Some frame" and san: "sanitizable (is_sanitizer st) frame"
    and w: "json_sink_write SanitizedFrame_Marshal (ie_sink env) (is_sink st)
       (res_Frame (accepted_result (ie_sanitizer env) (is_sanitizer st) frame)) = (None, is_sink st')"
    by (rule finished_call)
  have et: "envelope_text e" using assms(5) by (simp add: readable_call_def)
  define f where "f = res_Frame (accepted_result (ie_sanitizer env) (is_sanitizer st) frame)"
  obtain line where line: "SanitizedFrame_Marshal f = Inr line" "holds_line (snd (is_sink st')) line"
    using json_write_line [OF assms(3,4) w] by (auto simp: f_def json_sink_line_def)
  have "is_ok (SanitizedFrame_Marshal f)" using line(1) by simp
  then have ts: "json_timestamp (rf_EventTimestamp frame)" "json_timestamp (in_UTC (process_clock (ie_sanitizer env) (is_sanitizer st)))"
    by (simp_all add: SanitizedFrame_Marshal_ok_iff f_def accepted_result_def Let_def sanitized_frame_def)
  have "valid_SanitizedFrame f"
    unfolding f_def by (rule accepted_text [OF decoded_frame_text(1) [OF d et] assms(6) san ts])
  moreover have "2 * sanitized_height (sf_UIRoot f) < maxNestingDepth"
    using decoded_frame_text(2) [OF d et] assms(5)
    by (auto simp: f_def accepted_result_def Let_def sanitized_frame_def readable_call_def)
  ultimately have "SanitizedFrame_Unmarshal line = Inr f" using line(1) by (simp add: readable_line readable_def)
  moreover have "stored_for e f"
    by (rule decoded_stored_for [OF d]) (simp add: f_def carries_identity_def accepted_result_def Let_def sanitized_frame_def)
  ultimately show ?thesis using line by blast
qed

text \<open>What one call stores can be read. When a call is accepted and the sink's file ended with a line
  break, the files have the line of a sanitized frame with the identifiers of the envelope, and parsing that line gives exactly
  that frame, with every string, number, time and tree node in place.\<close>

lemma accepted_line_reads_back:
  assumes "IngestFrame ed RawFrame_Unmarshal (json_service v) env st (Some e) = (out, st')" and "accepts out"
    and "json_sink_ok (is_sink st)" and "json_active_whole (is_sink st)" and "readable_call e" and "pipeline_text (is_sanitizer st)"
  shows "\<exists>f line. stored_for e f \<and> holds_line (snd (is_sink st')) line \<and> SanitizedFrame_Unmarshal line = Inr f"
proof -
  obtain r g where v: "verify_call ed v env (is_guard st) e = (r, g)" by (metis surj_pair)
  have "r = None"
    using IngestFrame_unverified(1) [of ed v env st e RawFrame_Unmarshal Process "json_sink_write SanitizedFrame_Marshal"] assms(1,2) v by force
  with assms(1) v have "finish_call RawFrame_Unmarshal Process (json_sink_write SanitizedFrame_Marshal) env (st\<lparr>is_guard := g\<rparr>) e = (out, st')"
    by (simp add: IngestFrame_split)
  from finished_line_reads_back [OF this assms(2)] assms(3-6) show ?thesis by (auto simp: json_active_whole_def)
qed


section \<open>From the client to the file and back\<close>

lemma RawFrame_Marshal_ne: "RawFrame_Marshal f = Inr payload \<Longrightarrow> payload \<noteq> []"
  by (auto simp: RawFrame_Marshal_def RawFrame_codec_def struct_codec_def split: option.splits)

lemma built_envelope_text:
  assumes "BuildSignedEnvelopeWithKey ed Marshal sk t frame kid cert = Inr e" and "valid_utf8 kid"
  shows "valid_SignatureMetadata (rf_Signature (verified_frame e frame))"
proof -
  from assms(1) obtain payload e0 where b: "SignEnvelope ed sk e0 = Inr e" "se_PublicKeyID e0 = kid"
    by (rule BuildSignedEnvelopeWithKey_Inr) blast
  obtain sig where "e = e0\<lparr>se_SignatureAlg := SignatureAlgEd25519, se_PayloadSHA256Hex := HashPayload (se_Payload e0), se_DetachedSignature := sig\<rparr>"
    using SignEnvelope_Inr(2) [OF b(1)] by blast
  then show ?thesis using assms(2) b(2)
    by (simp add: verified_frame_def valid_SignatureMetadata_def SignatureAlgEd25519_def HashPayload_def ascii_valid EncodeToString_ascii)
qed

text \<open>Claim C7: a frame makes it from the device into the file and can be read there. A client
  encodes a frame whose strings are valid UTF-8, whose time can be written, in a zone of whole
  minutes, and whose tree is not deeper than the decoder allows, builds an envelope with the key of a registered device, a
  key that \<open>ed25519\<close> made (its key id and certificate included), and sends it within the
  freshness window. Then it receives an accept, and one of the lines of the proxy's files
  parses to the sanitized frame, provided that the payload is within the limit, the guard
  accepts the frame (it has recorded neither the frame nor a later sequence and its database
  does not fail), the application is allowed, the entity recogniser and the screenshot redactor
  do not fail, the sink's file ended with a line break, and the write succeeds. In particular
  the service decodes the payload to the frame the client encoded.\<close>

theorem client_frame_stored:
  assumes "ed25519_law ed" and "genuine_key ed sk" and "\<And>t. AsTime (NewTs t) = t"
    and "BuildSignedEnvelopeWithKey ed RawFrame_Marshal sk t frame kid cert = Inr e"
    and "valid_RawFrame frame" and "2 * raw_height (rf_UIRoot frame) < maxNestingDepth" and "valid_utf8 kid"
    and "vf_Registry v = Some registry" and "registry (dm_DeviceID (rf_Device frame)) = Some device"
    and "dv_PublicKey device = ed_Public ed sk" and "dv_PublicKeyID device = kid"
    and "cert_bound device e (peerCertificateFingerprint (ie_peer env))"
    and "int (length (se_Payload e)) \<le> vf_MaxPayloadBytes v"
    and "fresh (effective_ttl (vf_TTL v)) (clock_of (ie_clock env) v) t"
    and "vf_ReplayGuard v = Some check"
    and "check (ie_guard env) (is_guard st) (dm_DeviceID (rf_Device frame)) (rf_FrameID frame) (rf_Sequence frame) = (None, g')"
    and "admitted (is_sanitizer st) frame" and "sanitizable (is_sanitizer st) frame" and "pipeline_text (is_sanitizer st)"
    and "json_sink_ok (is_sink st)" and "json_active_whole (is_sink st)"
    and "fst (json_sink_write SanitizedFrame_Marshal (ie_sink env) (is_sink st)
           (res_Frame (accepted_result (ie_sanitizer env) (is_sanitizer st) (verified_frame e frame)))) = None"
  shows "\<exists>r st'. client_IngestFrame NewTs (direct_rpc ed RawFrame_Unmarshal AsTime (json_service v) env) st (Some e) = (Inr r, st') \<and>
      cr_Decision r = DecisionAccept \<and> cr_RequestID r = safeRequestID e \<and>
      (\<exists>c\<in>contents (snd (is_sink st')).
         written_frame c (res_Frame (accepted_result (ie_sanitizer env) (is_sanitizer st) (verified_frame e frame))))"
proof -
  let ?f = "res_Frame (accepted_result (ie_sanitizer env) (is_sanitizer st) (verified_frame e frame))"
  from assms(4) obtain payload where m: "RawFrame_Marshal frame = Inr payload" "se_Payload e = payload" and t: "se_SignedAt e = t"
    by (rule BuildSignedEnvelopeWithKey_Inr) blast
  have u: "RawFrame_Unmarshal (se_Payload e) = Inr frame"
    using RawFrame_roundtrip [OF assms(5,6)] m by auto
  have ne: "se_Payload e \<noteq> []" using RawFrame_Marshal_ne m by blast
  obtain s where w: "json_sink_write SanitizedFrame_Marshal (ie_sink env) (is_sink st) ?f = (None, s)"
    using assms(22) by (metis prod.collapse)
  from built_frame_accepted [where Unmarshal = RawFrame_Unmarshal and registry = registry and check = check
      and store = "json_sink_write SanitizedFrame_Marshal", OF assms(1,2,4) u assms(8-12) ne assms(13-18) w]
  obtain r st' where call: "IngestFrame ed RawFrame_Unmarshal (json_service v) env st (Some e) = (Replied r, st')"
    "rp_Decision r = DecisionAccept" "rp_RequestID r = safeRequestID e" "is_sink st' = s" by blast
  obtain line where line: "SanitizedFrame_Marshal ?f = Inr line" "holds_line (snd s) line"
    using json_write_line [OF assms(20,21) w] by (auto simp: json_sink_line_def)
  have "is_ok (SanitizedFrame_Marshal ?f)" using line(1) by simp
  then have ts: "json_timestamp (rf_EventTimestamp (verified_frame e frame))"
    "json_timestamp (in_UTC (process_clock (ie_sanitizer env) (is_sanitizer st)))"
    by (simp_all add: SanitizedFrame_Marshal_ok_iff accepted_result_def Let_def sanitized_frame_def)
  have vt: "text_RawFrame (verified_frame e frame)"
    using assms(5) built_envelope_text [OF assms(4,7)] by (simp add: verified_frame_def valid_RawFrame_def text_RawFrame_def)
  have san: "sanitizable (is_sanitizer st) (verified_frame e frame)" using assms(18) by (simp add: sanitizable_def verified_frame_def)
  have "readable ?f"
    using accepted_text [OF vt assms(19) san ts] assms(6)
    by (simp add: readable_def accepted_result_def Let_def sanitized_frame_def verified_frame_def)
  then have "SanitizedFrame_Unmarshal line = Inr ?f" using line(1) by (rule readable_line)
  note held_line_written [OF line(2,1) this]
  moreover have "\<not> IsZero (se_SignedAt e)" using assms(14) t by (simp add: fresh_def IsZero_def)
  ultimately show ?thesis
    unfolding client_IngestFrame_direct [of AsTime NewTs, OF assms(3) \<open>\<not> IsZero (se_SignedAt e)\<close>] call(1)
    using call(2-4) by (auto simp: seen_by_client_def seen_decision_def)
qed

lemma fixture_frame_valid: "valid_RawFrame fixture_frame" "raw_height (rf_UIRoot fixture_frame) = 2"
proof -
  have "json_timestamp (in_UTC fixture_time)" unfolding fixture_time_value by code_simp
  then show "valid_RawFrame fixture_frame"
    by (simp add: valid_RawFrame_def text_RawFrame_def fixture_frame_def fixture_RawFrame_def in_UTC_def AllowedPkg_def
        fixture_TrajectoryID_def fixture_DeviceID_def valid_DeviceMetadata_def valid_ForegroundApp_def valid_RawNode_def
        valid_IntentMetadata_def valid_ActionMetadata_def valid_UISettleMetadata_def valid_ScreenshotRef_def valid_SignatureMetadata_def
        zero_IntentMetadata_def zero_ActionMetadata_def zero_ScreenshotRef_def zero_SignatureMetadata_def ascii_valid)
  show "raw_height (rf_UIRoot fixture_frame) = 2" by (simp add: fixture_frame_def fixture_RawFrame_def)
qed

lemma fixture_depth: "2 * raw_height (rf_UIRoot fixture_frame) < maxNestingDepth"
  by (simp add: fixture_frame_valid maxNestingDepth_def)

text \<open>Claim C14: the payload format loses nothing. Encoding a raw frame whose strings are valid UTF-8,
  whose time lies in a year of four digits and a zone of whole minutes below 24 hours, and
  whose tree is not deeper than the decoder allows succeeds, and decoding the text gives the frame back: every
  string, number, time with its zone, map entry and node of the tree, empty and omitted
  members included.\<close>

theorem raw_frame_json_roundtrip:
  assumes "valid_RawFrame frame" and "2 * raw_height (rf_UIRoot frame) < maxNestingDepth"
  shows "\<exists>payload. RawFrame_Marshal frame = Inr payload \<and> payload \<noteq> [] \<and> RawFrame_Unmarshal payload = Inr frame"
  using RawFrame_roundtrip [OF assms] RawFrame_Marshal_ne by blast

theorem raw_frame_json_roundtrip_witness:
  "\<exists>payload. RawFrame_Marshal fixture_frame = Inr payload \<and> RawFrame_Unmarshal payload = Inr fixture_frame"
  using raw_frame_json_roundtrip [OF fixture_frame_valid(1) fixture_depth] by blast


text \<open>A call with the fixtures' frame on the example service, whose payload limit is the size of the payload.\<close>

definition sized_verifier :: "SignedEnvelope \<Rightarrow> (sql_env, replay_db) Verifier" where
  "sized_verifier e = sample_verifier\<lparr>vf_MaxPayloadBytes := int (length (se_Payload e))\<rparr>"

lemma sized_verifier_simps [simp]:
  "vf_Registry (sized_verifier e) = vf_Registry sample_verifier" "vf_ReplayGuard (sized_verifier e) = vf_ReplayGuard sample_verifier"
  "vf_TTL (sized_verifier e) = vf_TTL sample_verifier" "vf_Now (sized_verifier e) = vf_Now sample_verifier"
  "vf_MaxPayloadBytes (sized_verifier e) = int (length (se_Payload e))"
  by (simp_all add: sized_verifier_def)

lemma sample_pipeline_text: "pipeline_text (is_sanitizer sample_state)"
  by (simp add: pipeline_text_def sample_state_def sample_pipeline_def NoopVisionRedactor_def NewPipeline_def DefaultVersion_def
      pipeline_vision_def ascii_valid)

lemma good_write:
  assumes "validateSanitizedFrame f = None" and "Marshal f = Inr line"
  shows "fst (json_sink_write Marshal (good_os 0) (sample_sink, Map.empty) f) = None"
  using assms by (simp add: json_sink_write_def storage_eval)

lemma sample_write_json:
  assumes "json_timestamp (rf_EventTimestamp frame)"
  shows "fst (json_sink_write SanitizedFrame_Marshal (ie_sink sample_env) (is_sink sample_state)
    (res_Frame (accepted_result (ie_sanitizer sample_env) (is_sanitizer sample_state) frame))) = None"
proof -
  let ?f = "res_Frame (accepted_result (\<lambda>_. 1) sample_pipeline frame)"
  have "json_timestamp (in_UTC 1)" by code_simp
  then have "is_ok (SanitizedFrame_Marshal ?f)"
    using assms by (simp add: SanitizedFrame_Marshal_ok_iff accepted_result_def Let_def sanitized_frame_def process_clock_def
        sample_pipeline_def NewPipeline_def)
  then show ?thesis using good_write [OF sample_accept_valid] by (auto simp: is_ok_iff sample_env_def sample_state_def)
qed

text \<open>The envelope that a client builds for the fixtures' frame.\<close>

definition fixture_envelope :: SignedEnvelope where
  "fixture_envelope = projr (BuildSignedEnvelopeWithKey sample_ed RawFrame_Marshal sample_key fixture_time fixture_frame ''test-key'' [])"

abbreviation fixture_verifier :: "(sql_env, replay_db) Verifier" where
  "fixture_verifier \<equiv> sized_verifier fixture_envelope"

lemma fixture_envelope_built:
  "BuildSignedEnvelopeWithKey sample_ed RawFrame_Marshal sample_key fixture_time fixture_frame ''test-key'' [] = Inr fixture_envelope"
  "RawFrame_Unmarshal (se_Payload fixture_envelope) = Inr fixture_frame" "se_Payload fixture_envelope \<noteq> []"
  "se_ClientCertFingerprintSHA256 fixture_envelope = []"
proof -
  obtain payload where m: "RawFrame_Marshal fixture_frame = Inr payload" "RawFrame_Unmarshal payload = Inr fixture_frame"
    using RawFrame_roundtrip [OF fixture_frame_valid(1) fixture_depth] by blast
  obtain e where b: "BuildSignedEnvelopeWithKey sample_ed RawFrame_Marshal sample_key fixture_time fixture_frame ''test-key'' [] = Inr e"
    and c: "se_ClientCertFingerprintSHA256 e = []" using fixture_built [of RawFrame_Marshal payload] m(1) by blast
  have e: "fixture_envelope = e" by (simp add: fixture_envelope_def b)
  have "se_Payload e = payload" using b m(1) by (auto elim!: BuildSignedEnvelopeWithKey_Inr)
  with b c m RawFrame_Marshal_ne [OF m(1)] show
    "BuildSignedEnvelopeWithKey sample_ed RawFrame_Marshal sample_key fixture_time fixture_frame ''test-key'' [] = Inr fixture_envelope"
    "RawFrame_Unmarshal (se_Payload fixture_envelope) = Inr fixture_frame" "se_Payload fixture_envelope \<noteq> []"
    "se_ClientCertFingerprintSHA256 fixture_envelope = []" by (simp_all add: e)
qed

lemma fixture_premises:
  "vf_Registry fixture_verifier = Some (LookupDevice [(''test-device'', sample_device)])"
  "LookupDevice [(''test-device'', sample_device)] (dm_DeviceID (rf_Device fixture_frame)) = Some sample_device"
  "dv_PublicKey sample_device = ed_Public sample_ed sample_key"
  "dv_PublicKeyID sample_device = ''test-key''"
  "cert_bound sample_device fixture_envelope (peerCertificateFingerprint (ie_peer sample_env))"
  "int (length (se_Payload fixture_envelope)) \<le> vf_MaxPayloadBytes fixture_verifier"
  "fresh (effective_ttl (vf_TTL fixture_verifier)) (clock_of (ie_clock sample_env) fixture_verifier) fixture_time"
  "vf_ReplayGuard fixture_verifier = Some (SQLite_CheckAndRecord (Some \<lparr>sg_db = Some DbOpen\<rparr>))"
  "json_sink_ok (is_sink sample_state)"
proof -
  have "clock_of (ie_clock sample_env) fixture_verifier = clock_of (\<lambda>_. 0) sample_verifier"
    by (simp add: clock_of_def sample_env_def sized_verifier_def)
  then show "fresh (effective_ttl (vf_TTL fixture_verifier)) (clock_of (ie_clock sample_env) fixture_verifier) fixture_time"
    by (simp add: fixture_time_value sample_facts)
qed (simp_all add: sample_laws fixture_frame_simps LookupDevice_def sample_device_def fixture_envelope_built sample_env_def
    peerCertificateFingerprint_def cert_bound_def json_sink_ok_def sample_state_def sink_wf_def sample_sink_def)

lemma sample_state_whole: "json_active_whole (is_sink sample_state)"
  by (simp add: json_active_whole_def sample_state_def active_content_def whole_lines_def)

lemma fixture_guard:
  "SQLite_CheckAndRecord (Some \<lparr>sg_db = Some DbOpen\<rparr>) (ie_guard sample_env) (is_guard sample_state)
     (dm_DeviceID (rf_Device fixture_frame)) (rf_FrameID fixture_frame) (rf_Sequence fixture_frame) =
   (None, snd (SQLite_CheckAndRecord (Some \<lparr>sg_db = Some DbOpen\<rparr>) good_sql empty_db ''test-device'' ''frame-1'' 1))"
  using sample_guard by (simp add: fixture_frame_simps sample_env_def sample_state_def sample_envelope_def)

lemma fixture_write:
  "fst (json_sink_write SanitizedFrame_Marshal (ie_sink sample_env) (is_sink sample_state)
     (res_Frame (accepted_result (ie_sanitizer sample_env) (is_sanitizer sample_state) (verified_frame fixture_envelope fixture_frame)))) = None"
  using fixture_frame_valid(1) by (intro sample_write_json) (simp add: verified_frame_def valid_RawFrame_def)

theorem client_frame_stored_witness:
  "\<exists>r st'. client_IngestFrame id (direct_rpc sample_ed RawFrame_Unmarshal id (json_service fixture_verifier) sample_env)
       sample_state (Some fixture_envelope) = (Inr r, st') \<and> cr_Decision r = DecisionAccept \<and>
     (\<exists>c\<in>contents (snd (is_sink st')). written_frame c (res_Frame (accepted_result (ie_sanitizer sample_env)
        (is_sanitizer sample_state) (verified_frame fixture_envelope fixture_frame))))"
proof -
  have kid: "valid_utf8 ''test-key''" by (simp add: ascii_valid)
  have id: "id (id t) = t" for t :: time by simp
  from client_frame_stored [where AsTime = id and NewTs = id
      and registry = "LookupDevice [(''test-device'', sample_device)]" and check = "SQLite_CheckAndRecord (Some \<lparr>sg_db = Some DbOpen\<rparr>)",
      OF sample_ed_law sample_key_genuine id fixture_envelope_built(1) fixture_frame_valid(1) fixture_depth kid fixture_premises(1-8) fixture_guard
        fixture_admitted sample_pipeline_text fixture_premises(9) sample_state_whole fixture_write]
  show ?thesis by blast
qed

lemma fixture_accepted:
  obtains r st' where "IngestFrame sample_ed RawFrame_Unmarshal (json_service fixture_verifier) sample_env sample_state (Some fixture_envelope) =
    (Replied r, st')" "rp_Decision r = DecisionAccept"
proof -
  obtain s where w: "json_sink_write SanitizedFrame_Marshal (ie_sink sample_env) (is_sink sample_state)
     (res_Frame (accepted_result (ie_sanitizer sample_env) (is_sanitizer sample_state) (verified_frame fixture_envelope fixture_frame))) = (None, s)"
    using fixture_write by (metis prod.collapse)
  from built_frame_accepted [where Unmarshal = RawFrame_Unmarshal and registry = "LookupDevice [(''test-device'', sample_device)]"
      and check = "SQLite_CheckAndRecord (Some \<lparr>sg_db = Some DbOpen\<rparr>)" and store = "json_sink_write SanitizedFrame_Marshal",
      OF sample_ed_law sample_key_genuine fixture_envelope_built(1,2) fixture_premises(1-5) fixture_envelope_built(3) fixture_premises(6-8) fixture_guard
        fixture_admitted w] that show thesis by blast
qed

lemma fixture_envelope_text: "envelope_text fixture_envelope"
proof -
  have "valid_utf8 ''test-key''" by (simp add: ascii_valid)
  from built_envelope_text [OF fixture_envelope_built(1) this]
  have "valid_utf8 (se_SignatureAlg fixture_envelope)" "valid_utf8 (se_PayloadSHA256Hex fixture_envelope)"
    "valid_utf8 (se_PublicKeyID fixture_envelope)" by (simp_all add: verified_frame_def valid_SignatureMetadata_def)
  moreover have "bound_to fixture_envelope fixture_frame"
    using fixture_envelope_built(1) by (rule BuildSignedEnvelopeWithKey_Inr) blast
  moreover have "text_RawFrame fixture_frame" using fixture_frame_valid(1) by (simp add: valid_RawFrame_def)
  ultimately show ?thesis by (simp add: envelope_text_def bound_to_def text_RawFrame_def valid_DeviceMetadata_def)
qed

lemma fixture_readable: "readable_call fixture_envelope"
  using fixture_envelope_text fixture_envelope_built(2) fixture_depth by (simp add: readable_call_def)

lemma accepted_line_reads_back_witness:
  "\<exists>st' f line. stored_for fixture_envelope f \<and> holds_line (snd (is_sink (st' :: (replay_db, Pipeline, JSONLSink \<times> fs) ingest_state))) line \<and>
     SanitizedFrame_Unmarshal line = Inr f"
proof -
  obtain r st' where c: "IngestFrame sample_ed RawFrame_Unmarshal (json_service fixture_verifier) sample_env sample_state (Some fixture_envelope) =
    (Replied r, st')" and a: "rp_Decision r = DecisionAccept" by (rule fixture_accepted)
  have acc: "accepts (Replied r)" using a by simp
  from accepted_line_reads_back [OF c acc fixture_premises(9) sample_state_whole fixture_readable sample_pipeline_text] show ?thesis by blast
qed


section \<open>Timestamps that can be read but not written\<close>

lemma Marshal_error_unchanged:
  assumes "SanitizedFrame_Marshal f = Inl err"
  shows "\<exists>e. json_sink_write SanitizedFrame_Marshal env st f = (Some e, st)"
  using assms by (cases st) (auto simp: json_sink_write_def WriteSanitizedFrame_def split: option.split)

lemma unwritable_frame_fails:
  assumes "fst (verify_call ed v env (is_guard st) e) = None" and "decoded RawFrame_Unmarshal e = Some frame"
    and "admitted (is_sanitizer st) frame" and "sanitizable (is_sanitizer st) frame"
    and "\<not> json_timestamp (rf_EventTimestamp frame)"
  shows "\<exists>st'. IngestFrame ed RawFrame_Unmarshal (json_service v) env st (Some e) = (Failed Internal ''storage failed'', st') \<and>
    is_sink st' = is_sink st \<and> is_guard st' = snd (verify_call ed v env (is_guard st) e)"
proof -
  let ?store = "json_sink_write SanitizedFrame_Marshal"
  let ?st = "st\<lparr>is_guard := snd (verify_call ed v env (is_guard st) e)\<rparr>"
  let ?res = "accepted_result (ie_sanitizer env) (is_sanitizer st) frame"
  have "\<not> is_ok (SanitizedFrame_Marshal (res_Frame ?res))"
    using assms(5) by (simp add: SanitizedFrame_Marshal_ok_iff accepted_result_def Let_def sanitized_frame_def)
  then obtain err where "SanitizedFrame_Marshal (res_Frame ?res) = Inl err" by (cases "SanitizedFrame_Marshal (res_Frame ?res)") auto
  then obtain werr where w: "?store (ie_sink env) (is_sink ?st) (res_Frame ?res) = (Some werr, is_sink st)"
    using Marshal_error_unchanged [of _ err "ie_sink env" "is_sink st"] by auto
  obtain z where z: "Process (ie_sanitizer env) (is_sanitizer ?st) frame = ((?res, None), z)"
    using Process_accept [OF assms(3,4)] by (metis ingest_state.simps(2) ingest_state.update_convs(1) prod.collapse ingest_state.surjective)
  obtain out st' where sas: "sanitize_and_store Process ?store env ?st e frame = (out, st')" by (metis surj_pair)
  have "res_Decision ?res = DecisionAccept" by (simp add: accepted_result_def Let_def)
  with sanitize_and_store_cases [where sanitize = Process and store = ?store, OF z w sas] show ?thesis
    unfolding IngestFrame_verified [OF assms(1,2)] sas by simp
qed

lemma decoded_timestamp:
  assumes "decoded RawFrame_Unmarshal e = Some frame"
  shows "json_timestamp (rf_EventTimestamp frame) \<longleftrightarrow> \<bar>snd (rf_EventTimestamp frame)\<bar> < 86400"
proof -
  from assms obtain f f' where f: "RawFrame_Unmarshal (se_Payload e) = Inr f" "bindEnvelopeToFrame e f = (None, f')"
    "frame = verified_frame e f'"
    by (auto simp: decoded_def split: sum.splits prod.splits option.splits)
  have "rf_EventTimestamp f' = rf_EventTimestamp f"
    using f(2) by (auto simp: bindEnvelopeToFrame_def Let_def split: if_splits)
  with decoded_writable_iff [OF f(1)] f(3) show ?thesis by (simp add: verified_frame_def)
qed

text \<open>Claim C32: the zone of a timestamp decides whether a frame can be stored. \<open>time.Parse\<close> accepts zone
  offsets of 24 hours and \<open>Time.MarshalJSON\<close> refuses them, and nothing else that a decoded
  frame holds can make its encoding fail while the proxy's own clock can be written. For a
  verified and admitted frame with such a zone the call fails with \<open>storage failed\<close>, no file
  changes, and the replay guard has recorded the frame: the client cannot send it again.\<close>

theorem unwritable_timestamp_consumes_frame:
  assumes "fst (verify_call ed v env (is_guard st) e) = None" and "decoded RawFrame_Unmarshal e = Some frame"
    and "admitted (is_sanitizer st) frame" and "sanitizable (is_sanitizer st) frame"
    and "json_timestamp (in_UTC (process_clock (ie_sanitizer env) (is_sanitizer st)))"
  shows "(is_ok (SanitizedFrame_Marshal (res_Frame (accepted_result (ie_sanitizer env) (is_sanitizer st) frame))) \<longleftrightarrow>
      \<bar>snd (rf_EventTimestamp frame)\<bar> < 24 * 60 * 60) \<and>
    (24 * 60 * 60 \<le> \<bar>snd (rf_EventTimestamp frame)\<bar> \<longrightarrow>
      (\<exists>st'. IngestFrame ed RawFrame_Unmarshal (json_service v) env st (Some e) = (Failed Internal ''storage failed'', st') \<and>
         is_sink st' = is_sink st \<and> is_guard st' = snd (verify_call ed v env (is_guard st) e)))"
proof (intro conjI impI)
  show "is_ok (SanitizedFrame_Marshal (res_Frame (accepted_result (ie_sanitizer env) (is_sanitizer st) frame))) \<longleftrightarrow>
      \<bar>snd (rf_EventTimestamp frame)\<bar> < 24 * 60 * 60"
    using decoded_timestamp [OF assms(2)] assms(5)
    by (simp add: SanitizedFrame_Marshal_ok_iff accepted_result_def Let_def sanitized_frame_def)
next
  assume "24 * 60 * 60 \<le> \<bar>snd (rf_EventTimestamp frame)\<bar>"
  then have "\<not> json_timestamp (rf_EventTimestamp frame)" using decoded_timestamp [OF assms(2)] by simp
  from unwritable_frame_fails [OF assms(1-4) this]
  show "\<exists>st'. IngestFrame ed RawFrame_Unmarshal (json_service v) env st (Some e) = (Failed Internal ''storage failed'', st') \<and>
      is_sink st' = is_sink st \<and> is_guard st' = snd (verify_call ed v env (is_guard st) e)" .
qed

text \<open>A payload with such a timestamp.\<close>

definition late_document :: json where
  "late_document = JObj [(''sequence'', JNum ''1''), (''event_timestamp'', JStr ''2026-05-31T12:00:00+24:00''),
     (''foreground_app'', JObj [(''package_name'', JStr ''com.android.settings'')])]"

definition late_timestamp :: timestamp where
  "late_timestamp = (fixture_time - 86400 * second, 86400)"

definition late_frame :: RawFrame where
  "late_frame = zero_RawFrame\<lparr>rf_Sequence := 1, rf_EventTimestamp := late_timestamp,
     rf_ForegroundApp := \<lparr>fa_PackageName = ''com.android.settings'', fa_ActivityName = []\<rparr>\<rparr>"

lemma plain_str_ok: "list_all (\<lambda>c. c \<noteq> dquote \<and> c \<noteq> backslash \<and> 32 \<le> byte_val c) t \<Longrightarrow> str_ok t \<and> list_all printable t"
  by (auto simp: str_ok_def scan_plain list_all_iff printable_def)

lemma plain_unquote:
  "list_all (\<lambda>c. c \<noteq> dquote \<and> c \<noteq> backslash \<and> 32 \<le> byte_val c \<and> byte_val c < 128) t \<Longrightarrow> json_unquote t = Some t"
  by (induction t) (simp_all add: unquote_plain)

lemma late_wf: "json_wf late_document" "json_depth late_document = 2"
proof -
  have "format_int 1 = ''1''" by (simp add: format_int_def format_dec.simps digit_char_simps)
  then have "num_ok ''1''" using num_ok_int [of 1] by simp
  then show "json_wf late_document" by (simp add: late_document_def plain_str_ok printable_def)
  show "json_depth late_document = 2" by (simp add: late_document_def)
qed

lemma late_parsed: "parse_RFC3339 ''2026-05-31T12:00:00+24:00'' = Some late_timestamp"
  by (simp add: parse_RFC3339_def get_year_def getnum_def expect_def get_fraction_def get_zone_def is_digit_def dec_val_def digit_val_def
      days_in_def is_leap_def day_of_civil_def day_ns_def second_def late_timestamp_def fixture_time_value)

lemma late_decoded: "RawFrame_Unmarshal (json_print late_document) = Inr late_frame"
proof -
  have p: "json_parse (json_print late_document) = Some late_document"
    by (rule json_parse_print [OF late_wf(1)]) (simp add: late_wf(2) maxNestingDepth_def)
  have n: "ParseUint 64 ''1'' = Some 1"
    by (simp add: ParseUint_def parse_dec_def dec_val_def digit_val_def is_digit_def)
  have "cd_dec (RawFrame_codec k) late_document zero_RawFrame = Some late_frame" for k
    by (simp add: late_document_def RawFrame_codec_def RawFrame_fields_def struct_codec_def find_field_def plain_unquote
        field_def required_def omitempty_def uint_codec_def time_codec_def time_UnmarshalJSON_def late_parsed n
        ForegroundApp_codec_def string_codec_def zero_RawFrame_def zero_ForegroundApp_def late_frame_def)
  with p show ?thesis by (simp add: RawFrame_Unmarshal_def)
qed


definition late_envelope :: SignedEnvelope where
  "late_envelope = projr (SignEnvelope sample_ed sample_key (sample_envelope\<lparr>se_Payload := json_print late_document\<rparr>))"

lemma late_signed: "SignEnvelope sample_ed sample_key (sample_envelope\<lparr>se_Payload := json_print late_document\<rparr>) = Inr late_envelope"
  by (simp add: late_envelope_def SignEnvelope_def sample_key_def ed_PrivateKeySize_def CanonicalBytes_def sample_envelope_def
      SignatureAlgEd25519_def)

lemma late_verified:
  "verify_call sample_ed sample_verifier sample_env (is_guard sample_state) late_envelope =
     (None, \<lparr>device_state = [''test-device'' \<mapsto> 1], seen_frames = {(''test-device'', ''frame-1'')}\<rparr>)"
proof -
  let ?e0 = "sample_envelope\<lparr>se_Payload := json_print late_document\<rparr>"
  have "authenticated sample_ed (ie_clock sample_env) sample_verifier late_envelope []"
  proof (rule SignEnvelope_authenticated [OF sample_ed_law sample_key_genuine late_signed sample_laws(1) _ sample_laws(3)])
    show "fresh (effective_ttl (vf_TTL sample_verifier)) (clock_of (ie_clock sample_env) sample_verifier) (se_SignedAt ?e0)"
      using sample_laws(8) by (simp add: sample_env_def)
    show "cert_bound sample_device ?e0 []" using sample_laws(5) by (simp add: cert_bound_def)
  qed (use sample_laws(2,4) in \<open>simp_all add: late_document_def sample_verifier_def\<close>)
  moreover have "envelope_key late_envelope = envelope_key sample_envelope"
    using SignEnvelope_key [OF late_signed] by (simp add: envelope_key_def)
  ultimately show ?thesis using sample_guard sample_laws(9)
    by (simp add: verify_call_def Verify_accept_iff envelope_key_def sample_env_def sample_state_def peerCertificateFingerprint_def)
qed

lemma late_decoded_envelope:
  obtains frame where "decoded RawFrame_Unmarshal late_envelope = Some frame" "rf_EventTimestamp frame = late_timestamp"
    "admitted (is_sanitizer sample_state) frame" "sanitizable (is_sanitizer sample_state) frame"
proof -
  note same = SignEnvelope_same [OF late_signed, simplified]
  have "decoded RawFrame_Unmarshal late_envelope = Some (verified_frame late_envelope (late_frame\<lparr>
      rf_ProtocolVersion := ''golem.v1'', rf_TrajectoryID := ''test-trajectory'', rf_FrameID := ''frame-1'',
      rf_Device := zero_DeviceMetadata\<lparr>dm_DeviceID := ''test-device''\<rparr>\<rparr>))"
    by (simp add: decoded_def late_decoded same bindEnvelopeToFrame_def late_frame_def zero_RawFrame_def zero_DeviceMetadata_def
        sample_envelope_def)
  then show thesis
    by (rule that) (use sample_admitted in \<open>simp_all add: verified_frame_def late_frame_def sample_state_def admitted_def
        frame_package_def sample_frame_def sample_pipeline_def\<close>)
qed

theorem unwritable_timestamp_consumes_frame_witness:
  "\<exists>st'. IngestFrame sample_ed RawFrame_Unmarshal (json_service sample_verifier) sample_env sample_state (Some late_envelope) =
      (Failed Internal ''storage failed'', st') \<and>
    is_sink st' = is_sink sample_state \<and> (''test-device'', ''frame-1'') \<in> seen_frames (is_guard st')"
proof -
  obtain frame where f: "decoded RawFrame_Unmarshal late_envelope = Some frame" "rf_EventTimestamp frame = late_timestamp"
    "admitted (is_sanitizer sample_state) frame" "sanitizable (is_sanitizer sample_state) frame"
    by (rule late_decoded_envelope)
  have v: "fst (verify_call sample_ed sample_verifier sample_env (is_guard sample_state) late_envelope) = None"
    by (simp add: late_verified)
  have "json_timestamp (in_UTC 1)" by code_simp
  then have c: "json_timestamp (in_UTC (process_clock (ie_sanitizer sample_env) (is_sanitizer sample_state)))"
    by (simp add: sample_env_def sample_state_def process_clock_def sample_pipeline_def NewPipeline_def)
  have "24 * 60 * 60 \<le> \<bar>snd (rf_EventTimestamp frame)\<bar>" by (simp add: f(2) late_timestamp_def)
  with unwritable_timestamp_consumes_frame [OF v f(1,3,4) c] show ?thesis by (auto simp: late_verified)
qed

end
