(* ===== verification/Go_Base64.thy ===== *)
theory Go_Base64
  imports Prelude
begin

text \<open>
  Go's \<open>base64.StdEncoding\<close>: the standard alphabet with padding. \<open>DecodeString\<close> skips line
  breaks anywhere, requires the padding, rejects anything after it and, being the lenient
  decoder, ignores the unused low bits of the last group. The offset that Go puts into its
  error is not modelled: every user of the decoder only asks whether it failed.
\<close>

text \<open>The alphabet: A to Z, a to z, 0 to 9, plus and slash.\<close>

definition base64_char :: "int \<Rightarrow> char" where
  "base64_char n =
     (let v = n mod 64
      in if v < 26 then char_of (v + 65)
         else if v < 52 then char_of (v + 71)
         else if v < 62 then char_of (v - 4)
         else if v = 62 then CHR ''+'' else CHR ''/'')"

definition base64_value :: "char \<Rightarrow> int option" where
  "base64_value c =
     (let b = of_char c :: int
      in if 65 \<le> b \<and> b \<le> 90 then Some (b - 65)
         else if 97 \<le> b \<and> b \<le> 122 then Some (b - 71)
         else if 48 \<le> b \<and> b \<le> 57 then Some (b + 4)
         else if c = CHR ''+'' then Some 62
         else if c = CHR ''/'' then Some 63
         else None)"

fun base64_EncodeToString :: "bytes \<Rightarrow> string" where
  "base64_EncodeToString [] = []"
| "base64_EncodeToString [a] =
     (let n = of_char a * 65536
      in [base64_char (n div 262144), base64_char (n div 4096), CHR ''='', CHR ''=''])"
| "base64_EncodeToString [a, b] =
     (let n = of_char a * 65536 + of_char b * 256
      in [base64_char (n div 262144), base64_char (n div 4096), base64_char (n div 64), CHR ''=''])"
| "base64_EncodeToString (a # b # c # rest) =
     (let n = of_char a * 65536 + of_char b * 256 + of_char c
      in [base64_char (n div 262144), base64_char (n div 4096), base64_char (n div 64), base64_char n] @
         base64_EncodeToString rest)"

text \<open>The three bytes of a group of four six-bit values.\<close>

definition quantum :: "int \<Rightarrow> int \<Rightarrow> int \<Rightarrow> int \<Rightarrow> bytes" where
  "quantum w x y z =
     (let n = w * 262144 + x * 4096 + y * 64 + z
      in [char_of (n div 65536), char_of (n div 256), char_of n])"

fun decode_quanta :: "string \<Rightarrow> bytes option" where
  "decode_quanta [] = Some []"
| "decode_quanta (p # q # r # s # rest) =
     (case (base64_value p, base64_value q) of
        (Some w, Some x) \<Rightarrow>
          (case (base64_value r, base64_value s) of
             (Some y, Some z) \<Rightarrow> map_option (\<lambda>bs. quantum w x y z @ bs) (decode_quanta rest)
           | (Some y, None) \<Rightarrow> if s = CHR ''='' \<and> rest = [] then Some (take 2 (quantum w x y 0)) else None
           | (None, _) \<Rightarrow>
               if r = CHR ''='' \<and> s = CHR ''='' \<and> rest = [] then Some (take 1 (quantum w x 0 0)) else None)
      | _ \<Rightarrow> None)"
| "decode_quanta _ = None"

definition base64_DecodeString :: "string \<Rightarrow> bytes option" where
  "base64_DecodeString s = decode_quanta (filter (\<lambda>c. c \<noteq> CHR 0x0A \<and> c \<noteq> CHR 0x0D) s)"

section \<open>The round trip\<close>

lemma base64_value_char: "base64_value (base64_char n) = Some (n mod 64)"
proof -
  have "0 \<le> n mod 64" "n mod 64 < 64" by simp_all
  then show ?thesis unfolding base64_char_def base64_value_def Let_def by (simp, linarith)
qed

lemma base64_value_special:
  "base64_value (CHR ''='') = None" "base64_value (CHR 0x0A) = None" "base64_value (CHR 0x0D) = None"
  by (simp_all add: base64_value_def)

lemma base64_char_neq: "base64_char n \<noteq> CHR 0x0A" "base64_char n \<noteq> CHR 0x0D"
  using base64_value_char [of n] base64_value_special by auto

lemma of_char_bounds: "0 \<le> (of_char c :: int)" "(of_char c :: int) < 256"
  by (metis of_char_mod_256 pos_mod_sign zero_less_numeral) (metis of_char_mod_256 pos_mod_bound zero_less_numeral)

text \<open>Four base-64 digits determine a number below 2 to the 24.\<close>

lemma digits64:
  assumes "0 \<le> n" "n < (16777216 :: int)"
  shows "n div 262144 mod 64 * 262144 + n div 4096 mod 64 * 4096 + n div 64 mod 64 * 64 + n mod 64 = n"
proof -
  have divs: "n div 4096 = n div 64 div 64" "n div 262144 = n div 64 div 64 div 64"
    by (simp_all flip: zdiv_zmult2_eq)
  obtain q r where q: "n div 64 = q" "n mod 64 = r" by simp
  obtain q' r' where q': "q div 64 = q'" "q mod 64 = r'" by simp
  obtain q'' r'' where q'': "q' div 64 = q''" "q' mod 64 = r''" by simp
  have eq: "n = 64 * q + r" "q = 64 * q' + r'" "q' = 64 * q'' + r''"
    using mult_div_mod_eq [of 64 n] mult_div_mod_eq [of 64 q] mult_div_mod_eq [of 64 q'] by (simp_all only: q q' q'')
  have b: "0 \<le> r" "r < 64" "0 \<le> r'" "r' < 64" "0 \<le> r''" "r'' < 64"
    using q(2) q'(2) q''(2) by auto
  have "0 \<le> q''" "q'' < 64" using assms b eq by linarith+
  then have "q'' mod 64 = q''" by simp
  then show ?thesis unfolding divs q q' q'' using eq by linarith
qed

lemma byte_of: "char_of (m :: int) = c" if "m mod 256 = of_char c"
  using that by (metis char_of_char char_of_mod_256)

lemma quantum_bytes:
  fixes a b c :: char
  defines "n \<equiv> (of_char a :: int) * 65536 + of_char b * 256 + of_char c"
  shows "quantum (n div 262144 mod 64) (n div 4096 mod 64) (n div 64 mod 64) (n mod 64) = [a, b, c]"
proof -
  note bd = of_char_bounds [of a] of_char_bounds [of b] of_char_bounds [of c]
  have n: "n div 262144 mod 64 * 262144 + n div 4096 mod 64 * 4096 + n div 64 mod 64 * 64 + n mod 64 = n"
    by (rule digits64) (use bd in \<open>unfold n_def, linarith+\<close>)
  have d1: "n div 256 = of_char a * 256 + of_char b"
    using bd by (simp add: n_def)
  have d2: "n div 65536 = of_char a" 
    using bd by (simp add: n_def)
  have mod_eq: "(of_char a * 65536 + of_char b * 256 + of_char c) mod 256 = (of_char c :: int)"
    using mod_mult_self4 [of 256 "of_char a * 256 + of_char b" "of_char c :: int"] bd
    by (simp add: distrib_left mult.commute)
  have "char_of (n div 65536) = a" "char_of (n div 256) = b" "char_of n = c"
    using d1 d2 bd by (auto intro!: byte_of simp: n_def mod_eq)
  then show ?thesis unfolding quantum_def n Let_def by simp
qed

lemma decode_encode_quanta: "decode_quanta (base64_EncodeToString bs) = Some bs"
proof (induction bs rule: base64_EncodeToString.induct)
  case (2 a)
  have "quantum ((of_char a * 65536) div 262144 mod 64) ((of_char a * 65536) div 4096 mod 64) 0 0 = [a, CHR 0x00, CHR 0x00]"
    using quantum_bytes [of a "CHR 0x00" "CHR 0x00"] by simp
  then show ?case by (simp add: Let_def base64_value_char base64_value_special)
next
  case (3 a b)
  have "(of_char a * 65536 + of_char b * 256 :: int) mod 64 = 0" by presburger
  then have "quantum ((of_char a * 65536 + of_char b * 256) div 262144 mod 64)
      ((of_char a * 65536 + of_char b * 256) div 4096 mod 64) ((of_char a * 65536 + of_char b * 256) div 64 mod 64) 0 = [a, b, CHR 0x00]"
    using quantum_bytes [of a b "CHR 0x00"] by simp
  then show ?case by (simp add: Let_def base64_value_char base64_value_special)
next
  case (4 a b c rest)
  then show ?case by (simp add: Let_def base64_value_char quantum_bytes)
qed simp

lemma encode_no_breaks: "c \<in> set (base64_EncodeToString bs) \<Longrightarrow> c \<noteq> CHR 0x0A \<and> c \<noteq> CHR 0x0D"
  by (induction bs rule: base64_EncodeToString.induct) (auto simp: Let_def base64_char_neq)

lemma base64_decode_encode: "base64_DecodeString (base64_EncodeToString bs) = Some bs"
proof -
  have "filter (\<lambda>c. c \<noteq> CHR 0x0A \<and> c \<noteq> CHR 0x0D) (base64_EncodeToString bs) = base64_EncodeToString bs"
    using encode_no_breaks by (simp add: filter_id_conv)
  then show ?thesis by (simp add: base64_DecodeString_def decode_encode_quanta)
qed

lemma base64_examples:
  "map base64_EncodeToString [''golem'', ''key'', ''A''] = [''Z29sZW0='', ''a2V5'', ''QQ=='']"
  "map base64_DecodeString [''Z29s'' @ [CHR 0x0A] @ ''ZW0='', ''QR=='', ''Q==='', ''a2V5a2V'', ''QQ==a2V5''] =
     [Some ''golem'', Some ''A'', None, None, None]"
  by code_simp+

end
