(* ===== verification/Config.thy ===== *)
theory Config
  imports Auth Go_Base64 Go_Path
begin

text \<open>
  \<open>internal/config/config.go\<close>: the proxy's configuration, its validation, which also fills in
  defaults, and what the other parts read from it. Go's \<open>int\<close> and \<open>int64\<close> fields are integers
  here; the one product the file computes, the lifetime of a signature, wraps as
  \<open>time.Duration\<close> does. \<open>os.ReadFile\<close> and \<open>json.Unmarshal\<close> on \<open>Config\<close> are arguments.
\<close>

section \<open>The configuration\<close>

definition DefaultMaxPayloadBytes :: int where "DefaultMaxPayloadBytes = 64 * 1024"
definition DefaultSignatureTTL :: duration where "DefaultSignatureTTL = 5 * minute"

record DeviceConfig =
  dc_DeviceID :: string
  dc_Ed25519PublicKeyBase64 :: string
  dc_PublicKeyID :: string
  dc_ClientCertFingerprintSHA256 :: string

record MTLSConfig =
  mt_Enabled :: bool
  mt_CertFile :: string
  mt_KeyFile :: string
  mt_ClientCAFile :: string
  mt_RequireClient :: bool

record Config =
  cf_GRPCAddr :: string
  cf_HTTPAddr :: string
  cf_StoragePath :: string
  cf_ReplayPath :: string
  cf_StorageRotateMaxBytes :: int
  cf_StorageRotateDaily :: bool
  cf_StorageFsync :: "bool option"
  cf_MaxPayloadBytes :: int
  cf_SignatureTTLSeconds :: int
  cf_AllowedPackages :: "string list"
  cf_SensitivePackages :: "string list"
  cf_AllowedDevices :: "DeviceConfig list"
  cf_MTLS :: MTLSConfig

definition zero_Config :: Config where
  "zero_Config = \<lparr>cf_GRPCAddr = [], cf_HTTPAddr = [], cf_StoragePath = [], cf_ReplayPath = [],
     cf_StorageRotateMaxBytes = 0, cf_StorageRotateDaily = False, cf_StorageFsync = None,
     cf_MaxPayloadBytes = 0, cf_SignatureTTLSeconds = 0, cf_AllowedPackages = [], cf_SensitivePackages = [],
     cf_AllowedDevices = [], cf_MTLS = \<lparr>mt_Enabled = False, mt_CertFile = [], mt_KeyFile = [],
       mt_ClientCAFile = [], mt_RequireClient = False\<rparr>\<rparr>"

text \<open>The errors: fixed messages, and the wrapped or formatted ones with what they carry.\<close>

datatype config_error =
    ConfigError string
  | ReadConfig string
  | ParseConfig string
  | DecodePublicKey string
  | PublicKeySize string

section \<open>Reading the configuration\<close>

fun auth_devices :: "DeviceConfig list \<Rightarrow> Device list \<Rightarrow> config_error + Device list" where
  "auth_devices [] devices = Inr devices"
| "auth_devices (item # rest) devices =
     (if dc_DeviceID item = [] then Inl (ConfigError ''allowed device_id is required'')
      else
        (case base64_DecodeString (dc_Ed25519PublicKeyBase64 item) of
           None \<Rightarrow> Inl (DecodePublicKey (dc_DeviceID item))
         | Some raw \<Rightarrow>
             if length raw \<noteq> ed_PublicKeySize then Inl (PublicKeySize (dc_DeviceID item))
             else auth_devices rest (devices @
               [\<lparr>dv_DeviceID = dc_DeviceID item, dv_PublicKey = raw, dv_PublicKeyID = dc_PublicKeyID item,
                 dv_ClientCertFingerprintSHA256 = dc_ClientCertFingerprintSHA256 item\<rparr>])))"

definition AuthDevices :: "Config \<Rightarrow> config_error + Device list" where
  "AuthDevices c = auth_devices (cf_AllowedDevices c) []"

definition SignatureTTL :: "Config \<Rightarrow> duration" where
  "SignatureTTL c =
     (if cf_SignatureTTLSeconds c \<le> 0 then DefaultSignatureTTL
      else wrap64 (cf_SignatureTTLSeconds c * second))"

definition StorageFsyncEnabled :: "Config \<Rightarrow> bool" where
  "StorageFsyncEnabled c = (case cf_StorageFsync c of None \<Rightarrow> True | Some b \<Rightarrow> b)"

text \<open>The loop over the devices in \<open>Validate\<close>.\<close>

fun devices_require_client_cert :: "DeviceConfig list \<Rightarrow> bool" where
  "devices_require_client_cert [] = False"
| "devices_require_client_cert (d # ds) =
     (if dc_ClientCertFingerprintSHA256 d \<noteq> [] then True else devices_require_client_cert ds)"

text \<open>
  \<open>Validate\<close> works on the configuration in place and stops at the first error; both the error
  and the configuration as far as it was changed are returned.
\<close>

definition Validate :: "Config \<Rightarrow> config_error option \<times> Config" where
  "Validate c =
     (if cf_GRPCAddr c = [] then (Some (ConfigError ''grpc_addr is required''), c)
      else if cf_HTTPAddr c = [] then (Some (ConfigError ''http_addr is required''), c)
      else if cf_StoragePath c = [] then (Some (ConfigError ''storage_path is required''), c)
      else
        let c = (if cf_ReplayPath c = [] then c\<lparr>cf_ReplayPath := Join [Dir (cf_StoragePath c), ''replay.db'']\<rparr> else c)
        in if cf_StorageRotateMaxBytes c < 0
           then (Some (ConfigError ''storage_rotate_max_bytes must be non-negative''), c)
           else if cf_AllowedDevices c = [] then (Some (ConfigError ''at least one allowed device is required''), c)
           else if cf_AllowedPackages c = [] then (Some (ConfigError ''at least one allowed package is required''), c)
           else
             let c = (if cf_MaxPayloadBytes c = 0 then c\<lparr>cf_MaxPayloadBytes := DefaultMaxPayloadBytes\<rparr> else c)
             in if cf_MaxPayloadBytes c < 1024
                then (Some (ConfigError ''max_payload_bytes must be at least 1024''), c)
                else
                  let c = (if cf_SignatureTTLSeconds c = 0
                           then c\<lparr>cf_SignatureTTLSeconds := DefaultSignatureTTL div second\<rparr> else c)
                  in if cf_SignatureTTLSeconds c < 1
                     then (Some (ConfigError ''signature_ttl_seconds must be positive''), c)
                     else if mt_Enabled (cf_MTLS c) \<and>
                       (mt_CertFile (cf_MTLS c) = [] \<or> mt_KeyFile (cf_MTLS c) = [] \<or> mt_ClientCAFile (cf_MTLS c) = [])
                     then (Some (ConfigError ''mtls cert_file, key_file, and client_ca_file are required when mtls is enabled''), c)
                     else if devices_require_client_cert (cf_AllowedDevices c) \<and> \<not> mt_Enabled (cf_MTLS c)
                     then (Some (ConfigError ''mtls must be enabled when a device sets client_cert_fingerprint_sha256''), c)
                     else
                       let c = (if devices_require_client_cert (cf_AllowedDevices c)
                                then c\<lparr>cf_MTLS := (cf_MTLS c)\<lparr>mt_RequireClient := True\<rparr>\<rparr> else c)
                       in (case AuthDevices c of Inl err \<Rightarrow> (Some err, c) | Inr _ \<Rightarrow> (None, c)))"

definition Load ::
  "(string \<Rightarrow> string + bytes) \<Rightarrow> (bytes \<Rightarrow> string + Config) \<Rightarrow> string \<Rightarrow> config_error + Config" where
  "Load ReadFile Unmarshal path =
     (if path = [] then Inl (ConfigError ''config path is required'')
      else
        (case ReadFile path of
           Inl e \<Rightarrow> Inl (ReadConfig e)
         | Inr data \<Rightarrow>
             (case Unmarshal data of
                Inl e \<Rightarrow> Inl (ParseConfig e)
              | Inr cfg \<Rightarrow>
                  (case Validate cfg of
                     (Some err, _) \<Rightarrow> Inl err
                   | (None, cfg) \<Rightarrow> Inr cfg))))"

section \<open>What validation means\<close>

text \<open>The conditions on a configuration, and the configuration with its defaults, without the order of the checks.\<close>

definition bound_device :: "DeviceConfig \<Rightarrow> bool" where
  "bound_device d \<longleftrightarrow> dc_ClientCertFingerprintSHA256 d \<noteq> []"

definition device_config_ok :: "DeviceConfig \<Rightarrow> bool" where
  "device_config_ok d \<longleftrightarrow>
     dc_DeviceID d \<noteq> [] \<and>
     (\<exists>raw. base64_DecodeString (dc_Ed25519PublicKeyBase64 d) = Some raw \<and> length raw = ed_PublicKeySize)"

definition device_of :: "DeviceConfig \<Rightarrow> Device" where
  "device_of d = \<lparr>dv_DeviceID = dc_DeviceID d,
     dv_PublicKey = (case base64_DecodeString (dc_Ed25519PublicKeyBase64 d) of None \<Rightarrow> [] | Some raw \<Rightarrow> raw),
     dv_PublicKeyID = dc_PublicKeyID d, dv_ClientCertFingerprintSHA256 = dc_ClientCertFingerprintSHA256 d\<rparr>"

definition config_ok :: "Config \<Rightarrow> bool" where
  "config_ok c \<longleftrightarrow>
     cf_GRPCAddr c \<noteq> [] \<and> cf_HTTPAddr c \<noteq> [] \<and> cf_StoragePath c \<noteq> [] \<and>
     0 \<le> cf_StorageRotateMaxBytes c \<and> cf_AllowedDevices c \<noteq> [] \<and> cf_AllowedPackages c \<noteq> [] \<and>
     (cf_MaxPayloadBytes c = 0 \<or> 1024 \<le> cf_MaxPayloadBytes c) \<and> 0 \<le> cf_SignatureTTLSeconds c \<and>
     (mt_Enabled (cf_MTLS c) \<longrightarrow>
        mt_CertFile (cf_MTLS c) \<noteq> [] \<and> mt_KeyFile (cf_MTLS c) \<noteq> [] \<and> mt_ClientCAFile (cf_MTLS c) \<noteq> []) \<and>
     ((\<exists>d\<in>set (cf_AllowedDevices c). bound_device d) \<longrightarrow> mt_Enabled (cf_MTLS c)) \<and>
     (\<forall>d\<in>set (cf_AllowedDevices c). device_config_ok d)"

definition with_defaults :: "Config \<Rightarrow> Config" where
  "with_defaults c = c\<lparr>
     cf_ReplayPath := (if cf_ReplayPath c = [] then Join [Dir (cf_StoragePath c), ''replay.db''] else cf_ReplayPath c),
     cf_MaxPayloadBytes := (if cf_MaxPayloadBytes c = 0 then 65536 else cf_MaxPayloadBytes c),
     cf_SignatureTTLSeconds := (if cf_SignatureTTLSeconds c = 0 then 300 else cf_SignatureTTLSeconds c),
     cf_MTLS := (cf_MTLS c)\<lparr>mt_RequireClient :=
       (mt_RequireClient (cf_MTLS c) \<or> (\<exists>d\<in>set (cf_AllowedDevices c). bound_device d))\<rparr>\<rparr>"

lemma devices_require_client_cert_iff: "devices_require_client_cert ds \<longleftrightarrow> (\<exists>d\<in>set ds. bound_device d)"
  by (induction ds) (auto simp: bound_device_def)

lemma auth_devices_Inr:
  "auth_devices items acc = Inr devices \<longleftrightarrow>
     (\<forall>d\<in>set items. device_config_ok d) \<and> devices = acc @ map device_of items"
  by (induction items arbitrary: acc)
    (auto simp: device_config_ok_def device_of_def split: option.splits)

lemma AuthDevices_Inr:
  "AuthDevices c = Inr devices \<longleftrightarrow>
     (\<forall>d\<in>set (cf_AllowedDevices c). device_config_ok d) \<and> devices = map device_of (cf_AllowedDevices c)"
  by (simp add: AuthDevices_def auth_devices_Inr)

lemma AuthDevices_ok_cases:
  "(case AuthDevices c of Inl err \<Rightarrow> (Some err, c') | Inr _ \<Rightarrow> (None, c')) = (None, c'') \<longleftrightarrow>
     (\<forall>d\<in>set (cf_AllowedDevices c). device_config_ok d) \<and> c'' = c'"
proof (cases "AuthDevices c")
  case (Inl err)
  then show ?thesis using AuthDevices_Inr [of c] by force
next
  case (Inr devices)
  then show ?thesis using AuthDevices_Inr [of c devices] by auto
qed

text \<open>A conditional assignment to a field as an unconditional one.\<close>

lemma if_assign:
  "(if b then c\<lparr>cf_ReplayPath := p\<rparr> else c) = c\<lparr>cf_ReplayPath := if b then p else cf_ReplayPath c\<rparr>"
  "(if b then c\<lparr>cf_MaxPayloadBytes := n\<rparr> else c) = c\<lparr>cf_MaxPayloadBytes := if b then n else cf_MaxPayloadBytes c\<rparr>"
  "(if b then c\<lparr>cf_SignatureTTLSeconds := n\<rparr> else c) =
     c\<lparr>cf_SignatureTTLSeconds := if b then n else cf_SignatureTTLSeconds c\<rparr>"
  "(if b then c\<lparr>cf_MTLS := (cf_MTLS c)\<lparr>mt_RequireClient := True\<rparr>\<rparr> else c) =
     c\<lparr>cf_MTLS := (cf_MTLS c)\<lparr>mt_RequireClient := mt_RequireClient (cf_MTLS c) \<or> b\<rparr>\<rparr>"
  by simp_all

lemma reject_if: "(if b then (Some e, x) else y) = (None, c) \<longleftrightarrow> \<not> b \<and> y = (None, c)"
  by simp

lemma Validate_ok_iff: "Validate c = (None, c') \<longleftrightarrow> config_ok c \<and> c' = with_defaults c"
proof -
  let ?payload = "if cf_MaxPayloadBytes c = 0 then 65536 else cf_MaxPayloadBytes c"
  let ?ttl = "if cf_SignatureTTLSeconds c = 0 then 300 else cf_SignatureTTLSeconds c"
  have n: "?payload < 1024 \<longleftrightarrow> \<not> (cf_MaxPayloadBytes c = 0 \<or> 1024 \<le> cf_MaxPayloadBytes c)"
    "?ttl < 1 \<longleftrightarrow> \<not> 0 \<le> cf_SignatureTTLSeconds c" by auto
  have defaults: "DefaultMaxPayloadBytes = 65536" "DefaultSignatureTTL div second = 300"
    by (simp_all add: DefaultMaxPayloadBytes_def DefaultSignatureTTL_def minute_def second_def)
  have c': "c\<lparr>cf_ReplayPath := if cf_ReplayPath c = [] then Join [Dir (cf_StoragePath c), ''replay.db''] else cf_ReplayPath c,
      cf_MaxPayloadBytes := ?payload, cf_SignatureTTLSeconds := ?ttl,
      cf_MTLS := (cf_MTLS c)\<lparr>mt_RequireClient := mt_RequireClient (cf_MTLS c) \<or> devices_require_client_cert (cf_AllowedDevices c)\<rparr>\<rparr>
      = with_defaults c"
    by (simp add: with_defaults_def devices_require_client_cert_iff)
  have devices: "cf_AllowedDevices (with_defaults c) = cf_AllowedDevices c" by (simp add: with_defaults_def)
  show ?thesis
    unfolding Validate_def
    by (simp add: if_assign Let_def reject_if AuthDevices_ok_cases defaults n c' config_ok_def devices
        cong: if_cong split del: if_split)
      (simp add: devices_require_client_cert_iff not_less)
qed

lemma Join_ne: "Join [d, ''replay.db''] \<noteq> []"
  by (auto simp: Join_def Clean_def Let_def)

lemma with_defaults_ok:
  assumes "config_ok c"
  shows "config_ok (with_defaults c)" and "with_defaults (with_defaults c) = with_defaults c"
proof -
  from assms show "config_ok (with_defaults c)" unfolding config_ok_def by (auto simp: with_defaults_def)
  show "with_defaults (with_defaults c) = with_defaults c"
    by (simp add: with_defaults_def Join_ne)
qed

section \<open>Properties\<close>

text \<open>Claim C34: \<open>Validate\<close> succeeds exactly on the configurations that meet the stated conditions:
  the addresses, the storage path, a device and a package are given, the limits are zero
  (take the default) or in range, enabled mutual TLS names its files, a device bound to a
  certificate has mutual TLS enabled, and every device has an id and a base64 key of 32 bytes.
  It then leaves the configuration with all defaults filled in, with client certificates
  required as soon as one device is bound to one.\<close>

theorem validate_accepts_iff: "Validate c = (None, c') \<longleftrightarrow> config_ok c \<and> c' = with_defaults c"
  by (rule Validate_ok_iff)

lemma Load_Inr:
  assumes "Load ReadFile Unmarshal path = Inr cfg"
  shows "\<exists>c. config_ok c \<and> cfg = with_defaults c"
  using assms Validate_ok_iff by (auto simp: Load_def split: if_splits sum.splits prod.splits option.splits)

text \<open>What the rest of the proxy relies on in a loaded configuration.\<close>

definition loaded_config :: "Config \<Rightarrow> bool" where
  "loaded_config c \<longleftrightarrow>
     config_ok c \<and> cf_ReplayPath c \<noteq> [] \<and> 1024 \<le> cf_MaxPayloadBytes c \<and> 1 \<le> cf_SignatureTTLSeconds c \<and>
     0 \<le> cf_StorageRotateMaxBytes c \<and> cf_AllowedDevices c \<noteq> [] \<and> AuthDevices c = Inr (map device_of (cf_AllowedDevices c)) \<and>
     (\<forall>d\<in>set (cf_AllowedDevices c). bound_device d \<longrightarrow> mt_Enabled (cf_MTLS c) \<and> mt_RequireClient (cf_MTLS c))"

lemma Load_loaded:
  assumes "Load ReadFile Unmarshal path = Inr cfg"
  shows "loaded_config cfg"
proof -
  obtain c where c: "config_ok c" and cfg: "cfg = with_defaults c" using Load_Inr [OF assms] by blast
  have "AuthDevices cfg = Inr (map device_of (cf_AllowedDevices cfg))"
    using with_defaults_ok(1) [OF c] by (simp add: AuthDevices_Inr cfg config_ok_def)
  with with_defaults_ok(1) [OF c] c show ?thesis
    unfolding loaded_config_def cfg by (auto simp: with_defaults_def config_ok_def Join_ne)
qed

text \<open>Claim C35: every configuration that \<open>Load\<close> returns is well formed, whatever the file holds: all
  required fields are present, the payload limit is at least 1024 bytes, the lifetime of
  signatures at least one second and the rotation limit not negative (zero turns rotation by
  size off), the devices are not empty and convert without error, a
  device bound to a certificate implies mutual TLS with required client certificates, and
  validating it again changes nothing.\<close>

theorem loaded_config_well_formed:
  assumes "Load ReadFile Unmarshal path = Inr cfg"
  shows "loaded_config cfg \<and> Validate cfg = (None, cfg)"
proof -
  obtain c where "config_ok c" "cfg = with_defaults c" using Load_Inr [OF assms] by blast
  with with_defaults_ok have "Validate cfg = (None, cfg)" by (simp add: Validate_ok_iff)
  with Load_loaded [OF assms] show ?thesis by simp
qed

text \<open>A configuration in the shape of the repository's example.\<close>

definition sample_config :: Config where
  "sample_config = zero_Config\<lparr>cf_GRPCAddr := ''127.0.0.1:7443'', cf_HTTPAddr := ''127.0.0.1:7080'',
     cf_StoragePath := ''frames.jsonl'', cf_AllowedPackages := [''com.android.settings''],
     cf_AllowedDevices := [\<lparr>dc_DeviceID = ''test-device'',
       dc_Ed25519PublicKeyBase64 = base64_EncodeToString (ed_Public sample_ed sample_key),
       dc_PublicKeyID = ''test-key'', dc_ClientCertFingerprintSHA256 = []\<rparr>]\<rparr>"

lemma sample_config_ok: "config_ok sample_config"
  by (simp add: config_ok_def sample_config_def zero_Config_def device_config_ok_def base64_decode_encode
      bound_device_def sample_ed_def sample_key_def ed_PublicKeySize_def)

lemma sample_Load: "Load (\<lambda>_. Inr []) (\<lambda>_. Inr sample_config) ''config.json'' = Inr (with_defaults sample_config)"
  using Validate_ok_iff [of sample_config "with_defaults sample_config"] sample_config_ok by (simp add: Load_def)

theorem loaded_config_well_formed_witness:
  "loaded_config (with_defaults sample_config) \<and> cf_ReplayPath (with_defaults sample_config) = ''replay.db''"
proof -
  have "Join [Dir ''frames.jsonl'', ''replay.db''] = ''replay.db''" by code_simp
  with loaded_config_well_formed [OF sample_Load] show ?thesis
    by (simp add: with_defaults_def sample_config_def zero_Config_def)
qed

text \<open>Claim C37: the lifetime of a signature is the configured number of seconds exactly as long as
  that number is at most 9223372036. A larger one passes validation and wraps around: 18446744074
  seconds become 290 milliseconds.\<close>

theorem signature_ttl_exact_iff:
  assumes "1 \<le> cf_SignatureTTLSeconds c"
  shows "(SignatureTTL c = cf_SignatureTTLSeconds c * second \<longleftrightarrow> cf_SignatureTTLSeconds c \<le> 9223372036) \<and>
    SignatureTTL (c\<lparr>cf_SignatureTTLSeconds := 18446744074\<rparr>) = 290448384 \<and>
    (config_ok c \<longrightarrow> config_ok (c\<lparr>cf_SignatureTTLSeconds := 18446744074\<rparr>))"
proof (intro conjI impI)
  let ?n = "cf_SignatureTTLSeconds c * second"
  have ttl: "SignatureTTL c = wrap64 ?n" using assms by (simp add: SignatureTTL_def)
  have pos: "0 \<le> ?n" using assms by (simp add: second_def)
  show "SignatureTTL c = ?n \<longleftrightarrow> cf_SignatureTTLSeconds c \<le> 9223372036"
  proof
    assume "SignatureTTL c = ?n"
    then have "in_int64 ?n" by (metis ttl in_int64_wrap64)
    then show "cf_SignatureTTLSeconds c \<le> 9223372036" by (simp add: in_int64_def second_def)
  next
    assume "cf_SignatureTTLSeconds c \<le> 9223372036"
    then have "in_int64 ?n" using pos by (simp add: in_int64_def second_def)
    then show "SignatureTTL c = ?n" by (simp add: ttl wrap64_id)
  qed
  show "SignatureTTL (c\<lparr>cf_SignatureTTLSeconds := 18446744074\<rparr>) = 290448384"
    by (simp add: SignatureTTL_def wrap64_def second_def)
  show "config_ok (c\<lparr>cf_SignatureTTLSeconds := 18446744074\<rparr>)" if "config_ok c"
    using that by (simp add: config_ok_def)
qed

theorem signature_ttl_exact_iff_witness:
  "SignatureTTL (with_defaults sample_config) = 300 * second \<and>
   config_ok (with_defaults sample_config\<lparr>cf_SignatureTTLSeconds := 18446744074\<rparr>)"
proof -
  have ttl: "cf_SignatureTTLSeconds (with_defaults sample_config) = 300"
    by (simp add: with_defaults_def sample_config_def zero_Config_def)
  then have "1 \<le> cf_SignatureTTLSeconds (with_defaults sample_config)" by simp
  from signature_ttl_exact_iff [OF this] ttl with_defaults_ok(1) [OF sample_config_ok] show ?thesis by simp
qed

end
