(* ===== verification/Proxy.thy ===== *)
theory Proxy
  imports Ingest Config
begin

text \<open>
  \<open>cmd/golem-proxy/main.go\<close>: the program that loads the configuration, wires the verifier, the
  pipeline and the sink into the ingest service and serves it, and its life over restarts and
  crashes. The TLS and X.509 calls are an environment; the certificate and pool types are
  type variables. The gRPC and HTTP servers appear by what the program hands to them and by
  the event that ends \<open>run\<close>; their goroutines are in \<open>Serving\<close>.
\<close>

section \<open>Transport credentials\<close>

datatype client_auth = VerifyClientCertIfGiven | RequireAndVerifyClientCert

definition VersionTLS13 :: nat where "VersionTLS13 = 0x0304"

record ('c, 'p) tls_config =
  tc_MinVersion :: nat
  tc_Certificates :: "'c list"
  tc_ClientCAs :: 'p
  tc_ClientAuth :: client_auth

record ('c, 'p) tls_env =
  te_LoadX509KeyPair :: "string \<Rightarrow> string \<Rightarrow> string + 'c"
  te_ReadFile :: "string \<Rightarrow> string + bytes"
  te_AppendCertsFromPEM :: "bytes \<Rightarrow> 'p option"  \<comment> \<open>the new pool, when the bytes hold a certificate\<close>

datatype run_error =
    ConfigFailed config_error
  | AuthFailed error
  | StorageFailed storage_error
  | LoadCertificate string
  | ReadClientCA string
  | NoClientCA
  | ServeFailed string

definition transportCredentials :: "('c, 'p) tls_env \<Rightarrow> MTLSConfig \<Rightarrow> run_error + ('c, 'p) tls_config" where
  "transportCredentials env cfg =
     (case te_LoadX509KeyPair env (mt_CertFile cfg) (mt_KeyFile cfg) of
        Inl err \<Rightarrow> Inl (LoadCertificate err)
      | Inr cert \<Rightarrow>
          (case te_ReadFile env (mt_ClientCAFile cfg) of
             Inl err \<Rightarrow> Inl (ReadClientCA err)
           | Inr clientCA \<Rightarrow>
               (case te_AppendCertsFromPEM env clientCA of
                  None \<Rightarrow> Inl NoClientCA
                | Some pool \<Rightarrow>
                    let clientAuth = (if mt_RequireClient cfg then RequireAndVerifyClientCert else VerifyClientCertIfGiven)
                    in Inr \<lparr>tc_MinVersion = VersionTLS13, tc_Certificates = [cert], tc_ClientCAs = pool,
                         tc_ClientAuth = clientAuth\<rparr>)))"

section \<open>The health endpoints\<close>

text \<open>The patterns registered on the mux, with the status and the body their handler writes.\<close>

definition healthHandler :: "(string \<times> nat \<times> string) list" where
  "healthHandler = [(''/healthz'', 200, ''ok'' @ [CHR 0x0A]), (''/readyz'', 200, ''ready'' @ [CHR 0x0A])]"

section \<open>Startup\<close>

text \<open>
  What \<open>run\<close> builds: the service, its parts, and the options of the gRPC server. The state of
  the service is assembled from the new sink, the new pipeline, the files and the database.
\<close>

record ('c, 'p) startup_env =
  su_ReadFile :: "string \<Rightarrow> string + bytes"
  su_Unmarshal :: "bytes \<Rightarrow> string + Config"
  su_MkdirErr :: bool
  su_sqlite :: sqlite_open_env
  su_tls :: "('c, 'p) tls_env"

type_synonym proxy_service = "(sql_env, replay_db, nat \<Rightarrow> time, Pipeline, os_env, JSONLSink \<times> fs) Service"
type_synonym proxy_istate = "(replay_db, Pipeline, JSONLSink \<times> fs) ingest_state"
type_synonym proxy_ienv = "(sql_env, nat \<Rightarrow> time, os_env) ingest_env"
type_synonym dbs = "string \<rightharpoonup> replay_db"

record ('c, 'p) proxy =
  px_config :: Config
  px_registry :: StaticDeviceRegistry
  px_sink :: JSONLSink
  px_guard :: SQLiteReplayGuard
  px_pipeline :: Pipeline
  px_service :: proxy_service
  px_options :: "('c, 'p) tls_config server_option list"
  px_http :: "string \<times> (string \<times> nat \<times> string) list"

definition proxy_verifier :: "Config \<Rightarrow> StaticDeviceRegistry \<Rightarrow> SQLiteReplayGuard \<Rightarrow> (sql_env, replay_db) Verifier" where
  "proxy_verifier cfg registry guard = \<lparr>
     vf_Registry = Some (LookupDevice registry),
     vf_ReplayGuard = Some (SQLite_CheckAndRecord (Some guard)),
     vf_MaxPayloadBytes = cf_MaxPayloadBytes cfg,
     vf_TTL = SignatureTTL cfg,
     vf_Now = None\<rparr>"

text \<open>The options of the gRPC server, with the credentials when mutual TLS is enabled.\<close>

definition grpc_options ::
  "('c, 'p) tls_env \<Rightarrow> Config \<Rightarrow> StaticDeviceRegistry \<Rightarrow> run_error + ('c, 'p) tls_config server_option list" where
  "grpc_options env cfg registry =
     (let grpcOptions = ServerOptions (wrap64 (cf_MaxPayloadBytes cfg + 4096))
      in if mt_Enabled (cf_MTLS cfg)
         then
           let mtls = cf_MTLS cfg;
               mtls = (if RequiresClientCert (Some registry) then mtls\<lparr>mt_RequireClient := True\<rparr> else mtls)
           in (case transportCredentials env mtls of
                 Inl err \<Rightarrow> Inl err
               | Inr creds \<Rightarrow> Inr (grpcOptions @ [Creds creds]))
         else Inr grpcOptions)"

definition start_proxy ::
  "(SanitizedFrame \<Rightarrow> string + bytes) \<Rightarrow> ('c, 'p) startup_env \<Rightarrow> string \<Rightarrow> dbs \<Rightarrow> (run_error + ('c, 'p) proxy) \<times> dbs" where
  "start_proxy Marshal env configPath dbs =
     (case Load (su_ReadFile env) (su_Unmarshal env) configPath of
        Inl err \<Rightarrow> (Inl (ConfigFailed err), dbs)
      | Inr cfg \<Rightarrow>
          (case AuthDevices cfg of
             Inl err \<Rightarrow> (Inl (ConfigFailed err), dbs)
           | Inr devices \<Rightarrow>
               (case NewStaticDeviceRegistry devices of
                  Inl err \<Rightarrow> (Inl (AuthFailed err), dbs)
                | Inr registry \<Rightarrow>
                    (case NewJSONLSinkWithOptions (su_MkdirErr env) (cf_StoragePath cfg)
                            \<lparr>jo_MaxBytes = cf_StorageRotateMaxBytes cfg, jo_RotateDaily = cf_StorageRotateDaily cfg,
                              jo_Sync = StorageFsyncEnabled cfg\<rparr> of
                       Inl err \<Rightarrow> (Inl (StorageFailed err), dbs)
                     | Inr sink \<Rightarrow>
                         (case NewSQLiteReplayGuard (su_sqlite env) (cf_ReplayPath cfg) dbs of
                            (Inl err, dbs) \<Rightarrow> (Inl (AuthFailed err), dbs)
                          | (Inr replayGuard, dbs) \<Rightarrow>
                              let pipeline = NewPipeline (cf_AllowedPackages cfg) (cf_SensitivePackages cfg);
                                  service = \<lparr>sv_Verifier = Some (proxy_verifier cfg registry replayGuard),
                                    sv_Sanitizer = Some Process, sv_Storage = Some (json_sink_write Marshal)\<rparr>
                              in (case grpc_options (su_tls env) cfg registry of
                                    Inl err \<Rightarrow> (Inl err, dbs)
                                  | Inr grpcOptions \<Rightarrow>
                                      (Inr \<lparr>px_config = cfg, px_registry = registry, px_sink = sink, px_guard = replayGuard,
                                         px_pipeline = pipeline, px_service = service, px_options = grpcOptions,
                                         px_http = (cf_HTTPAddr cfg, healthHandler)\<rparr>, dbs)))))))"

definition initial_state :: "('c, 'p) proxy \<Rightarrow> fs \<Rightarrow> dbs \<Rightarrow> proxy_istate" where
  "initial_state p fs dbs = \<lparr>
     is_guard = (case dbs (cf_ReplayPath (px_config p)) of None \<Rightarrow> empty_db | Some db \<Rightarrow> db),
     is_sanitizer = px_pipeline p, is_sink = (px_sink p, fs), is_log = []\<rparr>"

section \<open>The end of \<open>run\<close>\<close>

text \<open>What the select receives: the cancelled context, or the result of one of the servers.\<close>

datatype serve_result = ServeNil | ErrServerStopped | ErrServerClosed | ServeError string

datatype run_event = CtxDone "string option" | ErrCh serve_result

datatype stop_action = GracefulStop | HttpShutdown | GrpcStop | HttpClose

definition run_exit :: "run_event \<Rightarrow> stop_action list \<times> run_error option" where
  "run_exit ev =
     (case ev of
        CtxDone shutdown \<Rightarrow> ([GracefulStop, HttpShutdown], map_option ServeFailed shutdown)
      | ErrCh ServeNil \<Rightarrow> ([], None)
      | ErrCh ErrServerStopped \<Rightarrow> ([], None)
      | ErrCh ErrServerClosed \<Rightarrow> ([], None)
      | ErrCh (ServeError err) \<Rightarrow> ([GrpcStop, HttpClose], Some (ServeFailed err)))"

text \<open>\<open>main\<close>: the exit code of the process.\<close>

definition main_exit :: "run_error option \<Rightarrow> nat" where
  "main_exit err = (case err of None \<Rightarrow> 0 | Some _ \<Rightarrow> 1)"

section \<open>What a started proxy looks like\<close>

lemma start_proxy_ok:
  assumes "start_proxy Marshal env configPath dbs = (Inr p, dbs')"
  shows "loaded_config (px_config p)"
    and "NewStaticDeviceRegistry (map device_of (cf_AllowedDevices (px_config p))) = Inr (px_registry p)"
    and "px_service p = service_of (proxy_verifier (px_config p) (px_registry p) (px_guard p)) Process (json_sink_write Marshal)"
    and "sink_wf (px_sink p)" and "js_path (px_sink p) = cf_StoragePath (px_config p)"
    and "dbs' = create_tables (cf_ReplayPath (px_config p)) dbs"
    and "grpc_options (su_tls env) (px_config p) (px_registry p) = Inr (px_options p)"
    and "px_guard p = \<lparr>sg_db = Some DbOpen\<rparr>"
    and "px_pipeline p = NewPipeline (cf_AllowedPackages (px_config p)) (cf_SensitivePackages (px_config p))"
    and "NewJSONLSinkWithOptions (su_MkdirErr env) (cf_StoragePath (px_config p))
      \<lparr>jo_MaxBytes = cf_StorageRotateMaxBytes (px_config p), jo_RotateDaily = cf_StorageRotateDaily (px_config p),
        jo_Sync = StorageFsyncEnabled (px_config p)\<rparr> = Inr (px_sink p)"
proof -
  obtain cfg where cfg: "Load (su_ReadFile env) (su_Unmarshal env) configPath = Inr cfg"
    using assms by (auto simp: start_proxy_def split: sum.splits)
  have loaded: "loaded_config cfg" by (rule Load_loaded [OF cfg])
  then have dev: "AuthDevices cfg = Inr (map device_of (cf_AllowedDevices cfg))" by (simp add: loaded_config_def)
  obtain registry where reg: "NewStaticDeviceRegistry (map device_of (cf_AllowedDevices cfg)) = Inr registry"
    using assms by (auto simp: start_proxy_def cfg dev split: sum.splits)
  obtain sink where sink: "NewJSONLSinkWithOptions (su_MkdirErr env) (cf_StoragePath cfg)
      \<lparr>jo_MaxBytes = cf_StorageRotateMaxBytes cfg, jo_RotateDaily = cf_StorageRotateDaily cfg,
        jo_Sync = StorageFsyncEnabled cfg\<rparr> = Inr sink"
    using assms by (auto simp: start_proxy_def cfg dev reg split: sum.splits)
  obtain guard where guard: "NewSQLiteReplayGuard (su_sqlite env) (cf_ReplayPath cfg) dbs = (Inr guard, dbs')"
    using assms by (auto simp: start_proxy_def cfg dev reg sink Let_def split: sum.splits prod.splits)
  obtain opts where opts: "grpc_options (su_tls env) cfg registry = Inr opts"
    using assms by (auto simp: start_proxy_def cfg dev reg sink guard Let_def split: sum.splits)
  have p: "p = \<lparr>px_config = cfg, px_registry = registry, px_sink = sink, px_guard = guard,
      px_pipeline = NewPipeline (cf_AllowedPackages cfg) (cf_SensitivePackages cfg),
      px_service = \<lparr>sv_Verifier = Some (proxy_verifier cfg registry guard),
        sv_Sanitizer = Some Process, sv_Storage = Some (json_sink_write Marshal)\<rparr>,
      px_options = opts, px_http = (cf_HTTPAddr cfg, healthHandler)\<rparr>"
    using assms by (simp add: start_proxy_def cfg dev reg sink guard opts)
  have g: "guard = \<lparr>sg_db = Some DbOpen\<rparr>" "dbs' = create_tables (cf_ReplayPath cfg) dbs"
    using guard by (auto simp: NewSQLiteReplayGuard_def split: if_splits)
  show "loaded_config (px_config p)"
    "NewStaticDeviceRegistry (map device_of (cf_AllowedDevices (px_config p))) = Inr (px_registry p)"
    "px_service p = service_of (proxy_verifier (px_config p) (px_registry p) (px_guard p)) Process (json_sink_write Marshal)"
    "sink_wf (px_sink p)" "js_path (px_sink p) = cf_StoragePath (px_config p)"
    "dbs' = create_tables (cf_ReplayPath (px_config p)) dbs"
    "grpc_options (su_tls env) (px_config p) (px_registry p) = Inr (px_options p)"
    "px_guard p = \<lparr>sg_db = Some DbOpen\<rparr>"
    "px_pipeline p = NewPipeline (cf_AllowedPackages (px_config p)) (cf_SensitivePackages (px_config p))"
    "NewJSONLSinkWithOptions (su_MkdirErr env) (cf_StoragePath (px_config p))
      \<lparr>jo_MaxBytes = cf_StorageRotateMaxBytes (px_config p), jo_RotateDaily = cf_StorageRotateDaily (px_config p),
        jo_Sync = StorageFsyncEnabled (px_config p)\<rparr> = Inr (px_sink p)"
    using loaded reg new_sink_wf [OF sink] sink g opts by (simp_all add: p service_of_def)
qed

lemma transportCredentials_ok:
  assumes "transportCredentials env cfg = Inr creds"
  shows "tc_MinVersion creds = VersionTLS13"
    and "tc_ClientAuth creds = (if mt_RequireClient cfg then RequireAndVerifyClientCert else VerifyClientCertIfGiven)"
  using assms by (auto simp: transportCredentials_def Let_def split: sum.splits option.splits)

lemma grpc_options_mtls:
  assumes "grpc_options env cfg registry = Inr opts" and "mt_Enabled (cf_MTLS cfg)" and "mt_RequireClient (cf_MTLS cfg)"
  shows "\<exists>mtls creds. transportCredentials env mtls = Inr creds \<and> mt_RequireClient mtls \<and> Creds creds \<in> set opts"
proof -
  define mtls where "mtls = (if RequiresClientCert (Some registry) then (cf_MTLS cfg)\<lparr>mt_RequireClient := True\<rparr> else cf_MTLS cfg)"
  obtain creds where "transportCredentials env mtls = Inr creds" "opts = ServerOptions (wrap64 (cf_MaxPayloadBytes cfg + 4096)) @ [Creds creds]"
    using assms(1,2) by (auto simp: grpc_options_def Let_def mtls_def [symmetric] split: sum.splits)
  moreover have "mt_RequireClient mtls" using assms(3) by (simp add: mtls_def)
  ultimately show ?thesis by auto
qed

section \<open>Properties\<close>

text \<open>Claim C16: certificate binding fails closed. A proxy that started with a configuration in which
  some device is bound to a client certificate serves over TLS 1.3 and requires and verifies a
  client certificate on every connection.\<close>

theorem bound_device_requires_client_cert:
  assumes "start_proxy Marshal env configPath dbs = (Inr p, dbs')"
    and "d \<in> set (cf_AllowedDevices (px_config p))" and "bound_device d"
  shows "\<exists>creds. Creds creds \<in> set (px_options p) \<and> tc_MinVersion creds = VersionTLS13 \<and>
    tc_ClientAuth creds = RequireAndVerifyClientCert"
proof -
  let ?cfg = "px_config p"
  have "mt_Enabled (cf_MTLS ?cfg)" "mt_RequireClient (cf_MTLS ?cfg)"
    using start_proxy_ok(1) [OF assms(1)] assms(2,3) by (auto simp: loaded_config_def)
  from grpc_options_mtls [OF start_proxy_ok(7) [OF assms(1)] this] show ?thesis
    using transportCredentials_ok by fastforce
qed

text \<open>The example configuration with its device bound to a certificate, and a system without faults.\<close>

definition bound_config :: Config where
  "bound_config = sample_config\<lparr>
     cf_AllowedDevices := map (\<lambda>d. d\<lparr>dc_ClientCertFingerprintSHA256 := ''ab12''\<rparr>) (cf_AllowedDevices sample_config),
     cf_MTLS := \<lparr>mt_Enabled = True, mt_CertFile = ''server.crt'', mt_KeyFile = ''server.key'',
       mt_ClientCAFile = ''ca.crt'', mt_RequireClient = False\<rparr>\<rparr>"

definition good_startup :: "Config \<Rightarrow> (unit, unit) startup_env" where
  "good_startup cfg = \<lparr>su_ReadFile = (\<lambda>_. Inr []), su_Unmarshal = (\<lambda>_. Inr cfg), su_MkdirErr = False,
     su_sqlite = \<lparr>so_MkdirAll = False, so_Open = False, so_WAL = False, so_BusyTimeout = False, so_Schema = False\<rparr>,
     su_tls = \<lparr>te_LoadX509KeyPair = (\<lambda>_ _. Inr ()), te_ReadFile = (\<lambda>_. Inr []), te_AppendCertsFromPEM = (\<lambda>_. Some ())\<rparr>\<rparr>"

lemma good_start:
  assumes "config_ok cfg"
  obtains p where "start_proxy Marshal (good_startup cfg) ''config.json'' dbs =
      (Inr p, create_tables (cf_ReplayPath (with_defaults cfg)) dbs)" "px_config p = with_defaults cfg"
proof -
  let ?cfg = "with_defaults cfg"
  have load: "Load (su_ReadFile (good_startup cfg)) (su_Unmarshal (good_startup cfg)) ''config.json'' = Inr ?cfg"
    using Validate_ok_iff [of cfg ?cfg] assms by (simp add: Load_def good_startup_def)
  note loaded = Load_loaded [OF load, unfolded loaded_config_def]
  have dev: "AuthDevices ?cfg = Inr (map device_of (cf_AllowedDevices ?cfg))" using loaded by blast
  have "\<forall>d\<in>set (cf_AllowedDevices ?cfg). device_config_ok d" using loaded by (simp add: config_ok_def)
  then have "\<exists>r. register_devices (map device_of ds) acc = Inr r" if "set ds \<subseteq> set (cf_AllowedDevices ?cfg)" for ds acc
    using that by (induction ds arbitrary: acc) (auto simp: device_config_ok_def device_of_def)
  then obtain r where reg: "NewStaticDeviceRegistry (map device_of (cf_AllowedDevices ?cfg)) = Inr r"
    unfolding NewStaticDeviceRegistry_def by blast
  have mtls: "\<exists>opts. grpc_options (su_tls (good_startup cfg)) ?cfg r = Inr opts"
    by (simp add: grpc_options_def transportCredentials_def good_startup_def Let_def)
  have sink: "\<exists>s. NewJSONLSinkWithOptions (su_MkdirErr (good_startup cfg)) (cf_StoragePath ?cfg)
      \<lparr>jo_MaxBytes = cf_StorageRotateMaxBytes ?cfg, jo_RotateDaily = cf_StorageRotateDaily ?cfg,
        jo_Sync = StorageFsyncEnabled ?cfg\<rparr> = Inr s"
    using loaded by (simp add: NewJSONLSinkWithOptions_def good_startup_def config_ok_def)
  have guard: "NewSQLiteReplayGuard (su_sqlite (good_startup cfg)) (cf_ReplayPath ?cfg) dbs =
      (Inr \<lparr>sg_db = Some DbOpen\<rparr>, create_tables (cf_ReplayPath ?cfg) dbs)"
    using loaded by (simp add: NewSQLiteReplayGuard_def good_startup_def)
  from mtls sink obtain opts s where "grpc_options (su_tls (good_startup cfg)) ?cfg r = Inr opts"
    "NewJSONLSinkWithOptions (su_MkdirErr (good_startup cfg)) (cf_StoragePath ?cfg)
      \<lparr>jo_MaxBytes = cf_StorageRotateMaxBytes ?cfg, jo_RotateDaily = cf_StorageRotateDaily ?cfg,
        jo_Sync = StorageFsyncEnabled ?cfg\<rparr> = Inr s" by blast
  with load dev reg guard have "\<exists>p. start_proxy Marshal (good_startup cfg) ''config.json'' dbs =
      (Inr p, create_tables (cf_ReplayPath ?cfg) dbs) \<and> px_config p = ?cfg"
    by (simp add: start_proxy_def)
  with that show ?thesis by blast
qed

theorem bound_device_requires_client_cert_witness:
  "\<exists>p dbs' creds. start_proxy sample_marshal (good_startup bound_config) ''config.json'' Map.empty = (Inr p, dbs') \<and>
     Creds creds \<in> set (px_options p) \<and> tc_ClientAuth creds = RequireAndVerifyClientCert"
proof -
  have "config_ok bound_config"
    using sample_config_ok by (simp add: bound_config_def config_ok_def sample_config_def zero_Config_def device_config_ok_def)
  then obtain p dbs' where p: "start_proxy sample_marshal (good_startup bound_config) ''config.json'' Map.empty = (Inr p, dbs')"
    "px_config p = with_defaults bound_config" by (rule good_start) blast
  have "hd (cf_AllowedDevices (px_config p)) \<in> set (cf_AllowedDevices (px_config p)) \<and>
      bound_device (hd (cf_AllowedDevices (px_config p)))"
    by (simp add: p(2) with_defaults_def bound_config_def sample_config_def zero_Config_def bound_device_def)
  with bound_device_requires_client_cert [OF p(1)] p(1) show ?thesis by blast
qed

text \<open>Claim C17: no request makes a started proxy panic, whatever the envelope, the peer, the database
  and the operating system do: the keys its verifier works with have the length that
  \<open>ed25519.Verify\<close> insists on.\<close>

theorem started_proxy_never_panics:
  assumes "start_proxy Marshal env configPath dbs = (Inr p, dbs')"
  shows "fst (IngestFrame ed Unmarshal (px_service p) ienv st envelope) \<noteq> Panicked m"
proof (cases envelope)
  case None
  then show ?thesis by (simp add: IngestFrame_unfold)
next
  case (Some e)
  let ?v = "proxy_verifier (px_config p) (px_registry p) (px_guard p)"
  note ok = start_proxy_ok [OF assms]
  have "fst (verify_call ed ?v ienv (is_guard st) e) \<noteq> Some (GoPanic m')" for m'
    unfolding verify_call_def by (rule Verify_no_panic [OF ok(2)]) (simp_all add: proxy_verifier_def)
  then have "\<not> is_panic err" if "fst (verify_call ed ?v ienv (is_guard st) e) = Some err" for err
    using that by (auto simp: is_panic_def split: error.splits)
  moreover have "fst (sanitize_and_store Process (json_sink_write Marshal) ienv st' e frame) \<noteq> Panicked m" for st' frame
    by (auto simp: sanitize_and_store_def Let_def split: if_splits prod.splits option.splits)
  ultimately show ?thesis
    unfolding ok(3) Some
    by (auto simp: IngestFrame_unfold service_of_def verify_call_def Let_def split: prod.splits option.splits sum.splits)
qed

theorem started_proxy_never_panics_witness:
  "\<exists>p dbs'. start_proxy sample_marshal (good_startup sample_config) ''config.json'' Map.empty = (Inr p, dbs') \<and>
     fst (IngestFrame sample_ed sample_unmarshal (px_service p) sample_env (initial_state p Map.empty dbs') (Some sample_signed)) \<noteq> Panicked []"
proof -
  obtain p dbs' where p: "start_proxy sample_marshal (good_startup sample_config) ''config.json'' Map.empty = (Inr p, dbs')"
    using sample_config_ok by (rule good_start) blast
  with started_proxy_never_panics [OF p] show ?thesis by blast
qed

end
