(* ===== verification/Lifecycle.thy ===== *)
theory Lifecycle
  imports Proxy "HOL-Library.Multiset"
begin

text \<open>
  The proxy over its whole life: it is started and stopped, serves requests and may die at any
  moment. Requests are served concurrently: a call touches shared state twice, in the replay
  guard and in the sink, and each holds its lock for the whole operation, so the calls
  interleave as sequences of these two sections. A step relation describes this; what
  survives a stop is the file system and the database. The locales state what a step owes to
  the replay records, to the files and to the calls in flight, and derive what holds of every
  run.
\<close>

section \<open>Runs of a system\<close>

text \<open>A run collects the events of its steps.\<close>

inductive runs :: "('s \<Rightarrow> 'a list \<Rightarrow> 's \<Rightarrow> bool) \<Rightarrow> 's \<Rightarrow> 'a list \<Rightarrow> 's \<Rightarrow> bool" for step where
  runs_refl: "runs step s [] s"
| runs_step: "step s as s1 \<Longrightarrow> runs step s1 bs s2 \<Longrightarrow> runs step s (as @ bs) s2"

lemma runs_single: "step s as s' \<Longrightarrow> runs step s as s'"
  using runs_step [of step s as s' "[]" s'] runs_refl by fastforce

lemma runs_trans: "runs step s as s1 \<Longrightarrow> runs step s1 bs s2 \<Longrightarrow> runs step s (as @ bs) s2"
proof (induction rule: runs.induct)
  case (runs_step s as s1 bs s2')
  from runs.runs_step [OF runs_step.hyps(1) runs_step.IH [OF runs_step.prems]] show ?case by simp
qed simp

text \<open>When a step has at most one event, a run can be cut anywhere between its events.\<close>

lemma runs_cut:
  assumes "\<And>s evs s'. step s evs s' \<Longrightarrow> length evs \<le> 1" and "runs step s (xs @ ys) s'"
  shows "\<exists>s1. runs step s xs s1 \<and> runs step s1 ys s'"
proof -
  have "\<exists>s1. runs step s xs s1 \<and> runs step s1 ys s'" if "runs step s evs s'" "evs = xs @ ys" for evs
    using that
  proof (induction arbitrary: xs rule: runs.induct)
    case (runs_refl s)
    then show ?case by (auto intro: runs.runs_refl)
  next
    case (runs_step s as s1 bs s2)
    show ?case
    proof (cases "xs = []")
      case True
      with runs_step runs.runs_step [where step = step, OF runs_step.hyps] show ?thesis by (auto intro: runs.runs_refl)
    next
      case False
      from assms(1) [OF runs_step.hyps(1)] False runs_step.prems obtain zs where "xs = as @ zs" "bs = zs @ ys"
        by (cases as; cases xs) auto
      with runs_step.IH [of zs] runs.runs_step [where step = step, OF runs_step.hyps(1)] show ?thesis by blast
    qed
  qed
  with assms(2) show ?thesis by blast
qed

text \<open>The steps without a certain event.\<close>

definition avoiding :: "'ev \<Rightarrow> ('s \<Rightarrow> 'ev list \<Rightarrow> 's \<Rightarrow> bool) \<Rightarrow> 's \<Rightarrow> 'ev list \<Rightarrow> 's \<Rightarrow> bool" where
  "avoiding x step s evs s' \<longleftrightarrow> step s evs s' \<and> x \<notin> set evs"

lemma runs_avoiding: "runs step s evs s' \<Longrightarrow> x \<notin> set evs \<Longrightarrow> runs (avoiding x step) s evs s'"
  by (induction rule: runs.induct) (auto intro!: runs.intros simp: avoiding_def)

lemma distinct_sub_mset: "mset xs \<subseteq># mset ys \<Longrightarrow> distinct ys \<Longrightarrow> distinct xs"
proof -
  assume "mset xs \<subseteq># mset ys" "distinct ys"
  then have "count (mset xs) a \<le> 1" for a
    by (metis distinct_count_atmost_1 mset_subset_eq_count order_trans zero_le_one order_refl)
  then show "distinct xs"
  proof (induction xs)
    case (Cons x xs)
    have "count (mset xs) a \<le> 1" for a
    proof -
      have "count (mset xs) a \<le> count (mset (x # xs)) a" by simp
      also note Cons.prems
      finally show ?thesis .
    qed
    moreover have "count (mset xs) x = 0" using Cons.prems [of x] by simp
    ultimately show ?case using Cons.IH by simp
  qed simp
qed

locale stepping =
  fixes step :: "'s \<Rightarrow> 'ev list \<Rightarrow> 's \<Rightarrow> bool"
    and inv :: "'s \<Rightarrow> bool"
  assumes step_inv: "inv s \<Longrightarrow> step s evs s' \<Longrightarrow> inv s'"
begin

lemma system_inv: "runs step s evs s' \<Longrightarrow> inv s \<Longrightarrow> inv s'"
  by (induction rule: runs.induct) (auto intro: step_inv)

end

text \<open>A system that records things once, in the order of their sequence numbers.\<close>

locale replay_system = stepping step inv
  for step :: "'s \<Rightarrow> 'ev list \<Rightarrow> 's \<Rightarrow> bool" and inv +
  fixes recorded :: "'ev list \<Rightarrow> 'a list"
    and view :: "'s \<Rightarrow> replay_spec"
    and key :: "'a \<Rightarrow> string \<times> string \<times> u64"
  assumes recorded_append: "recorded (evs @ evs') = recorded evs @ recorded evs'"
    and recorded_Nil: "recorded [] = []"
    and step_single: "step s evs s' \<Longrightarrow> length (recorded evs) \<le> 1"
    and step_mono: "inv s \<Longrightarrow> step s evs s' \<Longrightarrow>
      sp_seen (view s) \<subseteq> sp_seen (view s') \<and> sp_max (view s) d \<le> sp_max (view s') d"
    and step_fresh: "inv s \<Longrightarrow> step s evs s' \<Longrightarrow> a \<in> set (recorded evs) \<Longrightarrow> key a = (d, f, q) \<Longrightarrow>
      (d, f) \<notin> sp_seen (view s) \<and> sp_max (view s) d < q"
    and step_records: "inv s \<Longrightarrow> step s evs s' \<Longrightarrow> a \<in> set (recorded evs) \<Longrightarrow> key a = (d, f, q) \<Longrightarrow>
      (d, f) \<in> sp_seen (view s') \<and> q \<le> sp_max (view s') d"
begin

lemma system_fresh:
  "runs step s evs s' \<Longrightarrow> inv s \<Longrightarrow> a \<in> set (recorded evs) \<Longrightarrow> key a = (d, f, q) \<Longrightarrow>
     (d, f) \<notin> sp_seen (view s) \<and> sp_max (view s) d < q"
proof (induction rule: runs.induct)
  case (runs_step s as s1 bs s2)
  show ?case
  proof (cases "a \<in> set (recorded as)")
    case True
    with runs_step step_fresh show ?thesis by blast
  next
    case False
    with runs_step step_inv have "(d, f) \<notin> sp_seen (view s1) \<and> sp_max (view s1) d < q" by (auto simp: recorded_append)
    with step_mono [OF runs_step.prems(1) runs_step.hyps(1), of d] show ?thesis by auto
  qed
qed (simp add: recorded_Nil)

lemma system_mono: "runs step s evs s' \<Longrightarrow> inv s \<Longrightarrow>
    sp_seen (view s) \<subseteq> sp_seen (view s') \<and> sp_max (view s) d \<le> sp_max (view s') d"
proof (induction rule: runs.induct)
  case (runs_step s as s1 bs s2)
  from step_mono [OF runs_step.prems runs_step.hyps(1), of d] runs_step.IH step_inv [OF runs_step.prems runs_step.hyps(1)]
  show ?case by (auto intro: order_trans)
qed simp

lemma system_recorded: "runs step s evs s' \<Longrightarrow> inv s \<Longrightarrow> a \<in> set (recorded evs) \<Longrightarrow> key a = (d, f, q) \<Longrightarrow>
    (d, f) \<in> sp_seen (view s') \<and> q \<le> sp_max (view s') d"
proof (induction rule: runs.induct)
  case (runs_step s as s1 bs s2)
  note inv1 = step_inv [OF runs_step.prems(1) runs_step.hyps(1)]
  show ?case
  proof (cases "a \<in> set (recorded as)")
    case True
    with step_records [OF runs_step.prems(1) runs_step.hyps(1)] runs_step.prems(3) system_mono [OF runs_step.hyps(2) inv1, of d]
    show ?thesis by (meson order_trans subsetD)
  next
    case False
    with runs_step inv1 show ?thesis by (auto simp: recorded_append)
  qed
qed (simp add: recorded_Nil)

lemma system_records_once:
  "runs step s evs s' \<Longrightarrow> inv s \<Longrightarrow>
     distinct (map (\<lambda>a. (fst (key a), fst (snd (key a)))) (recorded evs)) \<and> per_device_increasing (map key (recorded evs))"
proof (induction rule: runs.induct)
  case (runs_refl s)
  then show ?case by (simp add: per_device_increasing_def recorded_Nil)
next
  case (runs_step s as s1 bs s2)
  note IH = runs_step.IH [OF step_inv [OF runs_step.prems runs_step.hyps(1)]]
  consider "recorded as = []" | a where "recorded as = [a]"
    using step_single [OF runs_step.hyps(1)] by (cases "recorded as") auto
  then show ?case
  proof cases
    case 1
    with IH show ?thesis by (simp add: recorded_append)
  next
    case (2 a)
    obtain d f q where k: "key a = (d, f, q)" by (cases "key a")
    have rec: "(d, f) \<in> sp_seen (view s1)" "q \<le> sp_max (view s1) d"
      using step_records [OF runs_step.prems runs_step.hyps(1) _ k] 2 by auto
    have new: "(d', f') \<noteq> (d, f) \<and> (d' = d \<longrightarrow> q < q')" if "b \<in> set (recorded bs)" "key b = (d', f', q')" for b d' f' q'
      using system_fresh [OF runs_step.hyps(2) step_inv [OF runs_step.prems runs_step.hyps(1)] that] rec by auto
    have "(fst (key b), fst (snd (key b))) \<noteq> (d, f)" if "b \<in> set (recorded bs)" for b
      using new [OF that, of "fst (key b)" "fst (snd (key b))" "snd (snd (key b))"] by simp
    then have "(d, f) \<notin> (\<lambda>a. (fst (key a), fst (snd (key a)))) ` set (recorded bs)" by force
    moreover have "\<forall>b\<in>set (recorded bs). (\<lambda>(d, f, s) (d', f', s'). d = d' \<longrightarrow> s < s') (d, f, q) (key b)"
      using new by (auto split: prod.split)
    ultimately show ?thesis
      using IH 2 k by (simp add: per_device_increasing_def recorded_append)
  qed
qed

end

text \<open>A system that keeps what it has stored, and one that stores what it accepts.\<close>

locale keeping_system = stepping step inv
  for step :: "'s \<Rightarrow> 'ev list \<Rightarrow> 's \<Rightarrow> bool" and inv +
  fixes stored :: "'s \<Rightarrow> 'f \<Rightarrow> bool"
  assumes step_keeps: "inv s \<Longrightarrow> step s evs s' \<Longrightarrow> stored s x \<Longrightarrow> stored s' x"
begin

lemma system_keeps: "runs step s evs s' \<Longrightarrow> inv s \<Longrightarrow> stored s x \<Longrightarrow> stored s' x"
  by (induction rule: runs.induct) (auto intro: step_inv step_keeps)

end

locale storing_system = keeping_system step inv stored
  for step :: "'s \<Rightarrow> 'ev list \<Rightarrow> 's \<Rightarrow> bool" and inv and stored :: "'s \<Rightarrow> 'f \<Rightarrow> bool" +
  fixes accepted :: "'ev list \<Rightarrow> 'a list"
    and covers :: "'a \<Rightarrow> 'f \<Rightarrow> bool"
  assumes accepted_append: "accepted (evs @ evs') = accepted evs @ accepted evs'"
    and accepted_Nil: "accepted [] = []"
    and step_stores: "inv s \<Longrightarrow> step s evs s' \<Longrightarrow> a \<in> set (accepted evs) \<Longrightarrow> \<exists>x. covers a x \<and> stored s' x"
begin

lemma system_stored: "runs step s evs s' \<Longrightarrow> inv s \<Longrightarrow> a \<in> set (accepted evs) \<Longrightarrow> \<exists>x. covers a x \<and> stored s' x"
proof (induction rule: runs.induct)
  case (runs_step s as s1 bs s2)
  note inv1 = step_inv [OF runs_step.prems(1) runs_step.hyps(1)]
  show ?case
  proof (cases "a \<in> set (accepted as)")
    case True
    then obtain x where "covers a x" "stored s1 x" using step_stores runs_step by blast
    with system_keeps [OF runs_step.hyps(2) inv1] show ?thesis by blast
  next
    case False
    with runs_step inv1 show ?thesis by (auto simp: accepted_append)
  qed
qed (simp add: accepted_Nil)

end

text \<open>
  A system that stores what it accepts until a certain failure, and keeps what it has stored
  even then.
\<close>

locale failing_system = keeping_system step inv stored +
  clean: storing_system "avoiding fail step" "\<lambda>s. inv s \<and> sound s" stored accepted covers
  for step :: "'s \<Rightarrow> 'ev list \<Rightarrow> 's \<Rightarrow> bool" and inv and stored :: "'s \<Rightarrow> 'f \<Rightarrow> bool"
    and fail :: 'ev and sound :: "'s \<Rightarrow> bool" and accepted :: "'ev list \<Rightarrow> 'a list" and covers +
  assumes step_event: "step s evs s' \<Longrightarrow> length evs \<le> 1"
begin

lemma system_stored_before:
  assumes "runs step s evs s'" and "inv s" and "sound s" and "a \<in> set (accepted (takeWhile (\<lambda>ev. ev \<noteq> fail) evs))"
  shows "\<exists>x. covers a x \<and> stored s' x"
proof -
  let ?xs = "takeWhile (\<lambda>ev. ev \<noteq> fail) evs" and ?ys = "dropWhile (\<lambda>ev. ev \<noteq> fail) evs"
  have "runs step s (?xs @ ?ys) s'" using assms(1) by simp
  then obtain s1 where 1: "runs step s ?xs s1" "runs step s1 ?ys s'"
    using runs_cut [where step = step and s = s and xs = ?xs and ys = ?ys and s' = s'] step_event by blast
  have "fail \<notin> set ?xs" by (auto dest: set_takeWhileD)
  from clean.system_stored [OF runs_avoiding [OF 1(1) this] _ assms(4)] assms(2,3) obtain x where "covers a x" "stored s1 x" by blast
  with system_keeps [OF 1(2) system_inv [OF 1(1) assms(2)]] show ?thesis by blast
qed

end

text \<open>Both, with calls in flight: what is recorded enters the pool, and what is accepted leaves it.\<close>

locale recording_system =
  replay_system step inv recorded view key + storing_system step inv stored accepted covers
  for step :: "'s \<Rightarrow> 'ev list \<Rightarrow> 's \<Rightarrow> bool" and inv and recorded :: "'ev list \<Rightarrow> 'a list" and view and key
    and accepted :: "'ev list \<Rightarrow> 'a list" and stored :: "'s \<Rightarrow> 'f \<Rightarrow> bool" and covers +
  fixes pool :: "'s \<Rightarrow> 'a multiset"
  assumes step_pool: "step s evs s' \<Longrightarrow> mset (accepted evs) + pool s' \<subseteq># pool s + mset (recorded evs)"
begin

lemma system_pool: "runs step s evs s' \<Longrightarrow> mset (accepted evs) + pool s' \<subseteq># pool s + mset (recorded evs)"
proof (induction rule: runs.induct)
  case (runs_step s as s1 bs s2)
  have "mset (accepted as) + (mset (accepted bs) + pool s2) \<subseteq># mset (accepted as) + (pool s1 + mset (recorded bs))"
    using runs_step.IH by simp
  also have "\<dots> \<subseteq># pool s + mset (recorded as) + mset (recorded bs)"
    using step_pool [OF runs_step.hyps(1)] by (simp add: add.assoc [symmetric])
  finally show ?case by (simp add: accepted_append recorded_append ac_simps)
qed (simp add: accepted_Nil recorded_Nil)

lemma system_accepts_once:
  assumes "runs step s evs s'" and "inv s" and "pool s = {#}"
  shows "distinct (map (\<lambda>a. (fst (key a), fst (snd (key a)))) (accepted evs)) \<and> mset (accepted evs) \<subseteq># mset (recorded evs)"
proof -
  have sub: "mset (accepted evs) \<subseteq># mset (recorded evs)"
    using system_pool [OF assms(1)] assms(3) by (metis add_0 mset_subset_eq_add_left subset_mset.order_trans)
  let ?id = "\<lambda>a. (fst (key a), fst (snd (key a)))"
  have "distinct (map ?id (recorded evs))" using system_records_once [OF assms(1,2)] by blast
  moreover have "mset (map ?id (accepted evs)) \<subseteq># mset (map ?id (recorded evs))"
    using image_mset_subseteq_mono [OF sub] by simp
  ultimately have "distinct (map ?id (accepted evs))" by (rule distinct_sub_mset [rotated])
  with sub show ?thesis by blast
qed

end

section \<open>The life of the proxy\<close>

text \<open>What is observed: the guard has recorded an envelope, a client was answered accept, and a write
  to the storage file failed, possibly after some bytes.\<close>

datatype call_event = Recorded SignedEnvelope | Accepted SignedEnvelope | WriteFailed

fun recorded_calls :: "call_event list \<Rightarrow> SignedEnvelope list" where
  "recorded_calls [] = []"
| "recorded_calls (Recorded e # evs) = e # recorded_calls evs"
| "recorded_calls (Accepted e # evs) = recorded_calls evs"
| "recorded_calls (WriteFailed # evs) = recorded_calls evs"

fun accepted_calls :: "call_event list \<Rightarrow> SignedEnvelope list" where
  "accepted_calls [] = []"
| "accepted_calls (Recorded e # evs) = accepted_calls evs"
| "accepted_calls (Accepted e # evs) = e # accepted_calls evs"
| "accepted_calls (WriteFailed # evs) = accepted_calls evs"

lemma calls_append:
  "recorded_calls (evs @ evs') = recorded_calls evs @ recorded_calls evs'"
  "accepted_calls (evs @ evs') = accepted_calls evs @ accepted_calls evs'"
  by (induction evs rule: recorded_calls.induct) simp_all

text \<open>The event of the second section of a call. A failing write is counted even when the call does
  not get as far as writing.\<close>

definition finish_events :: "proxy_ienv \<Rightarrow> SignedEnvelope \<Rightarrow> Response outcome \<Rightarrow> call_event list" where
  "finish_events env e out =
     (if accepts out then [Accepted e] else if oe_WriteErr (ie_sink env) \<noteq> None then [WriteFailed] else [])"

lemma finish_events_simps [simp]:
  "recorded_calls (finish_events env e out) = []"
  "accepted_calls (finish_events env e out) = (if accepts out then [e] else [])"
  "length (finish_events env e out) \<le> 1" "length (finish_events env e out) \<le> Suc 0"
  by (simp_all add: finish_events_def)

text \<open>A running proxy has the state of its service and the verified envelopes of the calls in flight.\<close>

datatype ('c, 'p) px_state =
    Stopped fs dbs
  | Running "('c, 'p) proxy" proxy_istate "SignedEnvelope list" dbs

text \<open>What is on disk when the process has ended.\<close>

definition shut :: "('c, 'p) proxy \<Rightarrow> proxy_istate \<Rightarrow> dbs \<Rightarrow> ('c, 'p) px_state" where
  "shut p st dbs = Stopped (snd (is_sink st)) (dbs(cf_ReplayPath (px_config p) \<mapsto> is_guard st))"

text \<open>
  The steps, for one replay database \<open>path\<close>; everything else in the configuration may change
  between starts. A call is verified, which ends with the guard's locked section, and then
  refused or finished, which ends with the sink's; other calls may come in between, and each
  section has surroundings of its own. The process may end at any moment and then loses the
  calls in flight; a crash during a write is a failing write followed by an exit.
\<close>

inductive proxy_step ::
  "ed25519 \<Rightarrow> (bytes \<Rightarrow> string + RawFrame) \<Rightarrow> (SanitizedFrame \<Rightarrow> string + bytes) \<Rightarrow> string \<Rightarrow>
     ('c, 'p) px_state \<Rightarrow> call_event list \<Rightarrow> ('c, 'p) px_state \<Rightarrow> bool"
  for ed Unmarshal Marshal path where
  Start: "start_proxy Marshal env configPath dbs = (Inr p, dbs') \<Longrightarrow> cf_ReplayPath (px_config p) = path \<Longrightarrow>
    proxy_step ed Unmarshal Marshal path (Stopped fs dbs) [] (Running p (initial_state p fs dbs') [] dbs')"
| StartFailed: "start_proxy Marshal (env :: ('c, 'p) startup_env) configPath dbs = (Inl err, dbs') \<Longrightarrow>
    proxy_step ed Unmarshal Marshal path (Stopped fs dbs) [] (Stopped fs dbs')"
| Verified: "px_service p = service_of v sanitize store \<Longrightarrow> verify_call ed v (env :: proxy_ienv) (is_guard st) e = (None, g) \<Longrightarrow>
    proxy_step ed Unmarshal Marshal path (Running p st calls dbs) [Recorded e] (Running p (st\<lparr>is_guard := g\<rparr>) (e # calls) dbs)"
| Refused: "px_service p = service_of v sanitize store \<Longrightarrow> verify_call ed v (env :: proxy_ienv) (is_guard st) e = (Some err, g) \<Longrightarrow>
    refuse_call e err (st\<lparr>is_guard := g\<rparr>) = (Failed c msg, st') \<Longrightarrow>
    proxy_step ed Unmarshal Marshal path (Running p st calls dbs) [] (Running p st' calls dbs)"
| Panic: "px_service p = service_of v sanitize store \<Longrightarrow> verify_call ed v (env :: proxy_ienv) (is_guard st) e = (Some err, g) \<Longrightarrow>
    refuse_call e err (st\<lparr>is_guard := g\<rparr>) = (Panicked m, st') \<Longrightarrow>
    proxy_step ed Unmarshal Marshal path (Running p st calls dbs) [] (shut p st' dbs)"
| Finished: "px_service p = service_of v sanitize store \<Longrightarrow> e \<in> set calls \<Longrightarrow>
    finish_call Unmarshal sanitize store (env :: proxy_ienv) st e = (out, st') \<Longrightarrow>
    proxy_step ed Unmarshal Marshal path (Running p st calls dbs) (finish_events env e out)
      (Running p st' (remove1 e calls) dbs)"
| Exit: "proxy_step ed Unmarshal Marshal path (Running p st calls dbs) [] (shut p st dbs)"

inductive_cases proxy_step_StoppedE: "proxy_step ed Unmarshal Marshal path (Stopped fs dbs) as s'"
inductive_cases proxy_step_RunningE: "proxy_step ed Unmarshal Marshal path (Running p st calls dbs) as s'"

definition replay_records :: "string \<Rightarrow> dbs \<Rightarrow> replay_db" where
  "replay_records path dbs = (case dbs path of None \<Rightarrow> empty_db | Some db \<Rightarrow> db)"

definition px_view :: "string \<Rightarrow> ('c, 'p) px_state \<Rightarrow> replay_spec" where
  "px_view path s = db_abs (case s of Stopped fs dbs \<Rightarrow> replay_records path dbs | Running p st calls dbs \<Rightarrow> is_guard st)"

definition px_files :: "('c, 'p) px_state \<Rightarrow> fs" where
  "px_files s = (case s of Stopped fs dbs \<Rightarrow> fs | Running p st calls dbs \<Rightarrow> snd (is_sink st))"

definition px_calls :: "('c, 'p) px_state \<Rightarrow> SignedEnvelope multiset" where
  "px_calls s = (case s of Stopped fs dbs \<Rightarrow> {#} | Running p st calls dbs \<Rightarrow> mset calls)"

definition px_inv :: "(SanitizedFrame \<Rightarrow> string + bytes) \<Rightarrow> string \<Rightarrow> ('c, 'p) px_state \<Rightarrow> bool" where
  "px_inv Marshal path s \<longleftrightarrow>
     (case s of
        Stopped fs dbs \<Rightarrow> True
      | Running p st calls dbs \<Rightarrow>
          json_sink_ok (is_sink st) \<and> cf_ReplayPath (px_config p) = path \<and>
          px_service p = service_of (proxy_verifier (px_config p) (px_registry p) (px_guard p)) Process (json_sink_write Marshal))"

definition px_stored :: "(SanitizedFrame \<Rightarrow> string + bytes) \<Rightarrow> ('c, 'p) px_state \<Rightarrow> SanitizedFrame \<Rightarrow> bool" where
  "px_stored Marshal s f \<longleftrightarrow> (\<exists>line. Marshal f = Inr line \<and> holds_bytes (px_files s) line)"

definition px_line :: "(SanitizedFrame \<Rightarrow> string + bytes) \<Rightarrow> ('c, 'p) px_state \<Rightarrow> SanitizedFrame \<Rightarrow> bool" where
  "px_line Marshal s f \<longleftrightarrow> (\<exists>line. Marshal f = Inr line \<and> holds_line (px_files s) line)"

section \<open>Every step keeps its obligations\<close>

text \<open>A call of the verifier changes the records only as the guard does.\<close>

lemma verify_call_guard:
  assumes "verify_call ed (proxy_verifier cfg registry guard) env db e = (r, db')"
  shows "sp_seen (db_abs db) \<subseteq> sp_seen (db_abs db') \<and> sp_max (db_abs db) d \<le> sp_max (db_abs db') d"
    and "r = None \<Longrightarrow> (se_DeviceID e, se_FrameID e) \<notin> sp_seen (db_abs db) \<and> sp_max (db_abs db) (se_DeviceID e) < se_Sequence e \<and>
      (se_DeviceID e, se_FrameID e) \<in> sp_seen (db_abs db') \<and> se_Sequence e \<le> sp_max (db_abs db') (se_DeviceID e)"
proof -
  let ?v = "proxy_verifier cfg registry guard" and ?check = "SQLite_CheckAndRecord (Some guard)"
  have v: "vf_ReplayGuard ?v = Some ?check" "vf_Registry ?v = Some (LookupDevice registry)"
    by (simp_all add: proxy_verifier_def)
  show "sp_seen (db_abs db) \<subseteq> sp_seen (db_abs db') \<and> sp_max (db_abs db) d \<le> sp_max (db_abs db') d"
  proof (cases "authenticated ed (ie_clock env) ?v e (peerCertificateFingerprint (ie_peer env))")
    case True
    from Verify_cases(1) [OF v True] assms
    have "?check (ie_guard env) db (se_DeviceID e) (se_FrameID e) (se_Sequence e) = (r, db')"
      by (simp add: verify_call_def)
    from sql.check_mono [OF this] show ?thesis by blast
  next
    case False
    from Verify_cases(2) [OF v False, of db "ie_guard env"] assms show ?thesis
      by (auto simp: verify_call_def rejects_def)
  qed
  assume "r = None"
  with assms have acc: "?check (ie_guard env) db (se_DeviceID e) (se_FrameID e) (se_Sequence e) = (None, db')"
    by (simp add: verify_call_def Verify_accept_iff v)
  from sql.accept_fresh [OF this] sql.accept_records [OF this]
  show "(se_DeviceID e, se_FrameID e) \<notin> sp_seen (db_abs db) \<and> sp_max (db_abs db) (se_DeviceID e) < se_Sequence e \<and>
      (se_DeviceID e, se_FrameID e) \<in> sp_seen (db_abs db') \<and> se_Sequence e \<le> sp_max (db_abs db') (se_DeviceID e)"
    by simp
qed

lemma start_proxy_records:
  assumes "start_proxy Marshal env configPath dbs = (r, dbs')"
  shows "replay_records path dbs' = replay_records path dbs"
proof -
  have "dbs' = dbs \<or> (\<exists>q. dbs' = create_tables q dbs)"
    using assms
    by (auto simp: start_proxy_def NewSQLiteReplayGuard_def Let_def split: sum.splits prod.splits if_splits)
  moreover have "replay_records path (create_tables q dbs) = replay_records path dbs" for q
    by (cases "dbs q"; cases "path = q") (simp_all add: replay_records_def create_tables_def)
  ultimately show ?thesis by auto
qed

lemma px_simps [simp]:
  "px_view path (Stopped fs dbs) = db_abs (replay_records path dbs)"
  "px_view path (Running p st calls dbs) = db_abs (is_guard st)"
  "cf_ReplayPath (px_config p) = path \<Longrightarrow> px_view path (shut p st dbs) = db_abs (is_guard st)"
  "px_files (Stopped fs dbs) = fs" "px_files (Running p st calls dbs) = snd (is_sink st)"
  "px_files (shut p st dbs) = snd (is_sink st)"
  "px_calls (Stopped fs dbs) = {#}" "px_calls (Running p st calls dbs) = mset calls" "px_calls (shut p st dbs) = {#}"
  "px_inv Marshal path (Stopped fs dbs)" "px_inv Marshal path (shut p st dbs)"
  by (simp_all add: px_view_def px_files_def px_inv_def px_calls_def shut_def replay_records_def)

lemma service_of_inject [simp]: "service_of v sanitize store = service_of v' sanitize' store' \<longleftrightarrow> v = v' \<and> sanitize = sanitize' \<and> store = store'"
  by (simp add: service_of_def)

lemma px_inv_Running:
  assumes "px_inv Marshal path (Running p st calls dbs)" and "px_service p = service_of v sanitize store"
  shows "v = proxy_verifier (px_config p) (px_registry p) (px_guard p)" "sanitize = Process" "store = json_sink_write Marshal"
    "json_sink_ok (is_sink st)" "cf_ReplayPath (px_config p) = path"
  using assms by (simp_all add: px_inv_def)

lemma refused_same:
  assumes "refuse_call e err st = (out, st')"
  shows "is_guard st' = is_guard st" "is_sink st' = is_sink st"
  using refuse_call_simps(1,2) [of e err st] assms by simp_all

text \<open>The rest of a call on a running proxy.\<close>

lemma px_finish:
  assumes "px_inv Marshal path (Running p st calls dbs)"
    and "finish_call Unmarshal Process (json_sink_write Marshal) env st e = (out, st')"
  shows "px_inv Marshal path (Running p st' calls' dbs)" and "is_guard st' = is_guard st"
    and "px_stored Marshal (Running p st calls dbs) f \<Longrightarrow> px_stored Marshal (Running p st' calls' dbs) f"
    and "accepts out \<Longrightarrow> \<exists>f. stored_for e f \<and> px_stored Marshal (Running p st' calls' dbs) f"
proof -
  have ok: "json_sink_ok (is_sink st)" using assms(1) by (simp add: px_inv_def)
  note step = proxy.finish_step [OF ok assms(2)]
  have holds: "json_sink_holds Marshal (is_sink s) f \<longleftrightarrow> px_stored Marshal (Running p s cs dbs) f" for s f cs
    by (simp add: json_sink_holds_def px_stored_def)
  show "px_inv Marshal path (Running p st' calls' dbs)" using assms(1) step(1) by (simp add: px_inv_def)
  show "is_guard st' = is_guard st" using finish_call_guard [of Unmarshal Process "json_sink_write Marshal" env st e] assms(2) by simp
  show "px_stored Marshal (Running p st calls dbs) f \<Longrightarrow> px_stored Marshal (Running p st' calls' dbs) f"
    using step(2) [of f] holds by blast
  show "accepts out \<Longrightarrow> \<exists>f. stored_for e f \<and> px_stored Marshal (Running p st' calls' dbs) f"
    using step(3) holds by blast
qed

lemma px_step_inv:
  assumes "px_inv Marshal path s" and "proxy_step ed Unmarshal Marshal path s evs s'"
  shows "px_inv Marshal path s'"
  using assms(2,1)
proof (cases rule: proxy_step.cases)
  case (Start env configPath dbs p dbs' fs)
  with start_proxy_ok(3,4) [OF Start(4)] show ?thesis
    by (simp add: px_inv_def initial_state_def json_sink_ok_def)
next
  case (Verified p v sanitize store env st e g calls dbs)
  with assms(1) show ?thesis by (simp add: px_inv_def)
next
  case (Refused p v sanitize store env st e err g c msg st' calls dbs)
  with assms(1) refused_same(2) [OF Refused(6)] show ?thesis by (simp add: px_inv_def)
next
  case (Finished p v sanitize store e calls env st out st' dbs)
  with px_inv_Running [OF _ Finished(4)] px_finish(1) assms(1) show ?thesis by metis
qed simp_all

lemma px_step_records:
  assumes "px_inv Marshal path s" and "proxy_step ed Unmarshal Marshal path s evs s'"
  shows "(sp_seen (px_view path s) \<subseteq> sp_seen (px_view path s') \<and> sp_max (px_view path s) d \<le> sp_max (px_view path s') d) \<and>
    (recorded_calls evs \<noteq> [] \<longrightarrow> (\<exists>e. recorded_calls evs = [e] \<and>
       (se_DeviceID e, se_FrameID e) \<notin> sp_seen (px_view path s) \<and> sp_max (px_view path s) (se_DeviceID e) < se_Sequence e \<and>
       (se_DeviceID e, se_FrameID e) \<in> sp_seen (px_view path s') \<and> se_Sequence e \<le> sp_max (px_view path s') (se_DeviceID e)))"
  using assms(2,1)
proof (cases rule: proxy_step.cases)
  case (Start env configPath dbs p dbs' fs)
  with start_proxy_records [OF Start(4), of path] show ?thesis
    by (simp add: initial_state_def replay_records_def)
next
  case (StartFailed env configPath dbs err dbs' fs)
  with start_proxy_records [OF StartFailed(4), of path] show ?thesis by simp
next
  case (Verified p v sanitize store env st e g calls dbs)
  note v = Verified(5) [unfolded px_inv_Running(1) [OF assms(1) [unfolded Verified(1)] Verified(4)]]
  from verify_call_guard(1) [OF v, of d] verify_call_guard(2) [OF v] Verified show ?thesis by simp
next
  case (Refused p v sanitize store env st e err g c msg st' calls dbs)
  note v = Refused(5) [unfolded px_inv_Running(1) [OF assms(1) [unfolded Refused(1)] Refused(4)]]
  from verify_call_guard(1) [OF v, of d] refused_same(1) [OF Refused(6)] Refused show ?thesis by simp
next
  case (Panic p v sanitize store env st e err g m st' calls dbs)
  note inv = px_inv_Running [OF assms(1) [unfolded Panic(1)] Panic(4)]
  note v = Panic(5) [unfolded inv(1)]
  from verify_call_guard(1) [OF v, of d] refused_same(1) [OF Panic(6)] inv(5) Panic show ?thesis by simp
next
  case (Finished p v sanitize store e calls env st out st' dbs)
  note inv = px_inv_Running [OF assms(1) [unfolded Finished(1)] Finished(4)]
  from px_finish(2) [OF assms(1) [unfolded Finished(1)] Finished(6) [unfolded inv(2,3)]] Finished show ?thesis by simp
next
  case (Exit p st calls dbs)
  with assms(1) show ?thesis by (simp add: px_inv_def)
qed

lemma px_step_stored:
  assumes "px_inv Marshal path s" and "proxy_step ed Unmarshal Marshal path s evs s'"
  shows "px_stored Marshal s f \<Longrightarrow> px_stored Marshal s' f"
    and "e \<in> set (accepted_calls evs) \<Longrightarrow> \<exists>f. stored_for e f \<and> px_stored Marshal s' f"
proof -
  have "(px_stored Marshal s f \<longrightarrow> px_stored Marshal s' f) \<and>
      (e \<in> set (accepted_calls evs) \<longrightarrow> (\<exists>f. stored_for e f \<and> px_stored Marshal s' f))"
    using assms(2,1)
  proof (cases rule: proxy_step.cases)
    case (Refused p v sanitize store env st e' err g c msg st' calls dbs)
    with refused_same(2) [OF Refused(6)] show ?thesis by (simp add: px_stored_def)
  next
    case (Panic p v sanitize store env st e' err g m st' calls dbs)
    with refused_same(2) [OF Panic(6)] show ?thesis by (simp add: px_stored_def)
  next
    case (Finished p v sanitize store e' calls env st out st' dbs)
    note inv = px_inv_Running [OF assms(1) [unfolded Finished(1)] Finished(4)]
    note fin = px_finish(3,4) [where calls' = "remove1 e' calls", OF assms(1) [unfolded Finished(1)] Finished(6) [unfolded inv(2,3)]]
    with Finished(1-3) show ?thesis by (auto split: if_splits)
  qed (auto simp: px_stored_def initial_state_def)
  then show "px_stored Marshal s f \<Longrightarrow> px_stored Marshal s' f"
    "e \<in> set (accepted_calls evs) \<Longrightarrow> \<exists>f. stored_for e f \<and> px_stored Marshal s' f" by blast+
qed

text \<open>Lines: they stay, and as long as no write fails, files stay whole and accepted frames are lines.\<close>

lemma px_step_line:
  assumes "px_inv Marshal path s" and "proxy_step ed Unmarshal Marshal path s evs s'" and "px_line Marshal s f"
  shows "px_line Marshal s' f"
  using assms(2)
proof (cases rule: proxy_step.cases)
  case (Refused p v sanitize store env st e' err g c msg st' calls dbs)
  with assms(3) refused_same(2) [OF Refused(6)] show ?thesis by (simp add: px_line_def)
next
  case (Panic p v sanitize store env st e' err g m st' calls dbs)
  with assms(3) refused_same(2) [OF Panic(6)] show ?thesis by (simp add: px_line_def)
next
  case (Finished p v sanitize store e' calls env st out st' dbs)
  note inv = px_inv_Running [OF assms(1) [unfolded Finished(1)] Finished(4)]
  from jsonl_lines.finish_keeps(2) [OF inv(4) Finished(6) [unfolded inv(3)], of f] assms(3) Finished(1,3) show ?thesis
    by (simp add: px_line_def json_sink_line_def)
qed (use assms(3) in \<open>simp_all add: px_line_def initial_state_def\<close>)

lemma px_clean_step:
  assumes "px_inv Marshal path s" and "whole_files (px_files s)" and "avoiding WriteFailed (proxy_step ed Unmarshal Marshal path) s evs s'"
  shows "whole_files (px_files s')" and "e \<in> set (accepted_calls evs) \<Longrightarrow> \<exists>f. stored_for e f \<and> px_line Marshal s' f"
proof -
  have step: "proxy_step ed Unmarshal Marshal path s evs s'" and ok: "WriteFailed \<notin> set evs"
    using assms(3) by (simp_all add: avoiding_def)
  from step have "whole_files (px_files s') \<and> (e \<in> set (accepted_calls evs) \<longrightarrow> (\<exists>f. stored_for e f \<and> px_line Marshal s' f))"
  proof (cases rule: proxy_step.cases)
    case (Refused p v sanitize store env st e' err g c msg st' calls dbs)
    with assms(2) refused_same(2) [OF Refused(6)] show ?thesis by simp
  next
    case (Panic p v sanitize store env st e' err g m st' calls dbs)
    with assms(2) refused_same(2) [OF Panic(6)] show ?thesis by simp
  next
    case (Finished p v sanitize store e' calls env st out st' dbs)
    note inv = px_inv_Running [OF assms(1) [unfolded Finished(1)] Finished(4)]
    note fin = Finished(6) [unfolded inv(2,3)]
    have whole: "json_sink_whole (is_sink st)" using inv(4) assms(2) Finished(1) by (simp add: json_sink_whole_def)
    have "oe_WriteErr (ie_sink env) = None"
      using finish_call_accepted [OF fin] ok Finished(2) by (auto simp: finish_events_def split: if_splits)
    from finish_call_complete [OF this whole fin] Finished(2,3) show ?thesis
      by (auto simp: json_sink_whole_def json_sink_line_def px_line_def split: if_splits)
  qed (use assms(2) in \<open>simp_all add: initial_state_def\<close>)
  then show "whole_files (px_files s')" "e \<in> set (accepted_calls evs) \<Longrightarrow> \<exists>f. stored_for e f \<and> px_line Marshal s' f" by blast+
qed

lemma px_step_event:
  assumes "proxy_step ed Unmarshal Marshal path s evs s'"
  shows "length evs \<le> 1"
  using assms by (cases rule: proxy_step.cases) simp_all

lemma px_step_calls:
  assumes "proxy_step ed Unmarshal Marshal path s evs s'"
  shows "mset (accepted_calls evs) + px_calls s' \<subseteq># px_calls s + mset (recorded_calls evs)"
  using assms by (cases rule: proxy_step.cases) simp_all

interpretation life: recording_system "proxy_step ed Unmarshal Marshal path" "px_inv Marshal path" recorded_calls "px_view path"
  envelope_key accepted_calls "px_stored Marshal" stored_for px_calls for ed Unmarshal Marshal path
proof (unfold_locales, goal_cases)
  case (1 s evs s')
  then show ?case by (rule px_step_inv)
next
  case (2 evs evs')
  then show ?case by (rule calls_append)
next
  case (4 s evs s')
  then show ?case by (cases rule: proxy_step.cases) simp_all
next
  case (5 s evs s' d)
  with px_step_records [OF 5, of d] show ?case by blast
next
  case (6 s evs s' a d f q)
  from px_step_records [OF 6(1,2), of d] 6(3) have "recorded_calls evs = [a]" by (cases "recorded_calls evs") auto
  with px_step_records [OF 6(1,2), of d] 6(4) show ?case by (auto simp: envelope_key_def)
next
  case (7 s evs s' a d f q)
  from px_step_records [OF 7(1,2), of d] 7(3) have "recorded_calls evs = [a]" by (cases "recorded_calls evs") auto
  with px_step_records [OF 7(1,2), of d] 7(4) show ?case by (auto simp: envelope_key_def)
next
  case (8 s evs s' x)
  then show ?case by (rule px_step_stored(1))
next
  case (9 evs evs')
  then show ?case by (rule calls_append)
next
  case (11 s evs s' a)
  then show ?case by (rule px_step_stored(2))
next
  case (12 s evs s')
  then show ?case by (rule px_step_calls)
qed simp_all

interpretation line_life: failing_system "proxy_step ed Unmarshal Marshal path" "px_inv Marshal path" "px_line Marshal"
  WriteFailed "\<lambda>s. whole_files (px_files s)" accepted_calls stored_for for ed Unmarshal Marshal path
proof (unfold_locales, goal_cases)
  case (1 s evs s' f)
  then show ?case by (rule px_step_line)
next
  case (2 s evs s')
  with px_clean_step(1) [of Marshal path s ed Unmarshal evs s'] px_step_inv show ?case by (auto simp: avoiding_def)
next
  case (3 s evs s' f)
  then show ?case by (auto simp: avoiding_def elim: px_step_line)
next
  case (4 evs evs')
  then show ?case by (rule calls_append)
next
  case (6 s evs s' e)
  with px_clean_step(2) [of Marshal path s ed Unmarshal evs s'] show ?case by blast
next
  case (7 s evs s')
  then show ?case by (rule px_step_event)
qed simp

section \<open>Calls without interleaving\<close>

text \<open>A whole call of \<open>IngestFrame\<close> is its two sections one after the other.\<close>

lemma sequential_request:
  assumes "px_service p = service_of v sanitize store"
    and "IngestFrame ed Unmarshal (px_service p) env st (Some e) = (out, st')" and "\<nexists>m. out = Panicked m"
  shows "\<exists>evs. runs (proxy_step ed Unmarshal Marshal path) (Running p st calls dbs) evs (Running p st' calls dbs) \<and>
    accepted_calls evs = (if accepts out then [e] else []) \<and> (accepts out \<longrightarrow> evs = [Recorded e, Accepted e])"
proof (cases "verify_call ed v env (is_guard st) e")
  case (Pair r g)
  let ?step = "proxy_step ed Unmarshal Marshal path"
  show ?thesis
  proof (cases r)
    case None
    with assms(1,2) Pair have f: "finish_call Unmarshal sanitize store env (st\<lparr>is_guard := g\<rparr>) e = (out, st')"
      by (simp add: IngestFrame_split)
    have 1: "?step (Running p st calls dbs) [Recorded e] (Running p (st\<lparr>is_guard := g\<rparr>) (e # calls) dbs)"
      using proxy_step.Verified [OF assms(1)] Pair None by simp
    have 2: "?step (Running p (st\<lparr>is_guard := g\<rparr>) (e # calls) dbs) (finish_events env e out) (Running p st' calls dbs)"
      using proxy_step.Finished [OF assms(1) _ f, of "e # calls"] by simp
    from runs_step [where step = ?step, OF 1 runs_single [where step = ?step, OF 2]] show ?thesis
      by (intro exI [of _ "[Recorded e] @ finish_events env e out"]) (simp add: finish_events_def)
  next
    case (Some err)
    with assms(1,2) Pair have f: "refuse_call e err (st\<lparr>is_guard := g\<rparr>) = (out, st')" by (simp add: IngestFrame_split)
    with refuse_call_simps(4) [of e err "st\<lparr>is_guard := g\<rparr>"] have na: "\<not> accepts out" by simp
    from f assms(3) obtain c msg where "out = Failed c msg" by (auto simp: refuse_call_def split: if_splits prod.splits)
    with f proxy_step.Refused [OF assms(1)] Pair Some have "?step (Running p st calls dbs) [] (Running p st' calls dbs)" by metis
    from runs_single [where step = ?step, OF this] na show ?thesis by fastforce
  qed
qed

section \<open>An example life\<close>

text \<open>The proxy started with the example configuration accepts the example request.\<close>

definition life_env :: proxy_ienv where
  "life_env = sample_env\<lparr>ie_clock := (\<lambda>_. se_SignedAt sample_envelope + second)\<rparr>"

lemma sample_start:
  fixes Marshal :: "SanitizedFrame \<Rightarrow> string + bytes"
  assumes "n = 0 \<or> 1024 \<le> n"
  defines "cfg \<equiv> sample_config\<lparr>cf_MaxPayloadBytes := n\<rparr>"
  obtains p dbs' where "start_proxy Marshal (good_startup cfg) ''config.json'' Map.empty = (Inr p, dbs')"
    "cf_ReplayPath (px_config p) = ''replay.db''" "initial_state p Map.empty dbs' = sample_state"
    "px_service p = service_of (proxy_verifier (with_defaults cfg) [(''test-device'', sample_device)]
        \<lparr>sg_db = Some DbOpen\<rparr>) Process (json_sink_write Marshal)"
proof -
  let ?cfg = "with_defaults cfg"
  have "config_ok cfg" using sample_config_ok assms(1) by (simp add: cfg_def config_ok_def)
  then obtain p where p: "start_proxy Marshal (good_startup cfg) ''config.json'' Map.empty =
      (Inr p, create_tables (cf_ReplayPath ?cfg) Map.empty)" and cfg: "px_config p = ?cfg"
    by (rule good_start)
  note ok = start_proxy_ok [OF p]
  note defs = with_defaults_def cfg_def sample_config_def zero_Config_def
  have "Join [Dir ''frames.jsonl'', ''replay.db''] = ''replay.db''" by code_simp
  then have path: "cf_ReplayPath ?cfg = ''replay.db''" by (simp add: defs)
  have dev: "map device_of (cf_AllowedDevices ?cfg) = [sample_device]"
    by (simp add: defs device_of_def base64_decode_encode sample_device_def)
  then have reg: "px_registry p = [(''test-device'', sample_device)]"
    using ok(2) by (simp add: cfg NewStaticDeviceRegistry_def sample_device_def sample_ed_def sample_key_def ed_PublicKeySize_def)
  have pl: "px_pipeline p = sample_pipeline"
    using ok(9) by (simp add: cfg sample_pipeline_def defs)
  have sink: "px_sink p = sample_sink"
    using ok(10) sample_new by (simp add: cfg good_startup_def defs StorageFsyncEnabled_def DefaultJSONLOptions_def)
  have st: "initial_state p Map.empty (create_tables (cf_ReplayPath ?cfg) Map.empty) = sample_state"
    by (simp add: initial_state_def cfg create_tables_def pl sink sample_state_def)
  show ?thesis
    by (rule that [OF p _ st]) (simp_all add: cfg path ok(3) reg ok(8))
qed

text \<open>One accepted call in the life of a proxy.\<close>

lemma life_of_one_call:
  fixes Marshal :: "SanitizedFrame \<Rightarrow> string + bytes"
  assumes "n = 0 \<or> 1024 \<le> n"
    and "\<And>v. v = proxy_verifier (with_defaults (sample_config\<lparr>cf_MaxPayloadBytes := n\<rparr>)) [(''test-device'', sample_device)] \<lparr>sg_db = Some DbOpen\<rparr> \<Longrightarrow>
      accepts (fst (IngestFrame ed Unmarshal (service_of v Process (json_sink_write Marshal)) env sample_state (Some e)))"
  shows "\<exists>p dbs' st'. runs (proxy_step ed Unmarshal Marshal ''replay.db'')
     (Stopped Map.empty Map.empty :: (unit, unit) px_state) [Recorded e, Accepted e] (shut p st' dbs')"
proof -
  let ?step = "proxy_step ed Unmarshal Marshal ''replay.db''"
  obtain p dbs' where p: "start_proxy Marshal (good_startup (sample_config\<lparr>cf_MaxPayloadBytes := n\<rparr>)) ''config.json'' Map.empty = (Inr p, dbs')"
    and path: "cf_ReplayPath (px_config p) = ''replay.db''" and st: "initial_state p Map.empty dbs' = sample_state"
    and sv: "px_service p = service_of (proxy_verifier (with_defaults (sample_config\<lparr>cf_MaxPayloadBytes := n\<rparr>)) [(''test-device'', sample_device)]
        \<lparr>sg_db = Some DbOpen\<rparr>) Process (json_sink_write Marshal)"
    by (rule sample_start [OF assms(1)])
  obtain out st' where c: "IngestFrame ed Unmarshal (px_service p) env sample_state (Some e) = (out, st')"
    by (metis surj_pair)
  with assms(2) have "accepts out" by (simp add: sv)
  moreover from this have "\<nexists>m. out = Panicked m" by auto
  ultimately have req: "runs ?step (Running p sample_state [] dbs') [Recorded e, Accepted e] (Running p st' [] dbs')"
    using sequential_request [OF sv c, of Marshal "''replay.db''" "[]" dbs'] by auto
  have start: "runs ?step (Stopped Map.empty Map.empty) [] (Running p sample_state [] dbs')"
    using proxy_step.Start [OF p path, of ed Unmarshal Map.empty] st by (intro runs_single) simp
  have "runs ?step (Running p st' [] dbs') [] (shut p st' dbs')" by (rule runs_single) (rule proxy_step.Exit)
  from runs_trans [where step = ?step, OF start runs_trans [where step = ?step, OF req this]] show ?thesis by auto
qed

lemma sample_life:
  "\<exists>p dbs' st'. runs (proxy_step sample_ed sample_unmarshal sample_marshal ''replay.db'')
     (Stopped Map.empty Map.empty :: (unit, unit) px_state) [Recorded sample_signed, Accepted sample_signed] (shut p st' dbs')"
proof (rule life_of_one_call [where n = 0 and env = life_env])
  fix v :: "(sql_env, replay_db) Verifier"
  assume v_def: "v = proxy_verifier (with_defaults (sample_config\<lparr>cf_MaxPayloadBytes := 0\<rparr>)) [(''test-device'', sample_device)] \<lparr>sg_db = Some DbOpen\<rparr>"
  have ttl: "effective_ttl (vf_TTL v) = 300 * second"
    by (simp add: v_def proxy_verifier_def SignatureTTL_def with_defaults_def sample_config_def zero_Config_def wrap64_def
        effective_ttl_def second_def)
  have reg: "vf_Registry v = Some (LookupDevice [(''test-device'', sample_device)])" by (simp add: v_def proxy_verifier_def)
  have "authenticated sample_ed (ie_clock life_env) v sample_signed []"
    by (rule SignEnvelope_authenticated [OF sample_ed_law sample_key_genuine sample_sign reg sample_laws(2-5)])
      (simp_all add: ttl, simp_all add: v_def proxy_verifier_def with_defaults_def sample_config_def zero_Config_def
        sample_envelope_def fresh_def clock_of_def life_env_def second_def)
  then have "verify_call sample_ed v life_env empty_db sample_signed =
      (None, \<lparr>device_state = [''test-device'' \<mapsto> 1], seen_frames = {(''test-device'', ''frame-1'')}\<rparr>)"
    using sample_guard SignEnvelope_key [OF sample_sign]
    by (simp add: v_def verify_call_def life_env_def sample_env_def peerCertificateFingerprint_def Verify_accept_iff
        envelope_key_def proxy_verifier_def)
  then have "fst (verify_call sample_ed v life_env (is_guard sample_state) sample_signed) = None"
    by (simp add: sample_state_def)
  with sample_ingest_by [OF this]
  show "accepts (fst (IngestFrame sample_ed sample_unmarshal (service_of v Process (json_sink_write sample_marshal)) life_env sample_state (Some sample_signed)))"
    by (simp add: life_env_def sample_env_def)
qed simp

end
