(* ===== verification/Json_Lifecycle.thy ===== *)
theory Json_Lifecycle
  imports Json_Service Lifecycle
begin

text \<open>
  The life of the proxy with \<open>encoding/json\<close> at both ends: the step relation of \<open>Lifecycle\<close> with
  the JSON functions in place of its parameters. The contract \<open>failing_system\<close> holds with lines
  that read back as the frame in the place of lines that encode it.
\<close>

section \<open>Lines that read back\<close>

definition reads_for :: "SignedEnvelope \<Rightarrow> SanitizedFrame \<Rightarrow> bool" where
  "reads_for e f \<longleftrightarrow> stored_for e f \<and>
     (readable_call e \<longrightarrow> (\<forall>line. SanitizedFrame_Marshal f = Inr line \<longrightarrow> SanitizedFrame_Unmarshal line = Inr f))"

definition json_inv :: "string \<Rightarrow> ('c, 'p) px_state \<Rightarrow> bool" where
  "json_inv path s \<longleftrightarrow> px_inv SanitizedFrame_Marshal path s \<and>
     (case s of Stopped fs dbs \<Rightarrow> True | Running p st calls dbs \<Rightarrow> pipeline_text (is_sanitizer st))"

lemma pipeline_text_fill: "pipeline_text p \<Longrightarrow> pipeline_text (fill_defaults p)"
  by (auto simp: pipeline_text_def pipeline_vision_def fill_defaults_def Let_def DefaultVersion_def ascii_valid)

lemma pipeline_text_new: "pipeline_text (NewPipeline allowed sensitive)"
  by (simp add: pipeline_text_def NoopVisionRedactor_def NewPipeline_def DefaultVersion_def pipeline_vision_def ascii_valid)

lemma finish_call_pipeline:
  assumes "pipeline_text (is_sanitizer st)"
  shows "pipeline_text (is_sanitizer (snd (finish_call Unmarshal Process store env st e)))"
proof (cases "decoded Unmarshal e")
  case None
  then show ?thesis using assms by (auto simp: finish_call_def decoded_def split: prod.splits option.splits sum.splits)
next
  case (Some frame)
  let ?r = "sanitize_and_store Process store env st e frame"
  obtain res err z where z: "Process (ie_sanitizer env) (is_sanitizer st) frame = ((res, err), z)" by (metis surj_pair)
  obtain werr s where w: "store (ie_sink env) (is_sink st) (res_Frame res) = (werr, s)" by (metis surj_pair)
  have "is_sanitizer (snd ?r) = z"
    using sanitize_and_store_cases(4) [where sanitize = Process and store = store, OF z w, of e "fst ?r" "snd ?r"] by simp
  moreover have "z = fill_defaults (is_sanitizer st)"
    using Process_pipeline [of "ie_sanitizer env" "is_sanitizer st" frame] z by simp
  ultimately show ?thesis using finish_call_decoded [OF Some, of Process store env st] pipeline_text_fill [OF assms] by simp
qed

lemma json_step_inv:
  assumes "json_inv path s" and "proxy_step ed RawFrame_Unmarshal SanitizedFrame_Marshal path s evs s'"
  shows "json_inv path s'"
proof -
  have px: "px_inv SanitizedFrame_Marshal path s" using assms(1) by (simp add: json_inv_def)
  have px': "px_inv SanitizedFrame_Marshal path s'" by (rule px_step_inv [OF px assms(2)])
  have "case s' of Stopped fs dbs \<Rightarrow> True | Running p st calls dbs \<Rightarrow> pipeline_text (is_sanitizer st)"
    using assms(2)
  proof (cases rule: proxy_step.cases)
    case (Start env configPath dbs p dbs' fs)
    with start_proxy_ok(9) [OF Start(4)] show ?thesis by (simp add: initial_state_def pipeline_text_new)
  next
    case (Refused p v sanitize store env st e err g c msg st' calls dbs)
    with assms(1) refuse_call_simps(3) [of e err "st\<lparr>is_guard := g\<rparr>"] show ?thesis by (simp add: json_inv_def)
  next
    case (Finished p v sanitize store e calls env st out st' dbs)
    with px_inv_Running(2) [OF px [unfolded Finished(1)] Finished(4)] assms(1)
      finish_call_pipeline [of st RawFrame_Unmarshal store env e] show ?thesis by (simp add: json_inv_def)
  qed (use assms(1) in \<open>simp_all add: json_inv_def shut_def\<close>)
  with px' show ?thesis by (simp add: json_inv_def)
qed

lemma json_clean_stores:
  assumes "json_inv path s" and "whole_files (px_files s)"
    and "avoiding WriteFailed (proxy_step ed RawFrame_Unmarshal SanitizedFrame_Marshal path) s evs s'"
    and "e \<in> set (accepted_calls evs)"
  shows "\<exists>f. reads_for e f \<and> px_line SanitizedFrame_Marshal s' f"
proof -
  have step: "proxy_step ed RawFrame_Unmarshal SanitizedFrame_Marshal path s evs s'" using assms(3) by (simp add: avoiding_def)
  from step show ?thesis
  proof (cases rule: proxy_step.cases)
    case (Finished p v sanitize store e' calls env st out st' dbs)
    have px: "px_inv SanitizedFrame_Marshal path (Running p st calls dbs)" and pt: "pipeline_text (is_sanitizer st)"
      using assms(1) Finished(1) by (simp_all add: json_inv_def)
    note inv = px_inv_Running [OF px Finished(4)]
    have e: "e' = e" "accepts out" using assms(4) Finished(2) by (auto split: if_splits)
    have fin: "finish_call RawFrame_Unmarshal Process (json_sink_write SanitizedFrame_Marshal) env st e = (out, st')"
      using Finished(6) inv(2,3) e(1) by simp
    have whole: "json_active_whole (is_sink st)"
      using assms(2) Finished(1) by (simp add: json_active_whole_def whole_files_active)
    show ?thesis
    proof (cases "readable_call e")
      case True
      from finished_line_reads_back [OF fin e(2) inv(4) whole True pt] Finished(3) show ?thesis
        by (auto simp: reads_for_def px_line_def)
    next
      case False
      have "px_inv SanitizedFrame_Marshal path s" using assms(1) by (simp add: json_inv_def)
      from px_clean_step(2) [OF this assms(2,3,4)] False show ?thesis unfolding reads_for_def by blast
    qed
  qed (use assms(4) in simp_all)
qed

interpretation json_life: failing_system "proxy_step ed RawFrame_Unmarshal SanitizedFrame_Marshal path" "json_inv path"
  "px_line SanitizedFrame_Marshal" WriteFailed "\<lambda>s. whole_files (px_files s)" accepted_calls reads_for for ed path
proof (unfold_locales, goal_cases)
  case (1 s evs s')
  then show ?case by (rule json_step_inv)
next
  case (2 s evs s' f)
  then show ?case using px_step_line by (auto simp: json_inv_def)
next
  case (3 s evs s')
  then have step: "proxy_step ed RawFrame_Unmarshal SanitizedFrame_Marshal path s evs s'" by (simp add: avoiding_def)
  have "px_inv SanitizedFrame_Marshal path s" "whole_files (px_files s)" using 3(1) by (simp_all add: json_inv_def)
  from px_clean_step(1) [OF this 3(2)] json_step_inv [OF _ step] 3(1) show ?case by blast
next
  case (4 s evs s' f)
  then show ?case using px_step_line by (auto simp: avoiding_def json_inv_def)
next
  case (5 evs evs')
  then show ?case by (rule calls_append)
next
  case (7 s evs s' e)
  with json_clean_stores [of path s ed evs s' e] show ?case by blast
next
  case (8 s evs s')
  then show ?case by (rule px_step_event)
qed simp

section \<open>Properties\<close>

text \<open>Claim C11: what the proxy has accepted can be read for good. Consider any life of the proxy, with
  concurrent calls, restarts, rotations, crashes and faults, that starts with files of whole
  lines, and an accepted call whose strings are valid UTF-8 and whose tree is not deeper than
  the decoder allows. If no write had failed by the time the call was accepted, then at the end
  of that life one of the lines of some file parses to a sanitized frame with the identifiers
  of its envelope, marked verified. In particular no later write, not even a failing one, and
  no rotation, restart or crash makes the line unreadable.\<close>

theorem lifetime_accepted_readable:
  assumes "runs (proxy_step ed RawFrame_Unmarshal SanitizedFrame_Marshal path) (Stopped fs dbs) evs s"
    and "whole_files fs" and "e \<in> set (accepted_calls (takeWhile (\<lambda>ev. ev \<noteq> WriteFailed) evs))" and "readable_call e"
  shows "\<exists>f. stored_for e f \<and> (\<exists>c\<in>contents (px_files s). written_frame c f)"
proof -
  obtain f line where "reads_for e f" "SanitizedFrame_Marshal f = Inr line" "holds_line (px_files s) line"
    using json_life.system_stored_before [OF assms(1) _ _ assms(3)] assms(2) by (auto simp: json_inv_def px_line_def)
  with assms(4) held_line_written show ?thesis unfolding reads_for_def by blast
qed

text \<open>The fixtures' frame on a proxy that was started with room for its payload.\<close>

lemma fixture_life:
  "\<exists>p dbs' st'. runs (proxy_step sample_ed RawFrame_Unmarshal SanitizedFrame_Marshal ''replay.db'')
     (Stopped Map.empty Map.empty :: (unit, unit) px_state) [Recorded fixture_envelope, Accepted fixture_envelope] (shut p st' dbs')"
proof (rule life_of_one_call [where n = "max 1024 (int (length (se_Payload fixture_envelope)))" and env = "sample_env\<lparr>ie_clock := \<lambda>_. fixture_time\<rparr>"])
  let ?n = "max 1024 (int (length (se_Payload fixture_envelope)))" and ?env = "sample_env\<lparr>ie_clock := \<lambda>_. fixture_time\<rparr>"
  fix v :: "(sql_env, replay_db) Verifier"
  assume v_def: "v = proxy_verifier (with_defaults (sample_config\<lparr>cf_MaxPayloadBytes := ?n\<rparr>)) [(''test-device'', sample_device)] \<lparr>sg_db = Some DbOpen\<rparr>"
  have v: "vf_Registry v = Some (LookupDevice [(''test-device'', sample_device)])"
    "vf_ReplayGuard v = Some (SQLite_CheckAndRecord (Some \<lparr>sg_db = Some DbOpen\<rparr>))" "vf_MaxPayloadBytes v = ?n" "vf_Now v = None"
    "effective_ttl (vf_TTL v) = 300 * second"
    by (simp_all add: v_def proxy_verifier_def with_defaults_def sample_config_def zero_Config_def SignatureTTL_def wrap64_def
        effective_ttl_def second_def max_def)
  have size: "int (length (se_Payload fixture_envelope)) \<le> vf_MaxPayloadBytes v" by (simp add: v(3))
  have fr: "fresh (effective_ttl (vf_TTL v)) (clock_of (ie_clock ?env) v) fixture_time"
    by (simp add: v(4,5) fresh_def clock_of_def fixture_time_value second_def)
  have cert: "cert_bound sample_device fixture_envelope (peerCertificateFingerprint (ie_peer ?env))"
    using fixture_premises(5) by simp
  have guard: "SQLite_CheckAndRecord (Some \<lparr>sg_db = Some DbOpen\<rparr>) (ie_guard ?env) (is_guard sample_state)
      (dm_DeviceID (rf_Device fixture_frame)) (rf_FrameID fixture_frame) (rf_Sequence fixture_frame) =
      (None, snd (SQLite_CheckAndRecord (Some \<lparr>sg_db = Some DbOpen\<rparr>) good_sql empty_db ''test-device'' ''frame-1'' 1))"
    using fixture_guard by simp
  obtain s where w: "json_sink_write SanitizedFrame_Marshal (ie_sink ?env) (is_sink sample_state)
     (res_Frame (accepted_result (ie_sanitizer ?env) (is_sanitizer sample_state) (verified_frame fixture_envelope fixture_frame))) = (None, s)"
    using fixture_write by (metis prod.collapse ingest_env.select_convs ingest_env.surjective ingest_env.update_convs(2))
  from built_frame_accepted [where Unmarshal = RawFrame_Unmarshal and registry = "LookupDevice [(''test-device'', sample_device)]"
      and check = "SQLite_CheckAndRecord (Some \<lparr>sg_db = Some DbOpen\<rparr>)" and store = "json_sink_write SanitizedFrame_Marshal",
      OF sample_ed_law sample_key_genuine fixture_envelope_built(1,2) v(1) fixture_premises(2-4) cert fixture_envelope_built(3) size fr v(2) guard fixture_admitted w]
  show "accepts (fst (IngestFrame sample_ed RawFrame_Unmarshal (json_service v) ?env sample_state (Some fixture_envelope)))"
    by auto
qed simp

theorem lifetime_accepted_readable_witness:
  "\<exists>(s :: (unit, unit) px_state) f. runs (proxy_step sample_ed RawFrame_Unmarshal SanitizedFrame_Marshal ''replay.db'')
      (Stopped Map.empty Map.empty) [Recorded fixture_envelope, Accepted fixture_envelope] s \<and>
     stored_for fixture_envelope f \<and> (\<exists>c\<in>contents (px_files s). written_frame c f)"
proof -
  obtain s :: "(unit, unit) px_state" where r: "runs (proxy_step sample_ed RawFrame_Unmarshal SanitizedFrame_Marshal ''replay.db'')
      (Stopped Map.empty Map.empty) [Recorded fixture_envelope, Accepted fixture_envelope] s"
    using fixture_life by blast
  have "whole_files Map.empty" by (simp add: whole_files_def contents_def)
  from lifetime_accepted_readable [OF r this _ fixture_readable] r show ?thesis by auto
qed

end
