(* ===== verification/Serving.thy ===== *)
theory Serving
  imports Proxy
begin

text \<open>
  The concurrent part of \<open>run\<close> in \<open>cmd/golem-proxy/main.go\<close>: the goroutine that listens and serves
  gRPC, the one that serves HTTP, the channel they report to, and the \<open>select\<close> that waits for a
  signal or a report, as a step relation whose steps interleave in any order. What \<open>Serve\<close> and
  \<open>ListenAndServe\<close> may return is a parameter, a relation between whether the server has been
  told to stop and the result. A call of \<open>GracefulStop\<close> or \<open>Shutdown\<close> that waits for requests is
  a step that is not taken yet.
\<close>

section \<open>The goroutines\<close>

datatype grpc_routine = GrpcListen | GrpcServe | GrpcSend serve_result | GrpcEnd

datatype http_routine = HttpServe | HttpSend serve_result | HttpEnd

text \<open>Where \<open>run\<close> stands: at the \<open>select\<close>, in the calls of the branch it took, or returned.\<close>

datatype run_point = Selecting | Stopping "stop_action list" "run_error option" | Returned "run_error option"

record serving =
  sg_grpc :: grpc_routine
  sg_http :: http_routine
  sg_errCh :: "serve_result list"
  sg_signal :: bool
  sg_grpc_stopped :: bool
  sg_http_closed :: bool
  sg_run :: run_point

definition errCh_cap :: nat where "errCh_cap = 2"

definition begin_serving :: serving where
  "begin_serving = \<lparr>sg_grpc = GrpcListen, sg_http = HttpServe, sg_errCh = [], sg_signal = False,
     sg_grpc_stopped = False, sg_http_closed = False, sg_run = Selecting\<rparr>"

definition select_event :: "run_event \<Rightarrow> serving \<Rightarrow> serving" where
  "select_event ev s = s\<lparr>sg_run := Stopping (fst (run_exit ev)) (snd (run_exit ev))\<rparr>"

definition stop_effect :: "stop_action \<Rightarrow> serving \<Rightarrow> serving" where
  "stop_effect a s =
     (case a of
        GracefulStop \<Rightarrow> s\<lparr>sg_grpc_stopped := True\<rparr>
      | GrpcStop \<Rightarrow> s\<lparr>sg_grpc_stopped := True\<rparr>
      | HttpShutdown \<Rightarrow> s\<lparr>sg_http_closed := True\<rparr>
      | HttpClose \<Rightarrow> s\<lparr>sg_http_closed := True\<rparr>)"

inductive serve_step :: "(bool \<Rightarrow> serve_result \<Rightarrow> bool) \<Rightarrow> (bool \<Rightarrow> serve_result \<Rightarrow> bool) \<Rightarrow> serving \<Rightarrow> serving \<Rightarrow> bool"
  for Serve ListenAndServe where
  listen_failed: "sg_grpc s = GrpcListen \<Longrightarrow> serve_step Serve ListenAndServe s (s\<lparr>sg_grpc := GrpcSend (ServeError err)\<rparr>)"
| listening: "sg_grpc s = GrpcListen \<Longrightarrow> serve_step Serve ListenAndServe s (s\<lparr>sg_grpc := GrpcServe\<rparr>)"
| grpc_returned: "sg_grpc s = GrpcServe \<Longrightarrow> Serve (sg_grpc_stopped s) r \<Longrightarrow>
    serve_step Serve ListenAndServe s (s\<lparr>sg_grpc := GrpcSend r\<rparr>)"
| http_returned: "sg_http s = HttpServe \<Longrightarrow> ListenAndServe (sg_http_closed s) r \<Longrightarrow>
    serve_step Serve ListenAndServe s (s\<lparr>sg_http := HttpSend r\<rparr>)"
| grpc_sent: "sg_grpc s = GrpcSend r \<Longrightarrow> length (sg_errCh s) < errCh_cap \<Longrightarrow>
    serve_step Serve ListenAndServe s (s\<lparr>sg_grpc := GrpcEnd, sg_errCh := sg_errCh s @ [r]\<rparr>)"
| http_sent: "sg_http s = HttpSend r \<Longrightarrow> length (sg_errCh s) < errCh_cap \<Longrightarrow>
    serve_step Serve ListenAndServe s (s\<lparr>sg_http := HttpEnd, sg_errCh := sg_errCh s @ [r]\<rparr>)"
| signalled: "serve_step Serve ListenAndServe s (s\<lparr>sg_signal := True\<rparr>)"
| select_done: "sg_run s = Selecting \<Longrightarrow> sg_signal s \<Longrightarrow>
    serve_step Serve ListenAndServe s (select_event (CtxDone shutdown) s)"
| select_err: "sg_run s = Selecting \<Longrightarrow> sg_errCh s = r # rest \<Longrightarrow>
    serve_step Serve ListenAndServe s (select_event (ErrCh r) (s\<lparr>sg_errCh := rest\<rparr>))"
| stopping: "sg_run s = Stopping (a # acts) res \<Longrightarrow>
    serve_step Serve ListenAndServe s ((stop_effect a s)\<lparr>sg_run := Stopping acts res\<rparr>)"
| returning: "sg_run s = Stopping [] res \<Longrightarrow> serve_step Serve ListenAndServe s (s\<lparr>sg_run := Returned res\<rparr>)"

text \<open>
  What the documentation of the two servers says: \<open>Serve\<close> returns a non-nil error unless \<open>Stop\<close> or
  \<open>GracefulStop\<close> is called, and \<open>ErrServerStopped\<close> only then; \<open>ListenAndServe\<close> never returns nil, and
  \<open>ErrServerClosed\<close> after \<open>Shutdown\<close> or \<open>Close\<close>.
\<close>

definition documented_results :: "(bool \<Rightarrow> serve_result \<Rightarrow> bool) \<Rightarrow> (bool \<Rightarrow> serve_result \<Rightarrow> bool) \<Rightarrow> bool" where
  "documented_results Serve ListenAndServe \<longleftrightarrow>
     (\<forall>r. Serve False r \<longrightarrow> (\<exists>err. r = ServeError err)) \<and>
     (\<forall>r. ListenAndServe False r \<longrightarrow> (\<exists>err. r = ServeError err))"

section \<open>The invariant\<close>

definition failed :: "serve_result \<Rightarrow> bool" where
  "failed r \<longleftrightarrow> (\<exists>err. r = ServeError err)"

fun grpc_failing :: "grpc_routine \<Rightarrow> bool" where
  "grpc_failing (GrpcSend r) = failed r"
| "grpc_failing _ = True"

fun http_failing :: "http_routine \<Rightarrow> bool" where
  "http_failing (HttpSend r) = failed r"
| "http_failing _ = True"

text \<open>The reports that are in the channel or still to come.\<close>

definition reports :: "serving \<Rightarrow> nat" where
  "reports s = length (sg_errCh s) + (if sg_grpc s = GrpcEnd then 0 else 1) + (if sg_http s = HttpEnd then 0 else 1)"

definition stops_grpc :: "stop_action list \<Rightarrow> bool" where
  "stops_grpc acts \<longleftrightarrow> GracefulStop \<in> set acts \<or> GrpcStop \<in> set acts"

definition stops_http :: "stop_action list \<Rightarrow> bool" where
  "stops_http acts \<longleftrightarrow> HttpShutdown \<in> set acts \<or> HttpClose \<in> set acts"

definition run_inv :: "serving \<Rightarrow> bool" where
  "run_inv s =
     (case sg_run s of
        Selecting \<Rightarrow> \<not> sg_grpc_stopped s \<and> \<not> sg_http_closed s \<and> list_all failed (sg_errCh s) \<and>
          grpc_failing (sg_grpc s) \<and> http_failing (sg_http s)
      | Stopping acts res \<Rightarrow> (sg_grpc_stopped s \<or> stops_grpc acts) \<and> (sg_http_closed s \<or> stops_http acts) \<and>
          (res = None \<longrightarrow> sg_signal s)
      | Returned res \<Rightarrow> sg_grpc_stopped s \<and> sg_http_closed s \<and> (res = None \<longrightarrow> sg_signal s))"

lemma stop_effect_simps [simp]:
  "sg_grpc (stop_effect a s) = sg_grpc s" "sg_http (stop_effect a s) = sg_http s" "sg_errCh (stop_effect a s) = sg_errCh s"
  "sg_signal (stop_effect a s) = sg_signal s"
  "sg_grpc_stopped (stop_effect a s) \<longleftrightarrow> sg_grpc_stopped s \<or> stops_grpc [a]"
  "sg_http_closed (stop_effect a s) \<longleftrightarrow> sg_http_closed s \<or> stops_http [a]"
  by (simp_all add: stop_effect_def stops_grpc_def stops_http_def split: stop_action.splits)

lemma stops_Cons: "stops_grpc (a # acts) \<longleftrightarrow> stops_grpc [a] \<or> stops_grpc acts" "stops_http (a # acts) \<longleftrightarrow> stops_http [a] \<or> stops_http acts"
  by (auto simp: stops_grpc_def stops_http_def)

lemma reports_step: "serve_step Serve ListenAndServe s s' \<Longrightarrow> reports s' \<le> reports s"
  by (induction rule: serve_step.induct) (simp_all add: reports_def select_event_def)

lemma run_inv_step:
  assumes "documented_results Serve ListenAndServe" and "serve_step Serve ListenAndServe s s'" and "run_inv s"
  shows "run_inv s'"
  using assms(2,3)
proof (induction rule: serve_step.induct)
  case (grpc_returned s r)
  then show ?case using assms(1) by (auto simp: run_inv_def documented_results_def failed_def split: run_point.splits)
next
  case (http_returned s r)
  then show ?case using assms(1) by (auto simp: run_inv_def documented_results_def failed_def split: run_point.splits)
next
  case (select_err s r rest)
  then obtain err where "r = ServeError err" by (auto simp: run_inv_def failed_def)
  then show ?case by (simp add: run_inv_def select_event_def run_exit_def stops_grpc_def stops_http_def)
next
  case (stopping s a acts res)
  then show ?case by (auto simp: run_inv_def stops_Cons [of a acts])
qed (auto simp: run_inv_def failed_def select_event_def run_exit_def stops_grpc_def stops_http_def split: run_point.splits)

lemma reachable_run_inv:
  assumes "(serve_step Serve ListenAndServe)\<^sup>*\<^sup>* begin_serving s" and "documented_results Serve ListenAndServe"
  shows "run_inv s"
  using assms(1)
proof (induction rule: rtranclp_induct)
  case (step s s')
  then show ?case using run_inv_step [OF assms(2)] by blast
qed (simp add: begin_serving_def run_inv_def)

lemma reachable_reports: "(serve_step Serve ListenAndServe)\<^sup>*\<^sup>* begin_serving s \<Longrightarrow> reports s \<le> errCh_cap"
proof (induction rule: rtranclp_induct)
  case (step s s')
  then show ?case using reports_step [of Serve ListenAndServe s s'] by simp
qed (simp add: reports_def begin_serving_def errCh_cap_def)

lemma stopping_returns:
  "sg_run s = Stopping acts res \<Longrightarrow> \<exists>s'. (serve_step Serve ListenAndServe)\<^sup>*\<^sup>* s s' \<and> sg_run s' = Returned res"
proof (induction acts arbitrary: s)
  case Nil
  then have "serve_step Serve ListenAndServe s (s\<lparr>sg_run := Returned res\<rparr>)" by (rule serve_step.returning)
  then show ?case by (intro exI [of _ "s\<lparr>sg_run := Returned res\<rparr>"]) auto
next
  case (Cons a acts)
  have "serve_step Serve ListenAndServe s ((stop_effect a s)\<lparr>sg_run := Stopping acts res\<rparr>)"
    using Cons.prems by (rule serve_step.stopping)
  moreover obtain s' where "(serve_step Serve ListenAndServe)\<^sup>*\<^sup>* ((stop_effect a s)\<lparr>sg_run := Stopping acts res\<rparr>) s'" "sg_run s' = Returned res"
    using Cons.IH [of "(stop_effect a s)\<lparr>sg_run := Stopping acts res\<rparr>"] by auto
  ultimately show ?case by (meson converse_rtranclp_into_rtranclp)
qed

lemma select_returns:
  assumes "sg_signal s \<or> sg_errCh s \<noteq> [] \<or> sg_run s \<noteq> Selecting"
  shows "\<exists>s' res. (serve_step Serve ListenAndServe)\<^sup>*\<^sup>* s s' \<and> sg_run s' = Returned res"
proof (cases "sg_run s")
  case Selecting
  with assms obtain ev t where "serve_step Serve ListenAndServe s (select_event ev t)"
    by (metis neq_Nil_conv serve_step.select_done serve_step.select_err)
  moreover obtain s' where "(serve_step Serve ListenAndServe)\<^sup>*\<^sup>* (select_event ev t) s'" "sg_run s' = Returned (snd (run_exit ev))"
    using stopping_returns [of "select_event ev t" "fst (run_exit ev)" "snd (run_exit ev)"] by (auto simp: select_event_def)
  ultimately show ?thesis by (meson converse_rtranclp_into_rtranclp)
next
  case (Stopping acts res)
  then show ?thesis using stopping_returns by blast
next
  case (Returned res)
  then show ?thesis by blast
qed

section \<open>Properties\<close>

text \<open>Claim C31: serving ends in order. In every interleaving of the two servers, the signal and \<open>run\<close>,
  and with whatever errors the servers report: when \<open>run\<close> has returned, both servers have been
  told to stop, and the process exits with code zero only after a signal; no goroutine ever
  blocks on its report, also after \<open>run\<close> has returned, because the channel has room for both;
  and as soon as a signal or a report has arrived, \<open>run\<close> can return. The servers' results are
  as documented.\<close>

theorem serving_ends_in_order:
  assumes "documented_results Serve ListenAndServe" and "(serve_step Serve ListenAndServe)\<^sup>*\<^sup>* begin_serving s"
  shows "(\<forall>res. sg_run s = Returned res \<longrightarrow> sg_grpc_stopped s \<and> sg_http_closed s \<and> (main_exit res = 0 \<longrightarrow> sg_signal s)) \<and>
    (\<forall>r. sg_grpc s = GrpcSend r \<or> sg_http s = HttpSend r \<longrightarrow> length (sg_errCh s) < errCh_cap) \<and>
    (sg_signal s \<or> sg_errCh s \<noteq> [] \<or> sg_run s \<noteq> Selecting \<longrightarrow>
      (\<exists>s' res. (serve_step Serve ListenAndServe)\<^sup>*\<^sup>* s s' \<and> sg_run s' = Returned res))"
proof (intro conjI allI impI)
  fix res assume "sg_run s = Returned res"
  then show "sg_grpc_stopped s" "sg_http_closed s" "main_exit res = 0 \<Longrightarrow> sg_signal s"
    using reachable_run_inv [OF assms(2,1)] by (auto simp: run_inv_def main_exit_def split: option.splits)
next
  fix r assume "sg_grpc s = GrpcSend r \<or> sg_http s = HttpSend r"
  then show "length (sg_errCh s) < errCh_cap" using reachable_reports [OF assms(2)] by (auto simp: reports_def split: if_splits)
next
  assume arrived: "sg_signal s \<or> sg_errCh s \<noteq> [] \<or> sg_run s \<noteq> Selecting"
  show "\<exists>s' res. (serve_step Serve ListenAndServe)\<^sup>*\<^sup>* s s' \<and> sg_run s' = Returned res"
    using select_returns [OF arrived] .
qed

text \<open>Servers that return any error, and the documented result once they are stopped.\<close>

definition plain_Serve :: "bool \<Rightarrow> serve_result \<Rightarrow> bool" where
  "plain_Serve stopped r \<longleftrightarrow> (case r of ServeNil \<Rightarrow> stopped | ErrServerStopped \<Rightarrow> stopped | ErrServerClosed \<Rightarrow> False | ServeError _ \<Rightarrow> True)"

definition plain_ListenAndServe :: "bool \<Rightarrow> serve_result \<Rightarrow> bool" where
  "plain_ListenAndServe closed r \<longleftrightarrow> (case r of ErrServerClosed \<Rightarrow> closed | ServeError _ \<Rightarrow> \<not> closed | _ \<Rightarrow> False)"

text \<open>The address of the gRPC server is taken, and nothing else has happened.\<close>

definition address_taken :: serving where
  "address_taken = begin_serving\<lparr>sg_grpc := GrpcEnd, sg_errCh := [ServeError ''bind: address already in use'']\<rparr>"

theorem serving_ends_in_order_witness:
  "\<exists>s' res. (serve_step plain_Serve plain_ListenAndServe)\<^sup>*\<^sup>* address_taken s' \<and> sg_run s' = Returned res"
proof -
  have doc: "documented_results plain_Serve plain_ListenAndServe"
    by (auto simp: documented_results_def plain_Serve_def plain_ListenAndServe_def split: serve_result.splits)
  let ?s = "begin_serving\<lparr>sg_grpc := GrpcSend (ServeError ''bind: address already in use'')\<rparr>"
  have 1: "serve_step plain_Serve plain_ListenAndServe begin_serving ?s"
    by (rule serve_step.listen_failed) (simp add: begin_serving_def)
  have "serve_step plain_Serve plain_ListenAndServe ?s
      (?s\<lparr>sg_grpc := GrpcEnd, sg_errCh := sg_errCh ?s @ [ServeError ''bind: address already in use'']\<rparr>)"
    by (rule serve_step.grpc_sent) (simp_all add: begin_serving_def errCh_cap_def)
  then have 2: "serve_step plain_Serve plain_ListenAndServe ?s address_taken"
    by (simp add: begin_serving_def address_taken_def)
  from 1 2 have "(serve_step plain_Serve plain_ListenAndServe)\<^sup>*\<^sup>* begin_serving address_taken" by auto
  from serving_ends_in_order [OF doc this] show ?thesis by (simp add: address_taken_def)
qed

end
