(* ===== verification/Mock_Client.thy ===== *)
theory Mock_Client
  imports Client Go_Base64
begin

text \<open>
  \<open>mock-client/main.go\<close>: the test client that keeps an Ed25519 key in a directory, builds one
  frame of an allowed and one of a sensitive application, and sends both. The file system is
  a map from cleaned paths to contents; the faults of one call, the random bytes and the clock
  readings are an environment. \<open>ed25519.GenerateKey\<close> is built from \<open>ed25519.NewKeyFromSeed\<close> as in
  the package: 32 random bytes are the seed.
\<close>

section \<open>The key pair\<close>

type_synonym files = "string \<rightharpoonup> bytes"

record key_env =
  ke_MkdirErr :: "string option"
  ke_ReadErr :: "string option"  \<comment> \<open>other than that the file does not exist\<close>
  ke_Seed :: "string + bytes"  \<comment> \<open>what the random source delivers\<close>
  ke_WriteErr :: "(string \<times> nat) option"  \<comment> \<open>with the bytes written before the failure\<close>

definition GenerateKey :: "ed25519 \<Rightarrow> string + bytes \<Rightarrow> string + bytes \<times> bytes" where
  "GenerateKey ed seed =
     (case seed of
        Inl err \<Rightarrow> Inl err
      | Inr s \<Rightarrow> let privateKey = ed_NewKeyFromSeed ed s in Inr (ed_Public ed privateKey, privateKey))"

definition key_path :: "string \<Rightarrow> string" where
  "key_path dir = Join [dir, ''device_ed25519_private.base64'']"

definition os_WriteFile :: "(string \<times> nat) option \<Rightarrow> files \<Rightarrow> string \<Rightarrow> bytes \<Rightarrow> string option \<times> files" where
  "os_WriteFile fault fs path data =
     (case fault of
        None \<Rightarrow> (None, fs(Clean path \<mapsto> data))
      | Some (err, n) \<Rightarrow> (Some err, fs(Clean path \<mapsto> take n data)))"

definition loadOrCreateKeypair ::
  "ed25519 \<Rightarrow> key_env \<Rightarrow> files \<Rightarrow> string \<Rightarrow> (string + bytes \<times> bytes) \<times> files" where
  "loadOrCreateKeypair ed env fs dir =
     (case ke_MkdirErr env of
        Some err \<Rightarrow> (Inl err, fs)
      | None \<Rightarrow>
          let privatePath = key_path dir
          in (case ke_ReadErr env of
                Some err \<Rightarrow> (Inl err, fs)
              | None \<Rightarrow>
                  (case fs (Clean privatePath) of
                     Some data \<Rightarrow>
                       (case base64_DecodeString data of
                          None \<Rightarrow> (Inl ''illegal base64 data'', fs)
                        | Some raw \<Rightarrow>
                            if length raw \<noteq> ed_PrivateKeySize
                            then (Inl ''stored private key has invalid length'', fs)
                            else (Inr (ed_Public ed raw, raw), fs))
                   | None \<Rightarrow>
                       (case GenerateKey ed (ke_Seed env) of
                          Inl err \<Rightarrow> (Inl err, fs)
                        | Inr (publicKey, privateKey) \<Rightarrow>
                            (case os_WriteFile (ke_WriteErr env) fs privatePath (base64_EncodeToString privateKey) of
                               (Some err, fs) \<Rightarrow> (Inl err, fs)
                             | (None, fs) \<Rightarrow> (Inr (publicKey, privateKey), fs))))))"

section \<open>Identifiers and frames\<close>

text \<open>Nanoseconds since 1970, as Go's \<open>int64\<close>.\<close>

definition unix_epoch :: time where
  "unix_epoch = day_of_civil (1970, 1, 1) * day_ns"

definition UnixNano :: "time \<Rightarrow> int" where
  "UnixNano t = wrap64 (t - unix_epoch)"

definition newTrajectoryID :: "time \<Rightarrow> string + bytes \<Rightarrow> string + string" where
  "newTrajectoryID now rand =
     (case rand of
        Inl err \<Rightarrow> Inl err
      | Inr b \<Rightarrow> Inr (''mock-trajectory-'' @ format_int (UnixNano now) @ ''-'' @ EncodeToString b))"

definition syntheticFrame :: "time \<Rightarrow> string \<Rightarrow> string \<Rightarrow> u64 \<Rightarrow> string \<Rightarrow> RawFrame" where
  "syntheticFrame now trajectoryID frameID sequence pkg = \<lparr>
     rf_ProtocolVersion = ''golem.v1'',
     rf_TrajectoryID = trajectoryID,
     rf_FrameID = frameID,
     rf_Sequence = sequence,
     rf_EventTimestamp = in_UTC now,
     rf_Device = \<lparr>
       dm_DeviceID = ''mock-device'',
       dm_AndroidSDKVersion = ''35'',
       dm_BuildFingerprintHash = ''sha256:test-build'',
       dm_BuildMetadataRedactionStatus = ''hashed''\<rparr>,
     rf_ForegroundApp = \<lparr>fa_PackageName = pkg, fa_ActivityName = ''SyntheticActivity''\<rparr>,
     rf_UIRoot = RawNode ''root'' zero_Bounds ''android.widget.FrameLayout'' pkg ''sha256:synthetic-root''
       ''Settings'' [] [] [] [] [] False True False False False
       [RawNode ''button-1'' zero_Bounds ''android.widget.Button'' pkg ''sha256:synthetic-button''
          ''Open Wi-Fi'' [] [] [] [] [] True True False False False []],
     rf_Intent = zero_IntentMetadata\<lparr>
       im_OperatorIntentID := ''synthetic-intent'',
       im_IntentType := ''open_settings'',
       im_Tags := [''synthetic'']\<rparr>,
     rf_Action = zero_ActionMetadata\<lparr>
       am_ActionID := ''synthetic-action'',
       am_ActionType := ''tap'',
       am_TargetStableNodeID := ''button-1'',
       am_Deterministic := True\<rparr>,
     rf_UISettle = \<lparr>us_Observed = True, us_SettleTimeoutMS = 1000, us_ElapsedMS = 100, us_SettleStatus = ''settled''\<rparr>,
     rf_ScreenshotRef = zero_ScreenshotRef,
     rf_Signature = zero_SignatureMetadata,
     rf_PreStorageRaw = []\<rparr>"

section \<open>The program\<close>

datatype mock_output =
    PrintKey string
  | PrintTrajectory string u64
  | PrintAllowed Decision "string list"
  | PrintSensitive Decision "string list"

datatype mock_error =
    MockError string
  | BuildError error
  | SendAllowed client_error
  | SendSensitive client_error

record mock_env =
  me_keys :: key_env
  me_NewClientErr :: "string option"
  me_Rand :: "string + bytes"
  me_Now :: "nat \<Rightarrow> time"

text \<open>Building and sending one frame; the clock is read for the frame and for the signature.\<close>

definition build_and_send ::
  "ed25519 \<Rightarrow> (RawFrame \<Rightarrow> string + bytes) \<Rightarrow> (time \<Rightarrow> 'ts) \<Rightarrow> ('ts, 's) ingest_rpc \<Rightarrow> 's \<Rightarrow>
     bytes \<Rightarrow> time \<Rightarrow> time \<Rightarrow> string \<Rightarrow> string \<Rightarrow> u64 \<Rightarrow> string \<Rightarrow> (client_error \<Rightarrow> mock_error) \<Rightarrow>
     (mock_error + client_Response) \<times> 's" where
  "build_and_send ed Marshal NewTs rpc conn privateKey frameTime signTime trajectoryID frameID sequence pkg wrap =
     (let frame = syntheticFrame frameTime trajectoryID frameID sequence pkg
      in case BuildSignedEnvelopeWithKey ed Marshal privateKey signTime frame ''mock-key'' [] of
           Inl err \<Rightarrow> (Inl (BuildError err), conn)
         | Inr envelope \<Rightarrow>
             (case client_IngestFrame NewTs rpc conn (Some envelope) of
                (Inl err, conn) \<Rightarrow> (Inl (wrap err), conn)
              | (Inr resp, conn) \<Rightarrow> (Inr resp, conn)))"

text \<open>The part of \<open>run\<close> that sends: the second frame is sent only after the first was answered.\<close>

definition mock_send ::
  "ed25519 \<Rightarrow> (RawFrame \<Rightarrow> string + bytes) \<Rightarrow> (time \<Rightarrow> 'ts) \<Rightarrow> ('ts, 's) ingest_rpc \<Rightarrow> (nat \<Rightarrow> time) \<Rightarrow> 's \<Rightarrow>
     bytes \<Rightarrow> string \<Rightarrow> u64 \<Rightarrow> mock_output list \<times> mock_error option \<times> 's" where
  "mock_send ed Marshal NewTs rpc now conn privateKey trajectoryID seqBase =
     (case build_and_send ed Marshal NewTs rpc conn privateKey (now 2) (now 3) trajectoryID
             (trajectoryID @ ''-allowed'') seqBase ''com.android.settings'' SendAllowed of
        (Inl err, conn) \<Rightarrow> ([], Some err, conn)
      | (Inr allowedResp, conn) \<Rightarrow>
          let out = [PrintAllowed (cr_Decision allowedResp) (cr_ReasonCodes allowedResp)]
          in (case build_and_send ed Marshal NewTs rpc conn privateKey (now 4) (now 5) trajectoryID
                     (trajectoryID @ ''-sensitive'') (seqBase + 1) ''com.example.bank'' SendSensitive of
                (Inl err, conn) \<Rightarrow> (out, Some err, conn)
              | (Inr sensitiveResp, conn) \<Rightarrow>
                  (out @ [PrintSensitive (cr_Decision sensitiveResp) (cr_ReasonCodes sensitiveResp)], None, conn)))"

definition mock_run ::
  "ed25519 \<Rightarrow> (RawFrame \<Rightarrow> string + bytes) \<Rightarrow> (time \<Rightarrow> 'ts) \<Rightarrow> ('ts, 's) ingest_rpc \<Rightarrow>
     mock_env \<Rightarrow> files \<Rightarrow> 's \<Rightarrow> string \<Rightarrow> mock_output list \<times> mock_error option \<times> files \<times> 's" where
  "mock_run ed Marshal NewTs rpc env fs conn keyDir =
     (case loadOrCreateKeypair ed (me_keys env) fs keyDir of
        (Inl err, fs) \<Rightarrow> ([], Some (MockError err), fs, conn)
      | (Inr (publicKey, privateKey), fs) \<Rightarrow>
          let out = [PrintKey (base64_EncodeToString publicKey)]
          in (case me_NewClientErr env of
                Some err \<Rightarrow> (out, Some (MockError err), fs, conn)
              | None \<Rightarrow>
                  (case newTrajectoryID (me_Now env 0) (me_Rand env) of
                     Inl err \<Rightarrow> (out, Some (MockError err), fs, conn)
                   | Inr trajectoryID \<Rightarrow>
                       let seqBase = word_of_int (UnixNano (me_Now env 1));
                           (sent, err, conn) = mock_send ed Marshal NewTs rpc (me_Now env) conn privateKey trajectoryID seqBase
                       in (out @ [PrintTrajectory trajectoryID seqBase] @ sent, err, fs, conn))))"

text \<open>\<open>main\<close>: what \<open>run\<close> prints, and the exit code of the process.\<close>

definition mock_main ::
  "ed25519 \<Rightarrow> (RawFrame \<Rightarrow> string + bytes) \<Rightarrow> (time \<Rightarrow> 'ts) \<Rightarrow> ('ts, 's) ingest_rpc \<Rightarrow>
     mock_env \<Rightarrow> files \<Rightarrow> 's \<Rightarrow> string \<Rightarrow> mock_output list \<times> nat \<times> files \<times> 's" where
  "mock_main ed Marshal NewTs rpc env fs conn keyDir =
     (case mock_run ed Marshal NewTs rpc env fs conn keyDir of
        (out, None, fs, conn) \<Rightarrow> (out, 0, fs, conn)
      | (out, Some _, fs, conn) \<Rightarrow> (out, 1, fs, conn))"

section \<open>Properties\<close>

text \<open>The stored key is the created key. When the client has created a key pair in a
  directory, every later call on that directory returns the same pair, whatever the random
  source delivers then; this rests on the base64 round trip and on created keys having 64
  bytes. A created key is one that the package makes.\<close>

definition seeded :: "key_env \<Rightarrow> bool" where
  "seeded env \<longleftrightarrow> (\<forall>s. ke_Seed env = Inr s \<longrightarrow> length s = ed_SeedSize)"

lemma created_genuine:
  assumes "seeded env" and "fs (Clean (key_path dir)) = None" and "loadOrCreateKeypair ed env fs dir = (Inr (pub, sk), fs')"
  shows "genuine_key ed sk"
  using assms
  by (auto simp: loadOrCreateKeypair_def GenerateKey_def os_WriteFile_def Let_def seeded_def genuine_key_def
      split: option.splits sum.splits prod.splits)

lemma keypair_reloaded:
  assumes "ed25519_law ed" and "seeded env"
    and "fs (Clean (key_path dir)) = None"
    and "loadOrCreateKeypair ed env fs dir = (Inr keys, fs')"
    and "ke_MkdirErr env' = None" and "ke_ReadErr env' = None"
  shows "loadOrCreateKeypair ed env' fs' dir = (Inr keys, fs')"
proof -
  obtain pub sk where k: "keys = (pub, sk)" by (cases keys)
  from assms(3,4) k have "pub = ed_Public ed sk" and fs': "fs' = fs(Clean (key_path dir) \<mapsto> base64_EncodeToString sk)"
    by (auto simp: loadOrCreateKeypair_def GenerateKey_def os_WriteFile_def Let_def
        split: option.splits sum.splits prod.splits)
  moreover have "length sk = ed_PrivateKeySize"
    using assms(1) created_genuine [of env fs dir ed pub sk fs', OF assms(2,3)] assms(4) k by (auto simp: ed25519_law_def)
  ultimately show ?thesis using assms(5,6) by (simp add: loadOrCreateKeypair_def k base64_decode_encode)
qed

definition good_keys :: "bytes \<Rightarrow> key_env" where
  "good_keys seed = \<lparr>ke_MkdirErr = None, ke_ReadErr = None, ke_Seed = Inr seed, ke_WriteErr = None\<rparr>"

lemma keypair_reloaded_witness:
  "\<exists>keys fs'. loadOrCreateKeypair sample_ed (good_keys (replicate 32 (CHR ''s''))) Map.empty ''.devkeys'' = (Inr keys, fs') \<and>
     loadOrCreateKeypair sample_ed (good_keys ''other'') fs' ''.devkeys'' = (Inr keys, fs')"
proof -
  let ?seed = "replicate 32 (CHR ''s'')"
  obtain keys fs' where c: "loadOrCreateKeypair sample_ed (good_keys ?seed) Map.empty ''.devkeys'' = (Inr keys, fs')"
    by (simp add: loadOrCreateKeypair_def good_keys_def GenerateKey_def os_WriteFile_def Let_def)
  have "loadOrCreateKeypair sample_ed (good_keys ''other'') fs' ''.devkeys'' = (Inr keys, fs')"
    by (rule keypair_reloaded [OF sample_ed_law _ _ c]) (simp_all add: good_keys_def seeded_def ed_SeedSize_def)
  with c show ?thesis by blast
qed

end
