(* ===== verification/Json_Mock.thy ===== *)
theory Json_Mock
  imports Json_Service Mock_Client Proxy
begin

text \<open>
  The test client of \<open>mock-client/main.go\<close> against the proxy's service, with JSON in between:
  from the key pair to what the client prints and what the proxy stores.
\<close>

section \<open>The frames of the client\<close>

lemma format_int_ascii: "ascii (format_int n)"
  by (auto simp: format_int_def intro!: digits_ascii dest: format_dec_digits)

lemma trajectory_id_text:
  assumes "newTrajectoryID now rand = Inr tid"
  shows "ascii tid" "tid \<noteq> []"
  using assms by (auto simp: newTrajectoryID_def format_int_ascii EncodeToString_ascii split: sum.splits)

lemma syntheticFrame_valid:
  assumes "ascii tid" and "ascii fid" and "ascii pkg" and "json_timestamp (in_UTC t)"
  shows "valid_RawFrame (syntheticFrame t tid fid sequence pkg)"
  using assms
  by (simp add: valid_RawFrame_def text_RawFrame_def syntheticFrame_def in_UTC_def valid_DeviceMetadata_def
      valid_ForegroundApp_def valid_RawNode_def valid_IntentMetadata_def valid_ActionMetadata_def valid_UISettleMetadata_def
      valid_ScreenshotRef_def valid_SignatureMetadata_def zero_IntentMetadata_def zero_ActionMetadata_def zero_ScreenshotRef_def
      zero_SignatureMetadata_def ascii_valid)

lemma syntheticFrame_depth: "2 * raw_height (rf_UIRoot (syntheticFrame t tid fid sequence pkg)) < maxNestingDepth"
  by (simp add: syntheticFrame_def maxNestingDepth_def)

lemma syntheticFrame_ids [simp]:
  "rf_ProtocolVersion (syntheticFrame t tid fid sequence pkg) = ''golem.v1''"
  "dm_DeviceID (rf_Device (syntheticFrame t tid fid sequence pkg)) = ''mock-device''"
  "rf_TrajectoryID (syntheticFrame t tid fid sequence pkg) = tid" "rf_FrameID (syntheticFrame t tid fid sequence pkg) = fid"
  "rf_Sequence (syntheticFrame t tid fid sequence pkg) = sequence"
  "fa_PackageName (rf_ForegroundApp (syntheticFrame t tid fid sequence pkg)) = pkg"
  by (simp_all add: syntheticFrame_def)

section \<open>One frame\<close>

text \<open>A verifier that knows the client's device by its key, and takes payloads of the client's size.\<close>

definition knows_mock :: "ed25519 \<Rightarrow> bytes \<Rightarrow> (sql_env, replay_db) Verifier \<Rightarrow> bool" where
  "knows_mock ed sk v \<longleftrightarrow>
     (\<exists>registry device. vf_Registry v = Some registry \<and> registry ''mock-device'' = Some device \<and>
        dv_PublicKey device = ed_Public ed sk \<and> dv_PublicKeyID device = ''mock-key'' \<and>
        dv_ClientCertFingerprintSHA256 device = []) \<and>
     vf_ReplayGuard v = Some (SQLite_CheckAndRecord (Some \<lparr>sg_db = Some DbOpen\<rparr>))"

definition frame_fits :: "(sql_env, replay_db) Verifier \<Rightarrow> RawFrame \<Rightarrow> bool" where
  "frame_fits v frame \<longleftrightarrow> (\<forall>payload. RawFrame_Marshal frame = Inr payload \<longrightarrow> int (length payload) \<le> vf_MaxPayloadBytes v)"

definition verifier_fresh :: "(sql_env, replay_db) Verifier \<Rightarrow> proxy_ienv \<Rightarrow> time \<Rightarrow> bool" where
  "verifier_fresh v env t \<longleftrightarrow> fresh (effective_ttl (vf_TTL v)) (clock_of (ie_clock env) v) t"

abbreviation json_rpc ::
  "ed25519 \<Rightarrow> ('ts \<Rightarrow> time) \<Rightarrow> (sql_env, replay_db) Verifier \<Rightarrow> proxy_ienv \<Rightarrow> ('ts, proxy_istate) ingest_rpc" where
  "json_rpc ed AsTime v env \<equiv> direct_rpc ed RawFrame_Unmarshal AsTime (json_service v) env"

lemma build_and_send_verified:
  fixes v :: "(sql_env, replay_db) Verifier" and env :: proxy_ienv
  assumes "ed25519_law ed" and "\<And>t. AsTime (NewTs t) = t" and "genuine_key ed sk" and "knows_mock ed sk v"
    and "ascii tid" and "tid \<noteq> []" and "ascii fid" and "fid \<noteq> []" and "ascii pkg" and "json_timestamp (in_UTC t)"
    and "frame_fits v (syntheticFrame t tid fid sequence pkg)" and "verifier_fresh v env t'"
    and "SQLite_CheckAndRecord (Some \<lparr>sg_db = Some DbOpen\<rparr>) (ie_guard env) (is_guard st) ''mock-device'' fid sequence = (None, g')"
  shows "\<exists>e. valid_SignatureMetadata (rf_Signature (verified_frame e (syntheticFrame t tid fid sequence pkg))) \<and>
    build_and_send ed RawFrame_Marshal NewTs (json_rpc ed AsTime v env) st sk t t' tid fid sequence pkg wrap =
      (case sanitize_and_store Process (json_sink_write SanitizedFrame_Marshal) env (st\<lparr>is_guard := g'\<rparr>) e
              (verified_frame e (syntheticFrame t tid fid sequence pkg)) of
         (out, st') \<Rightarrow> (case seen_by_client out of Inl err \<Rightarrow> Inl (wrap err) | Inr resp \<Rightarrow> Inr resp, st'))"
proof -
  let ?frame = "syntheticFrame t tid fid sequence pkg" and ?store = "json_sink_write SanitizedFrame_Marshal"
  have len: "length sk = ed_PrivateKeySize" using assms(1,3) by (auto simp: ed25519_law_def)
  obtain payload where p: "RawFrame_Marshal ?frame = Inr payload" "RawFrame_Unmarshal payload = Inr ?frame"
    using RawFrame_roundtrip [OF syntheticFrame_valid [OF assms(5,7,9,10)] syntheticFrame_depth] by blast
  obtain e where b: "BuildSignedEnvelopeWithKey ed RawFrame_Marshal sk t' ?frame ''mock-key'' [] = Inr e"
    and e: "se_Payload e = payload" "se_SignedAt e = t'" "se_ClientCertFingerprintSHA256 e = []"
    by (rule build_succeeds [where Marshal = RawFrame_Marshal, OF p(1) len]) (use assms(6,8) in simp_all)
  obtain registry device where reg: "vf_Registry v = Some registry" "registry (dm_DeviceID (rf_Device ?frame)) = Some device"
    "dv_PublicKey device = ed_Public ed sk" "dv_PublicKeyID device = ''mock-key''" "dv_ClientCertFingerprintSHA256 device = []"
    and guard: "vf_ReplayGuard v = Some (SQLite_CheckAndRecord (Some \<lparr>sg_db = Some DbOpen\<rparr>))"
    using assms(4) by (auto simp: knows_mock_def)
  have cert: "cert_bound device e (peerCertificateFingerprint (ie_peer env))" using reg(5) e(3) by (simp add: cert_bound_def)
  have ne: "se_Payload e \<noteq> []" using RawFrame_Marshal_ne [OF p(1)] e(1) by simp
  have size: "int (length (se_Payload e)) \<le> vf_MaxPayloadBytes v" using assms(11) p(1) e(1) by (simp add: frame_fits_def)
  have u: "RawFrame_Unmarshal (se_Payload e) = Inr ?frame" using p(2) e(1) by simp
  have chk: "SQLite_CheckAndRecord (Some \<lparr>sg_db = Some DbOpen\<rparr>) (ie_guard env) (is_guard st)
      (dm_DeviceID (rf_Device ?frame)) (rf_FrameID ?frame) (rf_Sequence ?frame) = (None, g')"
    using assms(13) by simp
  note fr = assms(12) [unfolded verifier_fresh_def]
  have call: "IngestFrame ed RawFrame_Unmarshal (json_service v) env st (Some e) =
      sanitize_and_store Process ?store env (st\<lparr>is_guard := g'\<rparr>) e (verified_frame e ?frame)"
    by (rule built_frame_verified [where Unmarshal = RawFrame_Unmarshal and registry = registry
          and check = "SQLite_CheckAndRecord (Some \<lparr>sg_db = Some DbOpen\<rparr>)", OF assms(1,3) b u reg(1-4) cert ne size fr guard chk])
  have nz: "\<not> IsZero (se_SignedAt e)" using fr e(2) by (simp add: fresh_def IsZero_def)
  show ?thesis
    unfolding build_and_send_def Let_def b client_IngestFrame_direct [of AsTime NewTs, OF assms(2) nz] sum.case call
    using built_envelope_text [OF b] by (intro exI [of _ e]) (auto simp: ascii_valid split: prod.splits sum.splits)
qed

section \<open>Both frames\<close>

text \<open>A sink whose file ends with a line break and whose next write succeeds.\<close>

definition sink_works :: "os_env \<Rightarrow> JSONLSink \<times> fs \<Rightarrow> bool" where
  "sink_works env s \<longleftrightarrow> json_sink_ok s \<and> json_active_whole s \<and>
     (\<forall>f line. validateSanitizedFrame f = None \<and> SanitizedFrame_Marshal f = Inr line \<longrightarrow>
        fst (json_sink_write SanitizedFrame_Marshal env s f) = None)"

text \<open>The proxy with the packages of its example configuration, and a system without faults.\<close>

definition proxy_ready :: "proxy_ienv \<Rightarrow> proxy_istate \<Rightarrow> bool" where
  "proxy_ready env st \<longleftrightarrow>
     is_sanitizer st = NewPipeline [''com.android.settings''] [''com.example.bank''] \<and> sink_works (ie_sink env) (is_sink st) \<and>
     sql_fault_free (ie_guard env) \<and> ie_sanitizer env 0 \<noteq> 0 \<and> json_timestamp (in_UTC (ie_sanitizer env 0))"

text \<open>Identifiers and sequences that the replay database does not know.\<close>

definition unused_ids :: "proxy_ienv \<Rightarrow> proxy_istate \<Rightarrow> string \<Rightarrow> u64 \<Rightarrow> bool" where
  "unused_ids env st tid n \<longleftrightarrow>
     (''mock-device'', tid @ ''-allowed'') \<notin> seen_frames (is_guard st) \<and>
     (''mock-device'', tid @ ''-sensitive'') \<notin> seen_frames (is_guard st) \<and>
     sp_max (db_abs (is_guard st)) ''mock-device'' < n \<and> n < n + 1 \<and>
     sq_BindUint64 (ie_guard env) n \<and> sq_BindUint64 (ie_guard env) (n + 1)"

definition record_frame :: "replay_db \<Rightarrow> string \<Rightarrow> string \<Rightarrow> u64 \<Rightarrow> replay_db" where
  "record_frame db d f n = \<lparr>device_state = (device_state db)(d \<mapsto> n), seen_frames = insert (d, f) (seen_frames db)\<rparr>"

lemma sqlite_takes:
  assumes "sql_fault_free env" and "sq_BindUint64 env n" and "(d, f) \<notin> seen_frames db" and "sp_max (db_abs db) d < n"
    and "d \<noteq> []" and "f \<noteq> []"
  shows "SQLite_CheckAndRecord (Some \<lparr>sg_db = Some DbOpen\<rparr>) env db d f n = (None, record_frame db d f n)"
  using assms
  by (auto simp: SQLite_CheckAndRecord_def sql_fault_free_def insert_frame_def upsert_sequence_def db_abs_def record_frame_def Let_def
      not_le word_gt_0 split: option.splits)

lemma unused_taken:
  assumes "proxy_ready env st" and "unused_ids env st tid n"
  defines "db1 \<equiv> record_frame (is_guard st) ''mock-device'' (tid @ ''-allowed'') n"
  shows "SQLite_CheckAndRecord (Some \<lparr>sg_db = Some DbOpen\<rparr>) (ie_guard env) (is_guard st) ''mock-device'' (tid @ ''-allowed'') n = (None, db1)"
    and "SQLite_CheckAndRecord (Some \<lparr>sg_db = Some DbOpen\<rparr>) (ie_guard env) db1 ''mock-device'' (tid @ ''-sensitive'') (n + 1) =
      (None, record_frame db1 ''mock-device'' (tid @ ''-sensitive'') (n + 1))"
proof -
  note h = assms(1,2) [unfolded proxy_ready_def unused_ids_def]
  show "SQLite_CheckAndRecord (Some \<lparr>sg_db = Some DbOpen\<rparr>) (ie_guard env) (is_guard st) ''mock-device'' (tid @ ''-allowed'') n = (None, db1)"
    unfolding db1_def by (rule sqlite_takes) (use h in auto)
  have "sp_max (db_abs db1) ''mock-device'' = n" "seen_frames db1 = insert (''mock-device'', tid @ ''-allowed'') (seen_frames (is_guard st))"
    by (simp_all add: db1_def record_frame_def db_abs_def)
  then show "SQLite_CheckAndRecord (Some \<lparr>sg_db = Some DbOpen\<rparr>) (ie_guard env) db1 ''mock-device'' (tid @ ''-sensitive'') (n + 1) =
      (None, record_frame db1 ''mock-device'' (tid @ ''-sensitive'') (n + 1))"
    by (intro sqlite_takes) (use h in auto)
qed

lemma mock_packages:
  "TrimSpace ''com.android.settings'' = ''com.android.settings''" "TrimSpace ''com.example.bank'' = ''com.example.bank''"
  by (rule TrimSpace_solid; simp add: solid_def less_eq_char_def)+

lemma mock_frames_judged:
  assumes "is_sanitizer st = NewPipeline [''com.android.settings''] [''com.example.bank'']"
  shows "admitted (is_sanitizer st) (syntheticFrame t tid fid n ''com.android.settings'')"
    "sanitizable (is_sanitizer st) (syntheticFrame t tid fid n ''com.android.settings'')"
    "pl_SensitivePackages (fill_defaults (is_sanitizer st)) (frame_package (syntheticFrame t tid fid n ''com.example.bank'')) =
       Some ''configured_sensitive_package''"
    "frame_package (syntheticFrame t tid fid n ''com.example.bank'') \<noteq> []"
proof -
  show "sanitizable (is_sanitizer st) (syntheticFrame t tid fid n ''com.android.settings'')" by (simp add: assms)
qed (simp_all add: assms admitted_def frame_package_def mock_packages NewPipeline_def defaultSensitivePackages_def)

lemma allowed_writable:
  assumes "proxy_ready env st" and "json_timestamp (rf_EventTimestamp frame)"
  defines "f \<equiv> res_Frame (accepted_result (ie_sanitizer env) (is_sanitizer st) frame)"
  obtains s line where "json_sink_write SanitizedFrame_Marshal (ie_sink env) (is_sink st) f = (None, s)"
    "SanitizedFrame_Marshal f = Inr line" "holds_line (snd s) line"
proof -
  note h = assms(1) [unfolded proxy_ready_def sink_works_def]
  have "validateSanitizedFrame f = None"
    using h by (simp add: f_def validateSanitizedFrame_def accepted_result_def sanitized_frame_def process_clock_def IsZero_def
        NewPipeline_def Let_def)
  moreover have "is_ok (SanitizedFrame_Marshal f)"
    using h assms(2) by (simp add: f_def SanitizedFrame_Marshal_ok_iff accepted_result_def Let_def sanitized_frame_def process_clock_def
        NewPipeline_def)
  then obtain line where line: "SanitizedFrame_Marshal f = Inr line" by (auto simp: is_ok_iff)
  ultimately have "fst (json_sink_write SanitizedFrame_Marshal (ie_sink env) (is_sink st) f) = None" using h by blast
  then obtain s where w: "json_sink_write SanitizedFrame_Marshal (ie_sink env) (is_sink st) f = (None, s)" by (metis prod.collapse)
  have "json_sink_ok (is_sink st)" "json_active_whole (is_sink st)" using h by blast+
  from json_write_line [OF this w] line that [OF w line] show thesis by (auto simp: json_sink_line_def)
qed

lemma mock_allowed_stored:
  fixes v :: "(sql_env, replay_db) Verifier"
  assumes "ed25519_law ed" and "\<And>t. AsTime (NewTs t) = t" and "genuine_key ed sk" and "knows_mock ed sk v"
    and "proxy_ready env st" and "unused_ids env st tid n" and "ascii tid" and "tid \<noteq> []"
    and "json_timestamp (in_UTC t)" and "verifier_fresh v env t'"
    and "frame_fits v (syntheticFrame t tid (tid @ ''-allowed'') n ''com.android.settings'')"
  obtains resp st' c f where
    "build_and_send ed RawFrame_Marshal NewTs (json_rpc ed AsTime v env) st sk t t' tid (tid @ ''-allowed'') n ''com.android.settings'' wrap =
       (Inr resp, st')"
    "cr_Decision resp = DecisionAccept" "is_guard st' = record_frame (is_guard st) ''mock-device'' (tid @ ''-allowed'') n"
    "is_sanitizer st' = fill_defaults (is_sanitizer st)" "c \<in> contents (snd (is_sink st'))" "written_frame c f"
    "sf_TrajectoryID f = tid" "sf_FrameID f = tid @ ''-allowed''" "sf_Sequence f = n"
proof -
  let ?frame = "syntheticFrame t tid (tid @ ''-allowed'') n ''com.android.settings''"
  let ?store = "json_sink_write SanitizedFrame_Marshal" and ?g = "record_frame (is_guard st) ''mock-device'' (tid @ ''-allowed'') n"
  have pipe: "is_sanitizer st = NewPipeline [''com.android.settings''] [''com.example.bank'']" using assms(5) by (simp add: proxy_ready_def)
  have fid: "ascii (tid @ ''-allowed'')" "tid @ ''-allowed'' \<noteq> []" "ascii ''com.android.settings''" using assms(7) by simp_all
  obtain e where sig: "valid_SignatureMetadata (rf_Signature (verified_frame e ?frame))"
    and send: "build_and_send ed RawFrame_Marshal NewTs (json_rpc ed AsTime v env) st sk t t' tid (tid @ ''-allowed'') n ''com.android.settings'' wrap =
      (case sanitize_and_store Process ?store env (st\<lparr>is_guard := ?g\<rparr>) e (verified_frame e ?frame) of
         (out, st') \<Rightarrow> (case seen_by_client out of Inl err \<Rightarrow> Inl (wrap err) | Inr resp \<Rightarrow> Inr resp, st'))"
    using build_and_send_verified [of ed AsTime NewTs, OF assms(1-4,7,8) fid assms(9,11,10) unused_taken(1) [OF assms(5,6)]] by blast
  define f where "f = res_Frame (accepted_result (ie_sanitizer env) (is_sanitizer st) (verified_frame e ?frame))"
  have ts: "json_timestamp (rf_EventTimestamp (verified_frame e ?frame))" using assms(9) by (simp add: verified_frame_def syntheticFrame_def)
  obtain s line where w: "?store (ie_sink env) (is_sink st) f = (None, s)" and line: "SanitizedFrame_Marshal f = Inr line" "holds_line (snd s) line"
    unfolding f_def by (rule allowed_writable [OF assms(5) ts])
  obtain r st' where stored: "sanitize_and_store Process ?store env (st\<lparr>is_guard := ?g\<rparr>) e (verified_frame e ?frame) = (Replied r, st')"
    "rp_Decision r = DecisionAccept" "is_sink st' = s" "is_guard st' = ?g" "is_sanitizer st' = fill_defaults (is_sanitizer st)"
    using stored_after_check [where store = ?store, OF mock_frames_judged(1,2) [OF pipe] w [unfolded f_def]] by blast
  have "text_RawFrame (verified_frame e ?frame)"
    using syntheticFrame_valid [OF assms(7) fid(1,3) assms(9)] sig by (simp add: verified_frame_def valid_RawFrame_def text_RawFrame_def)
  moreover have "pipeline_text (is_sanitizer st)"
    by (simp add: pipe pipeline_text_def NoopVisionRedactor_def NewPipeline_def DefaultVersion_def pipeline_vision_def ascii_valid)
  moreover have "sanitizable (is_sanitizer st) (verified_frame e ?frame)" by (simp add: pipe)
  moreover have "json_timestamp (in_UTC (process_clock (ie_sanitizer env) (is_sanitizer st)))"
    using assms(5) by (simp add: proxy_ready_def process_clock_def NewPipeline_def)
  ultimately have "valid_SanitizedFrame f" unfolding f_def using accepted_text ts by blast
  then have "readable f"
    using syntheticFrame_depth [of t tid "tid @ ''-allowed''" n] 
    by (simp add: readable_def f_def accepted_result_def Let_def sanitized_frame_def verified_frame_def)
  then have "SanitizedFrame_Unmarshal line = Inr f" using line(1) by (rule readable_line)
  from held_line_written [OF line(2,1) this] obtain c where "c \<in> contents (snd s)" "written_frame c f" by blast
  moreover have "sf_TrajectoryID f = tid" "sf_FrameID f = tid @ ''-allowed''" "sf_Sequence f = n"
    by (simp_all add: f_def accepted_result_def Let_def sanitized_frame_def verified_frame_def)
  moreover obtain resp where "seen_by_client (Replied r) = Inr resp" "cr_Decision resp = DecisionAccept"
    using stored(2) by (simp add: seen_by_client_def seen_decision_def)
  ultimately show thesis using send stored by (intro that [of resp st' c f]) simp_all
qed

lemma mock_sensitive_quarantined:
  fixes v :: "(sql_env, replay_db) Verifier" and env :: proxy_ienv
  assumes "ed25519_law ed" and "\<And>t. AsTime (NewTs t) = t" and "genuine_key ed sk" and "knows_mock ed sk v"
    and "pl_SensitivePackages (is_sanitizer st) ''com.example.bank'' = Some reason"
    and "ascii tid" and "tid \<noteq> []" and "json_timestamp (in_UTC t)" and "verifier_fresh v env t'"
    and "frame_fits v (syntheticFrame t tid (tid @ ''-sensitive'') n ''com.example.bank'')"
    and "SQLite_CheckAndRecord (Some \<lparr>sg_db = Some DbOpen\<rparr>) (ie_guard env) (is_guard st) ''mock-device'' (tid @ ''-sensitive'') n = (None, g')"
  obtains resp st' where
    "build_and_send ed RawFrame_Marshal NewTs (json_rpc ed AsTime v env) st sk t t' tid (tid @ ''-sensitive'') n ''com.example.bank'' wrap =
       (Inr resp, st')"
    "cr_Decision resp = DecisionQuarantine" "is_guard st' = g'" "is_sink st' = is_sink st"
proof -
  let ?frame = "syntheticFrame t tid (tid @ ''-sensitive'') n ''com.example.bank''"
  have fid: "ascii (tid @ ''-sensitive'')" "tid @ ''-sensitive'' \<noteq> []" "ascii ''com.example.bank''" using assms(6) by simp_all
  obtain e where send: "build_and_send ed RawFrame_Marshal NewTs (json_rpc ed AsTime v env) st sk t t' tid (tid @ ''-sensitive'') n ''com.example.bank'' wrap =
      (case sanitize_and_store Process (json_sink_write SanitizedFrame_Marshal) env (st\<lparr>is_guard := g'\<rparr>) e (verified_frame e ?frame) of
         (out, st') \<Rightarrow> (case seen_by_client out of Inl err \<Rightarrow> Inl (wrap err) | Inr resp \<Rightarrow> Inr resp, st'))"
    using build_and_send_verified [of ed AsTime NewTs, OF assms(1-4,6,7) fid assms(8,10,9,11)] by blast
  have "pl_SensitivePackages (is_sanitizer st) (frame_package ?frame) = Some reason" "frame_package ?frame \<noteq> []"
    using assms(5) by (simp_all add: frame_package_def mock_packages)
  from quarantined_after_check [OF this, of "json_sink_write SanitizedFrame_Marshal" env g' e] obtain r st'
    where "sanitize_and_store Process (json_sink_write SanitizedFrame_Marshal) env (st\<lparr>is_guard := g'\<rparr>) e (verified_frame e ?frame) = (Replied r, st')"
      and r: "rp_Decision r = DecisionQuarantine" "is_sink st' = is_sink st" "is_guard st' = g'" by blast
  moreover obtain resp where "seen_by_client (Replied r) = Inr resp" "cr_Decision resp = DecisionQuarantine"
    using r(1) by (simp add: seen_by_client_def seen_decision_def)
  ultimately show thesis using send by (intro that [of resp st']) simp_all
qed

section \<open>Properties\<close>

text \<open>Claim C12: the test client and the proxy work together, from the key file to the storage file. On a
  system without faults, with the client's public key registered (for a private key that
  \<open>ed25519\<close> made, as a newly created one is) and the packages of the example configuration, while
  the client's clock is within the verifier's window and in a year of four digits, both
  payloads are within the limit, the storage file ends with a line break, and the database
  knows neither the client's new identifiers nor a sequence as high as its clock, a run of the
  client prints its key and trajectory, an accept for the allowed application and a
  quarantine for the sensitive one, and exits with code zero; one of the lines of the proxy's
  files then reads back as the allowed frame, and both frames are recorded against replays.\<close>

theorem mock_client_against_proxy:
  fixes v :: "(sql_env, replay_db) Verifier"
  assumes "ed25519_law ed" and "\<And>t. AsTime (NewTs t) = t" and "genuine_key ed sk"
    and "loadOrCreateKeypair ed (me_keys menv) fs dir = (Inr (pub, sk), fs')"
    and "me_NewClientErr menv = None" and "newTrajectoryID (me_Now menv 0) (me_Rand menv) = Inr tid"
    and "n = word_of_int (UnixNano (me_Now menv 1))"
    and "knows_mock ed sk v" and "proxy_ready env st" and "unused_ids env st tid n"
    and "json_timestamp (in_UTC (me_Now menv 2))" and "verifier_fresh v env (me_Now menv 3)"
    and "json_timestamp (in_UTC (me_Now menv 4))" and "verifier_fresh v env (me_Now menv 5)"
    and "frame_fits v (syntheticFrame (me_Now menv 2) tid (tid @ ''-allowed'') n ''com.android.settings'')"
    and "frame_fits v (syntheticFrame (me_Now menv 4) tid (tid @ ''-sensitive'') (n + 1) ''com.example.bank'')"
  shows "\<exists>reasons reasons' st' c f.
    mock_main ed RawFrame_Marshal NewTs (json_rpc ed AsTime v env) menv fs st dir =
      ([PrintKey (base64_EncodeToString pub), PrintTrajectory tid n, PrintAllowed DecisionAccept reasons,
        PrintSensitive DecisionQuarantine reasons'], 0, fs', st') \<and>
    c \<in> contents (snd (is_sink st')) \<and> written_frame c f \<and>
    sf_TrajectoryID f = tid \<and> sf_FrameID f = tid @ ''-allowed'' \<and> sf_Sequence f = n \<and>
    (''mock-device'', tid @ ''-allowed'') \<in> seen_frames (is_guard st') \<and>
    (''mock-device'', tid @ ''-sensitive'') \<in> seen_frames (is_guard st')"
proof -
  note tid = trajectory_id_text [OF assms(6)]
  have pipe: "is_sanitizer st = NewPipeline [''com.android.settings''] [''com.example.bank'']" using assms(9) by (simp add: proxy_ready_def)
  let ?rpc = "json_rpc ed AsTime v env"
  obtain r1 st1 c f where 1: "build_and_send ed RawFrame_Marshal NewTs ?rpc st sk (me_Now menv 2) (me_Now menv 3) tid
      (tid @ ''-allowed'') n ''com.android.settings'' SendAllowed = (Inr r1, st1)"
    "cr_Decision r1 = DecisionAccept" and g1: "is_guard st1 = record_frame (is_guard st) ''mock-device'' (tid @ ''-allowed'') n"
    and san1: "is_sanitizer st1 = fill_defaults (is_sanitizer st)" and line: "c \<in> contents (snd (is_sink st1))"
      "written_frame c f" "sf_TrajectoryID f = tid" "sf_FrameID f = tid @ ''-allowed''" "sf_Sequence f = n"
    by (rule mock_allowed_stored [of ed AsTime NewTs, OF assms(1-3,8-10) tid assms(11,12,15)])
  have sens: "pl_SensitivePackages (is_sanitizer st1) ''com.example.bank'' = Some ''configured_sensitive_package''"
    using mock_frames_judged(3) [OF pipe] san1 by (simp add: frame_package_def mock_packages)
  let ?g2 = "record_frame (is_guard st1) ''mock-device'' (tid @ ''-sensitive'') (n + 1)"
  have chk: "SQLite_CheckAndRecord (Some \<lparr>sg_db = Some DbOpen\<rparr>) (ie_guard env) (is_guard st1) ''mock-device''
      (tid @ ''-sensitive'') (n + 1) = (None, ?g2)"
    unfolding g1 by (rule unused_taken(2) [OF assms(9,10)])
  obtain r2 st2 where 2: "build_and_send ed RawFrame_Marshal NewTs ?rpc st1 sk (me_Now menv 4) (me_Now menv 5) tid
      (tid @ ''-sensitive'') (n + 1) ''com.example.bank'' SendSensitive = (Inr r2, st2)"
    "cr_Decision r2 = DecisionQuarantine" and g2: "is_guard st2 = ?g2" and sink2: "is_sink st2 = is_sink st1"
    by (rule mock_sensitive_quarantined [of ed AsTime NewTs, OF assms(1-3,8) sens tid assms(13,14,16) chk])
  have run: "mock_main ed RawFrame_Marshal NewTs ?rpc menv fs st dir =
      ([PrintKey (base64_EncodeToString pub), PrintTrajectory tid n, PrintAllowed DecisionAccept (cr_ReasonCodes r1),
        PrintSensitive DecisionQuarantine (cr_ReasonCodes r2)], 0, fs', st2)"
    unfolding mock_main_def mock_run_def mock_send_def assms(4,5,6) assms(7) [symmetric] by (simp add: 1 2)
  show ?thesis
    by (intro exI conjI, rule run) (use line sink2 in \<open>simp_all add: g2 g1 record_frame_def\<close>)
qed

text \<open>A run of the client at the fixtures' time against a proxy that has just started.\<close>

definition mock_seed :: bytes where
  "mock_seed = replicate 32 (CHR ''s'')"

definition mock_key :: bytes where
  "mock_key = ed_NewKeyFromSeed sample_ed mock_seed"

definition mock_sample_env :: mock_env where
  "mock_sample_env = \<lparr>me_keys = good_keys mock_seed, me_NewClientErr = None, me_Rand = Inr ''random'', me_Now = (\<lambda>_. fixture_time)\<rparr>"

definition mock_tid :: string where
  "mock_tid = projr (newTrajectoryID fixture_time (Inr ''random''))"

definition mock_sequence :: u64 where
  "mock_sequence = word_of_int (UnixNano fixture_time)"

definition mock_size :: int where
  "mock_size = max
     (int (length (projr (RawFrame_Marshal (syntheticFrame fixture_time mock_tid (mock_tid @ ''-allowed'') mock_sequence ''com.android.settings'')))))
     (int (length (projr (RawFrame_Marshal (syntheticFrame fixture_time mock_tid (mock_tid @ ''-sensitive'') (mock_sequence + 1) ''com.example.bank'')))))"

definition mock_verifier :: "(sql_env, replay_db) Verifier" where
  "mock_verifier = sample_verifier\<lparr>
     vf_Registry := Some (LookupDevice [(''mock-device'', sample_device\<lparr>dv_PublicKey := ed_Public sample_ed mock_key, dv_PublicKeyID := ''mock-key''\<rparr>)]),
     vf_MaxPayloadBytes := mock_size, vf_Now := Some (\<lambda>_. fixture_time)\<rparr>"

definition mock_state :: proxy_istate where
  "mock_state = sample_state\<lparr>is_sanitizer := NewPipeline [''com.android.settings''] [''com.example.bank'']\<rparr>"

lemma mock_sequence_value: "mock_sequence = 1780228800000000000"
  by (simp add: mock_sequence_def UnixNano_def unix_epoch_def fixture_time_value wrap64_def day_of_civil_def day_ns_def minute_def second_def)

lemma mock_loads:
  obtains fs' where "loadOrCreateKeypair sample_ed (me_keys mock_sample_env) Map.empty ''.devkeys'' =
    (Inr (ed_Public sample_ed mock_key, mock_key), fs')"
  by (simp add: loadOrCreateKeypair_def mock_sample_env_def good_keys_def GenerateKey_def os_WriteFile_def mock_key_def Let_def)

lemma mock_premises:
  "newTrajectoryID (me_Now mock_sample_env 0) (me_Rand mock_sample_env) = Inr mock_tid"
  "knows_mock sample_ed mock_key mock_verifier"
  "verifier_fresh mock_verifier sample_env fixture_time"
  "frame_fits mock_verifier (syntheticFrame fixture_time mock_tid (mock_tid @ ''-allowed'') mock_sequence ''com.android.settings'')"
  "frame_fits mock_verifier (syntheticFrame fixture_time mock_tid (mock_tid @ ''-sensitive'') (mock_sequence + 1) ''com.example.bank'')"
  "unused_ids sample_env mock_state mock_tid mock_sequence"
proof -
  show "newTrajectoryID (me_Now mock_sample_env 0) (me_Rand mock_sample_env) = Inr mock_tid"
    by (simp add: mock_tid_def mock_sample_env_def newTrajectoryID_def)
  show "knows_mock sample_ed mock_key mock_verifier"
    by (simp add: knows_mock_def mock_verifier_def sample_verifier_def sample_device_def LookupDevice_def)
  show "verifier_fresh mock_verifier sample_env fixture_time"
    by (simp add: verifier_fresh_def mock_verifier_def sample_facts sample_env_def fixture_time_value)
  show "frame_fits mock_verifier (syntheticFrame fixture_time mock_tid (mock_tid @ ''-allowed'') mock_sequence ''com.android.settings'')"
    "frame_fits mock_verifier (syntheticFrame fixture_time mock_tid (mock_tid @ ''-sensitive'') (mock_sequence + 1) ''com.example.bank'')"
    by (simp_all add: frame_fits_def mock_verifier_def mock_size_def)
  show "unused_ids sample_env mock_state mock_tid mock_sequence"
    by (simp add: unused_ids_def mock_state_def sample_state_def empty_db_def db_abs_def sample_env_def good_sql_def mock_sequence_value)
qed

lemma mock_ready: "proxy_ready sample_env mock_state"
proof -
  have "json_timestamp (in_UTC 1)" by code_simp
  moreover have "sink_works (good_os 0) (sample_sink, Map.empty)"
    using good_write by (auto simp: sink_works_def json_sink_ok_def sink_wf_def sample_sink_def json_active_whole_def
        active_content_def whole_lines_def)
  ultimately show ?thesis
    by (simp add: proxy_ready_def mock_state_def sample_state_def sample_env_def sql_fault_free_def good_sql_def)
qed

theorem mock_client_against_proxy_witness:
  "\<exists>out fs' st'. mock_main sample_ed RawFrame_Marshal id (json_rpc sample_ed id mock_verifier sample_env) mock_sample_env
      Map.empty mock_state ''.devkeys'' = (out, 0, fs', st') \<and>
    (\<exists>c\<in>contents (snd (is_sink st')). \<exists>f. written_frame c f \<and> sf_FrameID f = mock_tid @ ''-allowed'') \<and>
    (''mock-device'', mock_tid @ ''-allowed'') \<in> seen_frames (is_guard st')"
proof -
  obtain fs' where keys: "loadOrCreateKeypair sample_ed (me_keys mock_sample_env) Map.empty ''.devkeys'' =
    (Inr (ed_Public sample_ed mock_key, mock_key), fs')" by (rule mock_loads)
  have now: "me_Now mock_sample_env i = fixture_time" and client: "me_NewClientErr mock_sample_env = None" for i
    by (simp_all add: mock_sample_env_def)
  have key: "genuine_key sample_ed mock_key" 
    unfolding genuine_key_def mock_key_def by (rule exI [of _ mock_seed]) (simp add: mock_seed_def ed_SeedSize_def)
  have id: "id (id t) = t" for t :: time by simp
  have ts: "json_timestamp (in_UTC fixture_time)" unfolding fixture_time_value by code_simp
  have n: "mock_sequence = word_of_int (UnixNano (me_Now mock_sample_env 1))" by (simp add: now mock_sequence_def)
  from mock_client_against_proxy [where AsTime = id and NewTs = id, OF sample_ed_law id key keys client
      mock_premises(1) n mock_premises(2) mock_ready mock_premises(6), unfolded now, OF ts mock_premises(3) ts mock_premises(3-5)]
  show ?thesis by blast
qed

end
