(* ===== verification/Json_Config.thy ===== *)
theory Json_Config
  imports Json_Codec Config
begin

text \<open>
  The configuration file: the tags of \<open>internal/config/config.go\<close> and \<open>json.Unmarshal\<close> on
  \<open>Config\<close>. Go's \<open>int\<close> and \<open>int64\<close> fields refuse numbers beyond 64 bits, and the pointer of
  \<open>storage_fsync\<close> tells an absent or null member from \<open>false\<close>.
\<close>

section \<open>The codecs\<close>

definition go_int_codec :: "int codec" where
  "go_int_codec = \<lparr>
     cd_enc = (\<lambda>n. Some (JNum (format_int n))),
     cd_dec = (\<lambda>j v. case j of JNum t \<Rightarrow> ParseInt 64 t | JNull \<Rightarrow> Some v | _ \<Rightarrow> None),
     cd_empty = (\<lambda>n. n = 0)\<rparr>"

definition pointer_codec :: "'v codec \<Rightarrow> 'v \<Rightarrow> 'v option codec" where
  "pointer_codec cd z = \<lparr>
     cd_enc = (\<lambda>p. case p of None \<Rightarrow> Some JNull | Some v \<Rightarrow> cd_enc cd v),
     cd_dec = (\<lambda>j p. if j = JNull then Some None
                     else map_option Some (cd_dec cd j (case p of None \<Rightarrow> z | Some v \<Rightarrow> v))),
     cd_empty = (\<lambda>p. p = None)\<rparr>"

definition DeviceConfig_codec :: "DeviceConfig codec" where
  "DeviceConfig_codec = struct_codec
     [required ''device_id'' string_codec dc_DeviceID dc_DeviceID_update,
      required ''ed25519_public_key_base64'' string_codec dc_Ed25519PublicKeyBase64 dc_Ed25519PublicKeyBase64_update,
      omitempty ''public_key_id'' string_codec dc_PublicKeyID dc_PublicKeyID_update,
      omitempty ''client_cert_fingerprint_sha256'' string_codec dc_ClientCertFingerprintSHA256 dc_ClientCertFingerprintSHA256_update]"

definition zero_DeviceConfig :: DeviceConfig where
  "zero_DeviceConfig = \<lparr>dc_DeviceID = [], dc_Ed25519PublicKeyBase64 = [], dc_PublicKeyID = [], dc_ClientCertFingerprintSHA256 = []\<rparr>"

definition MTLSConfig_codec :: "MTLSConfig codec" where
  "MTLSConfig_codec = struct_codec
     [required ''enabled'' bool_codec mt_Enabled mt_Enabled_update,
      omitempty ''cert_file'' string_codec mt_CertFile mt_CertFile_update,
      omitempty ''key_file'' string_codec mt_KeyFile mt_KeyFile_update,
      omitempty ''client_ca_file'' string_codec mt_ClientCAFile mt_ClientCAFile_update,
      required ''require_client'' bool_codec mt_RequireClient mt_RequireClient_update]"

definition Config_codec :: "Config codec" where
  "Config_codec = struct_codec
     [required ''grpc_addr'' string_codec cf_GRPCAddr cf_GRPCAddr_update,
      required ''http_addr'' string_codec cf_HTTPAddr cf_HTTPAddr_update,
      required ''storage_path'' string_codec cf_StoragePath cf_StoragePath_update,
      required ''replay_path'' string_codec cf_ReplayPath cf_ReplayPath_update,
      required ''storage_rotate_max_bytes'' go_int_codec cf_StorageRotateMaxBytes cf_StorageRotateMaxBytes_update,
      required ''storage_rotate_daily'' bool_codec cf_StorageRotateDaily cf_StorageRotateDaily_update,
      required ''storage_fsync'' (pointer_codec bool_codec False) cf_StorageFsync cf_StorageFsync_update,
      required ''max_payload_bytes'' go_int_codec cf_MaxPayloadBytes cf_MaxPayloadBytes_update,
      required ''signature_ttl_seconds'' go_int_codec cf_SignatureTTLSeconds cf_SignatureTTLSeconds_update,
      required ''allowed_packages'' (slice_codec string_codec []) cf_AllowedPackages cf_AllowedPackages_update,
      required ''sensitive_packages'' (slice_codec string_codec []) cf_SensitivePackages cf_SensitivePackages_update,
      required ''allowed_devices'' (slice_codec DeviceConfig_codec zero_DeviceConfig) cf_AllowedDevices cf_AllowedDevices_update,
      required ''mtls'' MTLSConfig_codec cf_MTLS cf_MTLS_update]"

definition Config_Unmarshal :: "bytes \<Rightarrow> string + Config" where
  "Config_Unmarshal data =
     (case json_parse data of
        None \<Rightarrow> Inl ''invalid JSON''
      | Some j \<Rightarrow>
          (case cd_dec Config_codec j zero_Config of
             None \<Rightarrow> Inl ''cannot unmarshal into Config''
           | Some c \<Rightarrow> Inr c))"

section \<open>What a decoded configuration satisfies\<close>

definition valid_DeviceConfig :: "DeviceConfig \<Rightarrow> bool" where
  "valid_DeviceConfig d \<longleftrightarrow> valid_utf8 (dc_DeviceID d) \<and> valid_utf8 (dc_Ed25519PublicKeyBase64 d) \<and>
     valid_utf8 (dc_PublicKeyID d) \<and> valid_utf8 (dc_ClientCertFingerprintSHA256 d)"

definition valid_MTLSConfig :: "MTLSConfig \<Rightarrow> bool" where
  "valid_MTLSConfig m \<longleftrightarrow> valid_utf8 (mt_CertFile m) \<and> valid_utf8 (mt_KeyFile m) \<and> valid_utf8 (mt_ClientCAFile m)"

definition valid_Config :: "Config \<Rightarrow> bool" where
  "valid_Config c \<longleftrightarrow>
     valid_utf8 (cf_GRPCAddr c) \<and> valid_utf8 (cf_HTTPAddr c) \<and> valid_utf8 (cf_StoragePath c) \<and> valid_utf8 (cf_ReplayPath c) \<and>
     in_int64 (cf_StorageRotateMaxBytes c) \<and> in_int64 (cf_MaxPayloadBytes c) \<and> in_int64 (cf_SignatureTTLSeconds c) \<and>
     list_all valid_utf8 (cf_AllowedPackages c) \<and> list_all valid_utf8 (cf_SensitivePackages c) \<and>
     list_all valid_DeviceConfig (cf_AllowedDevices c) \<and> valid_MTLSConfig (cf_MTLS c)"

lemma keeps_go_int: "keeps in_int64 go_int_codec"
  by (auto simp: keeps_def go_int_codec_def ParseInt_def in_int64_def Let_def split: json.splits option.splits if_splits prod.splits)

lemma keeps_DeviceConfig: "keeps valid_DeviceConfig DeviceConfig_codec"
  unfolding DeviceConfig_codec_def by (rule keeps_struct) (auto intro!: keeps_text_fields simp: valid_DeviceConfig_def)

lemma keeps_MTLSConfig: "keeps valid_MTLSConfig MTLSConfig_codec"
  unfolding MTLSConfig_codec_def by (rule keeps_struct) (auto intro!: keeps_text_fields simp: valid_MTLSConfig_def)

lemma zero_DeviceConfig_valid: "valid_DeviceConfig zero_DeviceConfig"
  by (simp add: valid_DeviceConfig_def zero_DeviceConfig_def)

lemma keeps_Config: "keeps valid_Config Config_codec"
  unfolding Config_codec_def
  by (rule keeps_struct)
    (auto intro!: keeps_text_fields keeps_fields [OF keeps_go_int] keeps_fields [OF keeps_MTLSConfig]
      keeps_fields [OF keeps_slice [OF keeps_DeviceConfig zero_DeviceConfig_valid]]
      keeps_fields [OF keeps_True [where cd = "pointer_codec bool_codec False"]]
      simp: valid_Config_def)

lemma decoded_Config:
  assumes "Config_Unmarshal data = Inr c"
  shows "valid_Config c"
proof -
  obtain j where "cd_dec Config_codec j zero_Config = Some c"
    using assms by (auto simp: Config_Unmarshal_def split: option.splits)
  moreover have "valid_Config zero_Config"
    by (simp add: valid_Config_def zero_Config_def valid_MTLSConfig_def in_int64_def)
  ultimately show ?thesis using keeps_Config by (auto simp: keeps_def)
qed

section \<open>Configurations in files\<close>

definition Config_Marshal :: "Config \<Rightarrow> bytes" where
  "Config_Marshal c = (case cd_enc Config_codec c of Some j \<Rightarrow> json_print j | None \<Rightarrow> [])"

lemma sound_go_int [codec_sound]: "sound go_int_codec" "sound (pointer_codec bool_codec b)"
  by (auto simp: sound_def go_int_codec_def pointer_codec_def bool_codec_def split: option.splits)

lemma sound_Config: "sound Config_codec"
  by (simp add: Config_codec_def DeviceConfig_codec_def MTLSConfig_codec_def codec_sound)

lemma faithful_go_int [codec_faithful]: "in_int64 n \<Longrightarrow> faithful go_int_codec 0 d n"
  by (simp add: faithful_def go_int_codec_def ParseInt_format in_int64_def)

lemma faithful_pointer [codec_faithful]: "faithful (pointer_codec bool_codec False) None d p"
  by (cases p) (simp_all add: faithful_def pointer_codec_def bool_codec_def)

lemma faithful_DeviceConfig [codec_faithful]: "valid_DeviceConfig x \<Longrightarrow> faithful DeviceConfig_codec zero_DeviceConfig (Suc d) x"
  unfolding DeviceConfig_codec_def valid_DeviceConfig_def
  by (rule faithful_struct, (rule copies_intros)+) (simp_all add: zero_DeviceConfig_def codec_faithful ascii_def)

lemma faithful_MTLSConfig [codec_faithful]: "valid_MTLSConfig x \<Longrightarrow> faithful MTLSConfig_codec (cf_MTLS zero_Config) (Suc d) x"
  unfolding MTLSConfig_codec_def valid_MTLSConfig_def
  by (rule faithful_struct, (rule copies_intros)+) (simp_all add: zero_Config_def codec_faithful ascii_def)

lemma faithful_Config: "valid_Config c \<Longrightarrow> faithful Config_codec zero_Config (Suc (Suc (Suc d))) c"
  unfolding Config_codec_def valid_Config_def
  by (rule faithful_struct, (rule copies_intros)+)
    (simp_all add: faithful_MTLSConfig zero_Config_def faithful_MTLSConfig [unfolded zero_Config_def, simplified] codec_faithful list_all_iff ascii_def)

lemma Config_roundtrip:
  assumes "valid_Config c"
  shows "Config_Unmarshal (Config_Marshal c) = Inr c"
proof -
  obtain j where j: "cd_enc Config_codec c = Some j" "json_depth j \<le> Suc (Suc (Suc 0))" "cd_dec Config_codec j zero_Config = Some c"
    using faithful_Config [OF assms, of 0] by (auto simp: faithful_def)
  have "json_wf j" using sound_Config j(1) by (auto simp: sound_def)
  then have "json_parse (json_print j) = Some j" using j(2) by (intro json_parse_print) (simp_all add: maxNestingDepth_def)
  with j show ?thesis by (simp add: Config_Unmarshal_def Config_Marshal_def)
qed

section \<open>Properties\<close>

text \<open>Claim C36: configuration files mean what they say. \<open>Load\<close> on a file that holds the JSON text of a valid
  configuration returns that configuration with its defaults filled in, with every address,
  limit, package, device and TLS setting as written, and every configuration that \<open>Load\<close>
  returns, whatever the file holds, has limits that fit in 64 bits and strings of valid UTF-8.\<close>

theorem config_file_loads:
  assumes "path \<noteq> []"
  shows "(ReadFile path = Inr (Config_Marshal c) \<and> valid_Config c \<and> config_ok c \<longrightarrow>
      Load ReadFile Config_Unmarshal path = Inr (with_defaults c)) \<and>
    (Load ReadFile Config_Unmarshal path = Inr cfg \<longrightarrow>
      (\<exists>c. valid_Config c \<and> config_ok c \<and> cfg = with_defaults c))"
proof (intro conjI impI)
  assume "ReadFile path = Inr (Config_Marshal c) \<and> valid_Config c \<and> config_ok c"
  then show "Load ReadFile Config_Unmarshal path = Inr (with_defaults c)"
    using assms Validate_ok_iff [of c "with_defaults c"] by (simp add: Load_def Config_roundtrip)
next
  assume "Load ReadFile Config_Unmarshal path = Inr cfg"
  then obtain data c where "Config_Unmarshal data = Inr c" "Validate c = (None, cfg)"
    by (auto simp: Load_def split: if_splits sum.splits prod.splits option.splits)
  then show "\<exists>c. valid_Config c \<and> config_ok c \<and> cfg = with_defaults c"
    using decoded_Config by (auto simp: Validate_ok_iff)
qed

lemma base64_char_ascii: "byte_val (base64_char n) < 128"
proof -
  have "base64_value (base64_char n) \<noteq> None" by (simp add: base64_value_char)
  then show ?thesis by (auto simp: base64_value_def byte_val_of_char Let_def split: if_splits)
qed

lemma base64_ascii: "ascii (base64_EncodeToString bs)"
  by (induction bs rule: base64_EncodeToString.induct) (auto simp: Let_def ascii_def base64_char_ascii)

lemma sample_config_valid: "valid_Config sample_config"
  using base64_ascii [of "ed_Public sample_ed sample_key"]
  by (simp add: valid_Config_def sample_config_def zero_Config_def valid_DeviceConfig_def valid_MTLSConfig_def in_int64_def
      ascii_valid ascii_def del: valid_utf8.simps(2))

theorem config_file_loads_witness:
  "Load (\<lambda>_. Inr (Config_Marshal sample_config)) Config_Unmarshal ''config.json'' = Inr (with_defaults sample_config)"
  using config_file_loads [of "''config.json''" "\<lambda>_. Inr (Config_Marshal sample_config)" sample_config]
    sample_config_valid sample_config_ok by simp

end
