(* ===== verification/Spec2Isabelle.thy ===== *)
theory Spec2Isabelle
  imports Json_Lifecycle Serving Json_Mock Json_Config
begin

text \<open>
  Golem-Harness is a telemetry proxy. A device signs a frame of UI telemetry and sends it over
  gRPC; the proxy verifies the envelope, refuses replays, decodes and sanitizes the frame, and
  appends the result to a file of JSON lines. This development models the whole Go program
  under \<open>src/server\<close> and \<open>src/mock-client\<close>, apart from generated code, and proves what makes it
  correct.

  \<^bold>\<open>The parts and their theories.\<close>

  \<^item> \<open>Prelude\<close>, \<open>Go_Strings\<close>, \<open>Go_Time\<close>, \<open>Go_Path\<close>, \<open>Go_Regexp\<close>, \<open>Go_Base64\<close>, \<open>Sha256\<close>: machine types
    and what the program uses of Go's standard library, executable: string trimming and number
    formatting, the calendar and RFC 3339, lexical paths, a regular-expression matcher, base64,
    SHA-256 and hex.
  \<^item> \<open>Trajectory\<close> (\<open>pkg/trajectory/types.go\<close>): the frames. \<open>Wire\<close> (\<open>gen/golem/v1\<close>): the messages on the
    ingest path with their getters.
  \<^item> \<open>Signing\<close> (\<open>pkg/signing\<close>): envelopes, canonical bytes, signing, wire conversions. The canonical
    bytes determine the envelope when no text field holds a line break, and only then.
  \<^item> \<open>Replay\<close> (\<open>internal/auth\<close>, the two replay guards): the abstract specification \<open>spec_check\<close>, the
    contract \<open>replay_guard\<close> and its two interpretations, the memory guard and the SQLite guard with
    every fault of its statements and of the commit.
  \<^item> \<open>Auth\<close> (\<open>internal/auth/auth.go\<close>): the registry and \<open>Verify\<close>, its exact acceptance condition,
    completeness, and authenticity as a reduction: whoever gets an envelope accepted that its
    device did not sign has forged a signature.
  \<^item> \<open>Sanitize\<close> (\<open>internal/sanitize\<close>): the pipeline with its patterns, kill switch and text redactor.
    Whatever is stored of a text is its hash or nothing.
  \<^item> \<open>Storage\<close> (\<open>internal/storage\<close>): the JSON-lines sink with rotation over a file system with faults.
    No byte once written is lost, and what is a line of a file stays one. \<open>holds_line\<close> says that a
    file has a line, \<open>holds_bytes\<close> only that it holds its bytes; they differ after a write that
    was cut short, since the next line is then joined to its remains. Sizes are bounded, the
    rotation loop stops at the first free name.
  \<^item> \<open>Ingest\<close> (\<open>internal/ingest\<close>): the service, its log, its error mapping and the gRPC adapter. The
    locales \<open>frame_sanitizer\<close> and \<open>frame_sink\<close> are the two interfaces of the service;
    \<open>ingest_service\<close> joins them with \<open>replay_guard\<close>, and all are interpreted on the program's parts.
  \<^item> \<open>Config\<close> (\<open>internal/config\<close>): loading and validation. \<open>Fixtures\<close> (\<open>internal/testutil\<close>): the test
    fixtures. \<open>Client\<close> (\<open>pkg/client\<close>): the client library and its composition with the server.
    \<open>Mock_Client\<close> (\<open>mock-client/main.go\<close>): the test client.
  \<^item> \<open>Go_Json\<close>, \<open>Json_Literals\<close>, \<open>Json_Time\<close>, \<open>Json_Codec\<close>: what the program uses of \<open>encoding/json\<close>. \<open>Go_Json\<close>
    has the scanner, the limit on nesting, string and number literals, escapes and UTF-8, and
    parses back what it prints; \<open>Json_Time\<close> has \<open>time.Time\<close> as RFC 3339 text with its zone, and shows
    that a parsed time lies in a year of four digits, so that only its zone can keep it from
    being written again;
    \<open>Json_Codec\<close> has the reflective part, a struct being the list of its fields with the names
    and options of their tags. \<open>Json_Frames\<close> and \<open>Json_Config\<close> are the tags of \<open>types.go\<close> and
    \<open>config.go\<close>, with the round trips. \<open>Json_Store\<close>: the storage file as a file of JSON lines that
    read back as frames. \<open>Json_Service\<close>: the service with JSON at both ends. \<open>Json_Lifecycle\<close>: the life
    of the proxy with JSON at both ends, every accepted call staying readable. \<open>Json_Mock\<close>: the
    test client against the proxy, from its key file to the storage file.
  \<^item> \<open>Proxy\<close> (\<open>cmd/golem-proxy/main.go\<close>): startup, transport credentials and what ends \<open>run\<close>. \<open>Serving\<close>: the
    two server goroutines, their channel and the \<open>select\<close> of \<open>run\<close> as a step relation \<open>serve_step\<close>
    over all interleavings. \<open>Lifecycle\<close>: the
    proxy over starts, concurrent calls, stops, panics and crashes as a step relation \<open>proxy_step\<close>;
    the locales \<open>replay_system\<close>, \<open>storing_system\<close>, \<open>recording_system\<close> and \<open>failing_system\<close> give the
    theorems on whole lives that are stated below. The event \<open>WriteFailed\<close> marks a failing write:
    up to the first one every accepted frame is a line of its own.

  \<^bold>\<open>How state and effects are modelled.\<close> A struct is a record with the source's field names, an
  operation a function that returns its result and the new state, an error a value. A call's
  surroundings (clock readings, which system calls or SQL statements fail, what a failing commit
  or write leaves behind) are an argument of the call, so that every theorem holds for every
  combination of faults. A call of the service touches shared state in two places, the replay
  guard and the sink, and each holds a lock over its whole operation; \<open>Lifecycle\<close> interleaves the
  calls at this grain. The theorems on one call are about the call without interleaving, which
  \<open>sequential_request\<close> shows to be one of the interleavings.

  \<^bold>\<open>Parameters.\<close> The signature scheme (\<open>ed25519_law\<close> says what is relied on, for keys made from a
  seed only; nothing is assumed about forgeries), the protobuf
  timestamp conversions, the TLS and X.509 calls, what the gRPC and HTTP servers return
  (\<open>documented_results\<close>), and the connection of the client. SQLite is modelled by the two tables
  and the statements the guard issues. The theories of the components take \<open>json.Marshal\<close> and
  \<open>json.Unmarshal\<close> as arguments, so that what they prove holds for any encoder; \<open>Json_Service\<close>,
  \<open>Json_Lifecycle\<close>, \<open>Json_Mock\<close> and \<open>Json_Config\<close> put the model of \<open>encoding/json\<close> in their place.

  \<^bold>\<open>Loops and bounds.\<close> Every loop is a total function: the rotation loop carries the source's own
  bound of 100 names, the regular-expression matcher and the JSON scanner recurse on the input,
  the others on lists. The codecs of the two recursive node types carry a depth: encoding uses
  the height of the tree and decoding the depth of the document plus one, and more never
  changes the result. The JSON parser refuses documents nested deeper than 10000, as the package
  does, and the round trips ask for less. Sequence numbers are 64-bit words; durations wrap at
  64 bits.

  \<^bold>\<open>Not modelled.\<close> The generated protobuf reflection code and gRPC stubs, flag parsing, the text that
  \<open>slog\<close> and \<open>fmt\<close> produce around the logged values, the wording of the errors of \<open>encoding/json\<close>,
  and the elements that a slice keeps beyond its length while one document gives the same
  array three times.
\<close>

section \<open>Properties of the whole program\<close>

text \<open>Claim C1: replay protection for the life of the deployment. Over any sequence of starts with
  the same replay database, concurrent requests in any interleaving, failing starts, stops,
  panics and crashes, including a crash between the commit of the guard and the write of the
  frame, and with any faults of the database and the operating system, the proxy answers
  accept at most once for each frame of a device; every accept answers a call that the guard
  recorded; and for one device the recorded sequence numbers strictly increase.\<close>

theorem lifetime_accepts_once:
  assumes "runs (proxy_step ed Unmarshal Marshal path) (Stopped fs dbs) evs s"
  shows "distinct (map (\<lambda>e. (se_DeviceID e, se_FrameID e)) (accepted_calls evs)) \<and>
    mset (accepted_calls evs) \<subseteq># mset (recorded_calls evs) \<and> per_device_increasing (map envelope_key (recorded_calls evs))"
  using life.system_accepts_once [OF assms] life.system_records_once [OF assms] by (simp add: envelope_key_def)

theorem lifetime_accepts_once_witness:
  "\<exists>evs (s :: (unit, unit) px_state). runs (proxy_step sample_ed sample_unmarshal sample_marshal ''replay.db'')
        (Stopped Map.empty Map.empty) evs s \<and> accepted_calls evs = [sample_signed] \<and>
     mset [sample_signed] \<subseteq># mset (recorded_calls evs) \<and> per_device_increasing (map envelope_key (recorded_calls evs))"
proof -
  let ?evs = "[Recorded sample_signed, Accepted sample_signed]"
  obtain s :: "(unit, unit) px_state" where r: "runs (proxy_step sample_ed sample_unmarshal sample_marshal ''replay.db'')
      (Stopped Map.empty Map.empty) ?evs s"
    using sample_life by blast
  from lifetime_accepts_once [OF r] r show ?thesis by (intro exI [of _ ?evs] exI [of _ s]) simp
qed

text \<open>Claim C2: an accept is never lost. Whatever happens to the proxy after it answered accept,
  concurrent requests, restarts, crashes and failing writes included, and whatever storage
  paths and rotation options later configurations use, some file holds the bytes of the line
  of a sanitized frame with the identifiers of the accepted envelope, marked verified. If no
  write had failed by the time of the accept and the files consisted of whole lines at the
  start, these bytes are a line of the file for good, at its start or after a line break. After
  a failing write an accepted frame may share its line with the remains of another.\<close>

theorem lifetime_keeps_accepted:
  assumes "runs (proxy_step ed Unmarshal Marshal path) (Stopped fs dbs) evs s" and "e \<in> set (accepted_calls evs)"
  shows "(\<exists>f line. stored_for e f \<and> Marshal f = Inr line \<and> holds_bytes (px_files s) line) \<and>
    (whole_files fs \<and> e \<in> set (accepted_calls (takeWhile (\<lambda>ev. ev \<noteq> WriteFailed) evs)) \<longrightarrow>
      (\<exists>f line. stored_for e f \<and> Marshal f = Inr line \<and> holds_line (px_files s) line))"
  using life.system_stored [OF assms(1) _ assms(2)] line_life.system_stored_before [OF assms(1), of e]
  by (auto simp: px_stored_def px_line_def)

theorem lifetime_keeps_accepted_witness:
  "\<exists>(s :: (unit, unit) px_state) f line. runs (proxy_step sample_ed sample_unmarshal sample_marshal ''replay.db'')
      (Stopped Map.empty Map.empty) [Recorded sample_signed, Accepted sample_signed] s \<and>
     stored_for sample_signed f \<and> sample_marshal f = Inr line \<and> holds_line (px_files s) line"
proof -
  obtain s :: "(unit, unit) px_state" where r: "runs (proxy_step sample_ed sample_unmarshal sample_marshal ''replay.db'')
      (Stopped Map.empty Map.empty) [Recorded sample_signed, Accepted sample_signed] s"
    using sample_life by blast
  have "whole_files Map.empty" by (simp add: whole_files_def contents_def)
  with lifetime_keeps_accepted [OF r, of sample_signed] r show ?thesis by auto
qed

text \<open>Claim C10: a running proxy is always in a sound state: in every state reachable from a stopped
  one, with any number of calls in flight, its sink is closed or open on its own file, its
  service is the one that \<open>run\<close> assembles from the loaded configuration, everything recorded so
  far is in the database it uses or finds on disk, and every call in flight has been recorded
  and is not among the accepted ones.\<close>

theorem reachable_state_sound:
  assumes "runs (proxy_step ed Unmarshal Marshal path) (Stopped fs dbs) evs s"
  shows "px_inv Marshal path s \<and> mset (accepted_calls evs) + px_calls s \<subseteq># mset (recorded_calls evs) \<and>
    (\<forall>e\<in>set (recorded_calls evs). (se_DeviceID e, se_FrameID e) \<in> sp_seen (px_view path s) \<and>
       se_Sequence e \<le> sp_max (px_view path s) (se_DeviceID e))"
  using life.system_inv [OF assms] life.system_recorded [OF assms] life.system_pool [OF assms] by (simp add: envelope_key_def)

theorem reachable_state_sound_witness:
  "\<exists>s :: (unit, unit) px_state. runs (proxy_step sample_ed sample_unmarshal sample_marshal ''replay.db'')
      (Stopped Map.empty Map.empty) [Recorded sample_signed, Accepted sample_signed] s \<and> px_inv sample_marshal ''replay.db'' s \<and>
     (se_DeviceID sample_signed, se_FrameID sample_signed) \<in> sp_seen (px_view ''replay.db'' s)"
proof -
  obtain s :: "(unit, unit) px_state" where r: "runs (proxy_step sample_ed sample_unmarshal sample_marshal ''replay.db'')
      (Stopped Map.empty Map.empty) [Recorded sample_signed, Accepted sample_signed] s"
    using sample_life by blast
  from reachable_state_sound [OF r] r show ?thesis by auto
qed

end
